(* ===== verification/Tampi_Prelude.thy ===== *)
theory Tampi_Prelude
  imports Complex_Main "HOL-Library.Word" "HOL-Library.Multiset"
begin

text \<open>
  Shared vocabulary of the development: the machine types of the source, the values that stand
  for its error paths (the calls to \<open>ErrorHandler::fail\<close>, the failing \<open>assert\<close>s and the accesses
  outside an array), the combinators that sequence fallible steps, and the generic facts on
  lists, options, multisets and words that the component theories use.
\<close>

section \<open>Machine types\<close>

type_synonym u64 = "64 word"

section \<open>Error paths\<close>

text \<open>
  \<open>ErrorHandler::fail\<close> (src/src/common/util/ErrorHandler.hpp) prints its reason parts and ends
  the process, so it is the error value \<open>Fail\<close> with its reason parts. A failing \<open>assert\<close> of a debug build is
  \<open>AssertFail\<close>; a read or write outside an array, undefined in C++, is \<open>OutOfBounds\<close>.
\<close>

datatype reason = Str string | Num int

datatype fatal = Fail "reason list" | AssertFail string | OutOfBounds string

text \<open>The line feed, tabulator and apostrophe characters of the messages.\<close>

abbreviation nl :: string where "nl \<equiv> [CHR 0x0A]"
abbreviation apos :: string where "apos \<equiv> [CHR 0x27]"
abbreviation tab :: string where "tab \<equiv> [CHR 0x09]"

type_synonym 'a result = "fatal + 'a"

definition fail :: "reason list \<Rightarrow> 'a result" where
  "fail parts = Inl (Fail parts)"

definition failIf :: "bool \<Rightarrow> reason list \<Rightarrow> unit result" where
  "failIf failure parts = (if \<not> failure then Inr () else fail parts)"

text \<open>
  \<open>ErrorHandler::warn\<close> writes to the standard error stream and returns: an operation that may warn
  returns the list of the warnings it wrote.
\<close>

type_synonym warnings = "reason list list"

definition warnIf :: "bool \<Rightarrow> reason list \<Rightarrow> warnings" where
  "warnIf failure parts = (if \<not> failure then [] else [parts])"

definition rassert :: "bool \<Rightarrow> string \<Rightarrow> unit result" where
  "rassert b what = (if b then Inr () else Inl (AssertFail what))"

definition rbind :: "'a result \<Rightarrow> ('a \<Rightarrow> 'b result) \<Rightarrow> 'b result" where
  "rbind m f = (case m of Inl e \<Rightarrow> Inl e | Inr a \<Rightarrow> f a)"

text \<open>Array accesses of the source: the element, or the error.\<close>

definition aread :: "'a list \<Rightarrow> nat \<Rightarrow> string \<Rightarrow> 'a result" where
  "aread xs i what = (if i < length xs then Inr (xs ! i) else Inl (OutOfBounds what))"

definition awrite :: "'a list \<Rightarrow> nat \<Rightarrow> 'a \<Rightarrow> string \<Rightarrow> 'a list result" where
  "awrite xs i v what = (if i < length xs then Inr (xs[i := v]) else Inl (OutOfBounds what))"

text \<open>
  A loop of the source that need not end is a partial function into \<open>'a run\<close>: \<open>None\<close> is a run
  that does not return, \<open>Some (Inl e)\<close> one that ends the process, \<open>Some (Inr a)\<close> a result.
\<close>

type_synonym 'a run = "'a result option"

abbreviation ret :: "'a \<Rightarrow> 'a run" where
  "ret a \<equiv> Some (Inr a)"

definition run_bind :: "'a run \<Rightarrow> ('a \<Rightarrow> 'b run) \<Rightarrow> 'b run" where
  "run_bind m f = Option.bind m (\<lambda>r. case r of Inl e \<Rightarrow> Some (Inl e) | Inr a \<Rightarrow> f a)"

named_theorems result_simps \<open>rewriting of sequenced fallible steps\<close>

lemma rbind_Inl [simp]: "rbind (Inl e) f = Inl e"
  by (simp add: rbind_def)

lemma rbind_Inr [simp]: "rbind (Inr a) f = f a"
  by (simp add: rbind_def)

lemma rbind_fail [simp]: "rbind (fail e) f = fail e"
  by (simp add: fail_def)

lemma rbind_eq_Inr [result_simps]: "rbind m f = Inr b \<longleftrightarrow> (\<exists>a. m = Inr a \<and> f a = Inr b)"
  by (cases m) auto

lemma rbind_eq_Inl [result_simps]:
  "rbind m f = Inl e \<longleftrightarrow> m = Inl e \<or> (\<exists>a. m = Inr a \<and> f a = Inl e)"
  by (cases m) auto

lemma rbind_cong [fundef_cong]:
  "m = m' \<Longrightarrow> (\<And>a. m' = Inr a \<Longrightarrow> f a = f' a) \<Longrightarrow> rbind m f = rbind m' f'"
  by (cases m') auto

lemma rbind_assoc: "rbind (rbind m f) g = rbind m (\<lambda>a. rbind (f a) g)"
  by (cases m) auto

lemma fail_neq_Inr [simp]: "fail e \<noteq> Inr a" "Inr a \<noteq> fail e"
  by (simp_all add: fail_def)

lemma fail_inject [simp]: "(fail e :: 'a result) = fail e' \<longleftrightarrow> e = e'"
  by (simp add: fail_def)

lemma rassert_True [simp]: "rassert True w = Inr ()"
  by (simp add: rassert_def)

lemma rassert_eq_Inr [result_simps]: "rassert b w = Inr u \<longleftrightarrow> b"
  by (simp add: rassert_def)

lemma aread_in_range [simp]: "i < length xs \<Longrightarrow> aread xs i w = Inr (xs ! i)"
  by (simp add: aread_def)

lemma awrite_in_range [simp]: "i < length xs \<Longrightarrow> awrite xs i v w = Inr (xs[i := v])"
  by (simp add: awrite_def)

lemma aread_eq_Inr [result_simps]: "aread xs i w = Inr v \<longleftrightarrow> i < length xs \<and> v = xs ! i"
  by (auto simp: aread_def)

lemma awrite_eq_Inr [result_simps]: "awrite xs i v w = Inr ys \<longleftrightarrow> i < length xs \<and> ys = xs[i := v]"
  by (auto simp: awrite_def)

lemma run_bind_None [simp]: "run_bind None f = None"
  by (simp add: run_bind_def)

lemma run_bind_Inl [simp]: "run_bind (Some (Inl e)) f = Some (Inl e)"
  by (simp add: run_bind_def)

lemma run_bind_ret [simp]: "run_bind (ret a) f = f a"
  by (simp add: run_bind_def)

lemma run_bind_fail [simp]: "run_bind (Some (fail e)) f = Some (fail e)"
  by (simp add: run_bind_def fail_def)

lemma run_bind_eq_ret [result_simps]: "run_bind m f = ret b \<longleftrightarrow> (\<exists>a. m = ret a \<and> f a = ret b)"
  by (auto simp: run_bind_def split: option.splits sum.splits bind_splits)

lemma run_bind_mono [partial_function_mono]:
  assumes "mono_option B" and "\<And>y. mono_option (\<lambda>f. C y f)"
  shows "mono_option (\<lambda>f. run_bind (B f) (\<lambda>y. C y f))"
  unfolding run_bind_def
proof (rule bind_mono [OF assms(1)])
  fix r
  show "mono_option (\<lambda>f. case r of Inl e \<Rightarrow> Some (Inl e) | Inr a \<Rightarrow> C a f)"
    using assms(2) by (cases r) (auto simp: monotone_def flat_ord_def)
qed

section \<open>Generic facts\<close>

lemma sum_list_update_nat:
  fixes xs :: "nat list"
  assumes "i < length xs"
  shows "sum_list (xs[i := v]) + xs ! i = sum_list xs + v"
  using assms by (induction xs arbitrary: i) (auto split: nat.splits)

lemma member_le_sum_list_nat: "i < length xs \<Longrightarrow> xs ! i \<le> sum_list xs" for xs :: "nat list"
  by (simp add: member_le_sum_list)

lemma mod_less_twice: "m < c + c \<Longrightarrow> m mod c = (if m < c then m else m - c)" for m c :: nat
  by (simp add: mod_if)

lemma unat_less_64 [simp]: "unat (x :: u64) < 18446744073709551616"
  using unsigned_less [of x] by simp

lemma unat_of_nat_64: "n < 2 ^ 64 \<Longrightarrow> unat (of_nat n :: u64) = n"
  by (simp add: unat_of_nat)

lemma unat_diff_64:
  assumes "m \<le> n" "n < 2 ^ 64"
  shows "unat (of_nat n - of_nat m :: u64) = n - m"
  using assms unat_of_nat_64 [of "n - m"] by (simp add: of_nat_diff)

lemma mset_rotate [simp]: "mset (rotate n xs) = mset xs"
  by (metis append_take_drop_id mset_append rotate_drop_take union_commute)

lemma sum_list_rotate [simp]: "sum_list (rotate n xs) = sum_list xs" for xs :: "nat list"
  by (metis mset_rotate sum_mset_sum_list)

lemma map_cyclic_rotate:
  "map (\<lambda>j. f ((q + j) mod n)) [0..<n] = rotate q (map f [0..<n])"
  by (intro nth_equalityI) (auto simp: nth_rotate)

end
