(* ===== verification/Tasking_Model.thy ===== *)
theory Tasking_Model
  imports Tampi_Prelude
begin

text \<open>
  The access to the tasking runtime: \<open>Symbol\<close> (src/src/common/Symbol.hpp), \<open>ALPISymbol\<close> and
  \<open>TaskingModel\<close> (src/src/common/TaskingModel.hpp and .cpp).

  The runtime itself is not part of the sources. It is represented by the calls made to it so far
  (\<open>alpi_call list\<close>, oldest first) and by a parameter of type \<open>alpi\<close>, which says for any history and
  any call which error code it returns and which value it leaves in its i-th output parameter. So every runtime, and every
  behaviour of it that depends on the calls it received, is an instance.
\<close>

section \<open>Dynamic symbols\<close>

datatype SymbolAttr = Next | First

record symbol =
  sym_name :: string
  sym_symbol :: "nat option"

text \<open>\<open>dlsym\<close> is the dynamic linker: the address of a name found from a handle, if any.\<close>

type_synonym dlsym = "SymbolAttr \<Rightarrow> string \<Rightarrow> nat option"

definition Symbol_load :: "dlsym \<Rightarrow> symbol \<Rightarrow> SymbolAttr \<Rightarrow> bool \<Rightarrow> (bool \<times> symbol) result" where
  "Symbol_load dlsym s attr mandatory =
     (if sym_symbol s \<noteq> None then Inr (True, s)
      else let found = dlsym attr (sym_name s); s' = s\<lparr>sym_symbol := found\<rparr> in
        if found = None \<and> mandatory then fail [Str ''Could not find symbol '', Str (sym_name s)]
        else Inr (found \<noteq> None, s'))"

definition hasSymbol :: "symbol \<Rightarrow> bool" where
  "hasSymbol s = (sym_symbol s \<noteq> None)"

definition Symbol_make :: "dlsym \<Rightarrow> string \<Rightarrow> bool \<Rightarrow> symbol result" where
  "Symbol_make dlsym name preload =
     (let s = \<lparr>sym_name = name, sym_symbol = None\<rparr> in
      if preload then rbind (Symbol_load dlsym s Next True) (\<lambda>(_, s). Inr s) else Inr s)"

section \<open>The runtime and the calls to it\<close>

type_synonym task = nat \<comment> \<open>a handle; zero is the null pointer\<close>

datatype alpi_suspend_mode =
  ALPI_SUSPEND_NONE | ALPI_SUSPEND_SUBMIT | ALPI_SUSPEND_TIMEOUT_SUBMIT | ALPI_SUSPEND_EVENT_SUBMIT

datatype alpi_call =
    alpi_version_get
  | alpi_version_check int int
  | alpi_feature_check int
  | alpi_task_self
  | alpi_task_block task
  | alpi_task_unblock task
  | alpi_task_waitfor_ns u64
  | alpi_task_events_increase task u64
  | alpi_task_events_decrease task u64
  | alpi_task_spawn string
  | alpi_cpu_count
  | alpi_cpu_logical_id
  | alpi_cpu_system_id
  | alpi_task_suspend_mode_set task alpi_suspend_mode u64
  | alpi_task_suspend task

fun alpi_name :: "alpi_call \<Rightarrow> string" where
  "alpi_name alpi_version_get = ''alpi_version_get''"
| "alpi_name (alpi_version_check _ _) = ''alpi_version_check''"
| "alpi_name (alpi_feature_check _) = ''alpi_feature_check''"
| "alpi_name alpi_task_self = ''alpi_task_self''"
| "alpi_name (alpi_task_block _) = ''alpi_task_block''"
| "alpi_name (alpi_task_unblock _) = ''alpi_task_unblock''"
| "alpi_name (alpi_task_waitfor_ns _) = ''alpi_task_waitfor_ns''"
| "alpi_name (alpi_task_events_increase _ _) = ''alpi_task_events_increase''"
| "alpi_name (alpi_task_events_decrease _ _) = ''alpi_task_events_decrease''"
| "alpi_name (alpi_task_spawn _) = ''alpi_task_spawn''"
| "alpi_name alpi_cpu_count = ''alpi_cpu_count''"
| "alpi_name alpi_cpu_logical_id = ''alpi_cpu_logical_id''"
| "alpi_name alpi_cpu_system_id = ''alpi_cpu_system_id''"
| "alpi_name (alpi_task_suspend_mode_set _ _ _) = ''alpi_task_suspend_mode_set''"
| "alpi_name (alpi_task_suspend _) = ''alpi_task_suspend''"

type_synonym alpi_log = "alpi_call list"

record alpi =
  alpi_ret :: "alpi_log \<Rightarrow> alpi_call \<Rightarrow> int \<times> (nat \<Rightarrow> nat)"
  alpi_error_string :: "int \<Rightarrow> string"

abbreviation ALPI_SUCCESS :: int where "ALPI_SUCCESS \<equiv> 0"
abbreviation ALPI_ERR_VERSION :: int where "ALPI_ERR_VERSION \<equiv> 1"
abbreviation ALPI_VERSION_MAJOR :: int where "ALPI_VERSION_MAJOR \<equiv> 1"
abbreviation ALPI_FEATURE_SUSPEND :: int where "ALPI_FEATURE_SUSPEND \<equiv> 8"

text \<open>
  \<open>ALPISymbol\<close>: \<open>callNative\<close> performs the call, \<open>operator()\<close> and \<open>call\<close> end the process when it
  returns an error.
\<close>

definition callNative :: "alpi \<Rightarrow> alpi_log \<Rightarrow> alpi_call \<Rightarrow> (int \<times> (nat \<Rightarrow> nat)) \<times> alpi_log" where
  "callNative rt h c = (alpi_ret rt h c, h @ [c])"

definition processFailure :: "alpi \<Rightarrow> alpi_call \<Rightarrow> int \<Rightarrow> 'a result" where
  "processFailure rt c error =
     fail [Str ''Failed '', Str (alpi_name c), Str '': '', Str (alpi_error_string rt error)]"

definition alpi_checked :: "alpi \<Rightarrow> alpi_log \<Rightarrow> alpi_call \<Rightarrow> ((nat \<Rightarrow> nat) \<times> alpi_log) result" where
  "alpi_checked rt h c =
     (let ((err, out), h') = callNative rt h c in
      if err \<noteq> 0 then processFailure rt c err else Inr (out, h'))"

section \<open>TaskingModel\<close>

definition getCurrentTask :: "alpi \<Rightarrow> alpi_log \<Rightarrow> (task \<times> alpi_log) result" where
  "getCurrentTask rt h = rbind (alpi_checked rt h alpi_task_self) (\<lambda>(out, h). Inr (out 0, h))"

definition blockCurrentTask :: "alpi \<Rightarrow> alpi_log \<Rightarrow> task \<Rightarrow> alpi_log result" where
  "blockCurrentTask rt h t = rbind (alpi_checked rt h (alpi_task_block t)) (\<lambda>(_, h). Inr h)"

definition unblockTask :: "alpi \<Rightarrow> alpi_log \<Rightarrow> task \<Rightarrow> alpi_log result" where
  "unblockTask rt h t = rbind (alpi_checked rt h (alpi_task_unblock t)) (\<lambda>(_, h). Inr h)"

definition increaseCurrentTaskEvents :: "alpi \<Rightarrow> alpi_log \<Rightarrow> task \<Rightarrow> u64 \<Rightarrow> alpi_log result" where
  "increaseCurrentTaskEvents rt h t n =
     rbind (alpi_checked rt h (alpi_task_events_increase t n)) (\<lambda>(_, h). Inr h)"

definition decreaseTaskEvents :: "alpi \<Rightarrow> alpi_log \<Rightarrow> task \<Rightarrow> u64 \<Rightarrow> alpi_log result" where
  "decreaseTaskEvents rt h t n =
     rbind (alpi_checked rt h (alpi_task_events_decrease t n)) (\<lambda>(_, h). Inr h)"

definition getNumLogicalCPUs :: "alpi \<Rightarrow> alpi_log \<Rightarrow> (nat \<times> alpi_log) result" where
  "getNumLogicalCPUs rt h =
     rbind (alpi_checked rt h alpi_cpu_count) (\<lambda>(out, h). Inr (out 0, h))"

definition getCurrentLogicalCPU :: "alpi \<Rightarrow> alpi_log \<Rightarrow> (nat \<times> alpi_log) result" where
  "getCurrentLogicalCPU rt h =
     rbind (alpi_checked rt h alpi_cpu_logical_id) (\<lambda>(out, h). Inr (out 0, h))"

definition getCurrentSystemCPU :: "alpi \<Rightarrow> alpi_log \<Rightarrow> (nat \<times> alpi_log) result" where
  "getCurrentSystemCPU rt h =
     rbind (alpi_checked rt h alpi_cpu_system_id) (\<lambda>(out, h). Inr (out 0, h))"

definition suspendCurrentWithTimeout :: "alpi \<Rightarrow> alpi_log \<Rightarrow> u64 \<Rightarrow> alpi_log result" where
  "suspendCurrentWithTimeout rt h timeout_ns =
     rbind (getCurrentTask rt h) (\<lambda>(t, h).
     rbind (if timeout_ns = 0
            then alpi_checked rt h (alpi_task_suspend_mode_set t ALPI_SUSPEND_SUBMIT 0)
            else alpi_checked rt h
                   (alpi_task_suspend_mode_set t ALPI_SUSPEND_TIMEOUT_SUBMIT timeout_ns)) (\<lambda>(_, h).
     rbind (alpi_checked rt h (alpi_task_suspend t)) (\<lambda>(_, h). Inr h)))"

subsection \<open>Initialization\<close>

text \<open>The symbols \<open>initialize\<close> loads, in its order, with whether each is mandatory.\<close>

definition alpi_symbols :: "bool \<Rightarrow> bool \<Rightarrow> (string \<times> bool) list" where
  "alpi_symbols requireTaskBlockingAPI requireTaskEventsAPI =
     [(''alpi_error_string'', True), (''alpi_info_get'', False), (''alpi_feature_check'', False),
      (''alpi_version_check'', True), (''alpi_version_get'', True), (''alpi_task_self'', True)] @
     (if requireTaskBlockingAPI
      then [(''alpi_task_block'', True), (''alpi_task_unblock'', True)] else []) @
     [(''alpi_task_waitfor_ns'', True)] @
     (if requireTaskEventsAPI
      then [(''alpi_task_events_increase'', True), (''alpi_task_events_test'', False),
            (''alpi_task_events_decrease'', True)] else []) @
     [(''alpi_task_spawn'', True), (''alpi_cpu_count'', True), (''alpi_cpu_logical_id'', True),
      (''alpi_cpu_system_id'', True), (''alpi_task_suspend'', False),
      (''alpi_task_suspend_mode_set'', False)]"

fun load_symbols :: "dlsym \<Rightarrow> (string \<Rightarrow> symbol) \<Rightarrow> (string \<times> bool) list \<Rightarrow> (string \<Rightarrow> symbol) result" where
  "load_symbols dlsym syms [] = Inr syms"
| "load_symbols dlsym syms ((name, mandatory) # rest) =
     rbind (Symbol_load dlsym (syms name) First mandatory) (\<lambda>(_, s).
       load_symbols dlsym (syms(name := s)) rest)"

datatype polling_function = genericPolling_fn | suspendPolling_fn

record tasking_state =
  tms_symbols :: "string \<Rightarrow> symbol"
  tms_pollingFunction :: "polling_function option"

definition initialSymbols :: "string \<Rightarrow> symbol" where
  "initialSymbols name = \<lparr>sym_name = name, sym_symbol = None\<rparr>"

definition choosePolling :: "bool \<Rightarrow> string \<Rightarrow> (polling_function \<times> warnings) result" where
  "choosePolling useSuspendPolling pollingMode =
     rbind (if pollingMode = ''suspend'' then
              rbind (failIf (\<not> useSuspendPolling)
                [Str (''Use of suspend polling API was forced, but the '' @
                      ''ALPI implementor does not support it'')]) (\<lambda>_. Inr (useSuspendPolling, []))
            else if pollingMode = ''blocking'' then
              Inr (False, warnIf useSuspendPolling
                [Str ''Using blocking polling mode instead of suspend''])
            else if pollingMode = ''auto'' then
              Inr (useSuspendPolling, warnIf (\<not> useSuspendPolling)
                [Str (''ALPI suspend not supported by tasking model, '' @
                      ''Using blocking polling implementation'')])
            else fail [Str ''Unknown polling mode requested: '', Str pollingMode,
                       Str (nl @ tab @ ''Expected one of: suspend, blocking or auto.'' @ nl)]) (\<lambda>(use, w).
     Inr (if use then suspendPolling_fn else genericPolling_fn, w))"

definition TaskingModel_initialize ::
    "dlsym \<Rightarrow> alpi \<Rightarrow> string \<Rightarrow> tasking_state \<Rightarrow> alpi_log \<Rightarrow> bool \<Rightarrow> bool \<Rightarrow>
     (tasking_state \<times> alpi_log \<times> warnings) result" where
  "TaskingModel_initialize dlsym rt pollingMode st h requireTaskBlockingAPI requireTaskEventsAPI =
     (if \<not> requireTaskBlockingAPI \<and> \<not> requireTaskEventsAPI then Inr (st, h, [])
      else
        rbind (load_symbols dlsym (tms_symbols st)
                 (alpi_symbols requireTaskBlockingAPI requireTaskEventsAPI)) (\<lambda>syms.
        rbind (alpi_checked rt h alpi_version_get) (\<lambda>(provided, h).
        let major = provided 0; minor = provided 1;
            ((err, _), h) = callNative rt h (alpi_version_check ALPI_VERSION_MAJOR 0)
        in
        if err = ALPI_ERR_VERSION then
          fail [Str (''Incompatible ALPI tasking interface versions:'' @ nl),
                Str (tab @ ''Expected: ''), Num ALPI_VERSION_MAJOR, Str ''.'', Num 0, Str nl,
                Str (tab @ ''Provided: ''), Num (int major), Str ''.'', Num (int minor)]
        else if err \<noteq> 0 then processFailure rt (alpi_version_check ALPI_VERSION_MAJOR 0) err
        else
          let featureCheckAvailable = (major > 1 \<or> (major = 1 \<and> minor \<ge> 2)) in
          rbind (if featureCheckAvailable then
                   rbind (rassert (hasSymbol (syms ''alpi_feature_check'')) ''_symbol != nullptr'') (\<lambda>_.
                   let ((err, _), h) = callNative rt h (alpi_feature_check ALPI_FEATURE_SUSPEND) in
                   Inr (err = ALPI_SUCCESS, h))
                 else Inr (False, h)) (\<lambda>(useSuspendPolling, h).
          rbind (choosePolling useSuspendPolling pollingMode) (\<lambda>(f, w).
          Inr (\<lparr>tms_symbols = syms, tms_pollingFunction = Some f\<rparr>, h, w))))))"

subsection \<open>Polling tasks\<close>

record polling_instance =
  pi_name :: string
  pi_mustFinish :: bool
  pi_finished :: bool

definition registerPolling :: "alpi \<Rightarrow> alpi_log \<Rightarrow> string \<Rightarrow> (polling_instance \<times> alpi_log) result" where
  "registerPolling rt h name =
     rbind (alpi_checked rt h (alpi_task_spawn name)) (\<lambda>(_, h).
     Inr (\<lparr>pi_name = name, pi_mustFinish = False, pi_finished = False\<rparr>, h))"

text \<open>
  Both flags of an instance are atomics that another thread writes. \<open>mustFinish k\<close> and
  \<open>finished k\<close> are what the \<open>k\<close>-th read of the flag sees. The polling function itself is \<open>f\<close>: it
  transforms the state \<open>'s\<close> of the library and returns the next period in microseconds.
\<close>

partial_function (option) genericPolling ::
    "alpi \<Rightarrow> ('s \<Rightarrow> alpi_log \<Rightarrow> (u64 \<times> 's \<times> alpi_log) run) \<Rightarrow> (nat \<Rightarrow> bool) \<Rightarrow> nat \<Rightarrow> 's \<Rightarrow> alpi_log \<Rightarrow>
     ('s \<times> alpi_log) run" where
  "genericPolling rt f mustFinish k s h =
     (if mustFinish k then ret (s, h)
      else run_bind (f s h) (\<lambda>(target, s, h).
           run_bind (Some (alpi_checked rt h (alpi_task_waitfor_ns (target * 1000)))) (\<lambda>(_, h).
           genericPolling rt f mustFinish (k + 1) s h)))"

definition suspendPolling ::
    "alpi \<Rightarrow> ('s \<Rightarrow> alpi_log \<Rightarrow> (u64 \<times> 's \<times> alpi_log) run) \<Rightarrow> bool \<Rightarrow> 's \<Rightarrow> alpi_log \<Rightarrow>
     ('s \<times> alpi_log) run" where
  "suspendPolling rt f mustFinish s h =
     (if mustFinish then ret (s, h)
      else run_bind (f s h) (\<lambda>(target, s, h).
           run_bind (Some (suspendCurrentWithTimeout rt h (target * 1000))) (\<lambda>h. ret (s, h))))"

definition genericCompleted :: "polling_instance \<Rightarrow> polling_instance" where
  "genericCompleted i = i\<lparr>pi_finished := True\<rparr>"

partial_function (option) wait_finished ::
    "alpi \<Rightarrow> (nat \<Rightarrow> bool) \<Rightarrow> nat \<Rightarrow> alpi_log \<Rightarrow> alpi_log run" where
  "wait_finished rt finished k h =
     (if finished k then ret h
      else run_bind (Some (alpi_checked rt h (alpi_task_waitfor_ns 1000000))) (\<lambda>(_, h).
           wait_finished rt finished (k + 1) h))"

definition unregisterPolling ::
    "alpi \<Rightarrow> (nat \<Rightarrow> bool) \<Rightarrow> polling_instance \<Rightarrow> alpi_log \<Rightarrow> (polling_instance \<times> alpi_log) run" where
  "unregisterPolling rt finished i h =
     (let i = i\<lparr>pi_mustFinish := True\<rparr> in
      run_bind (wait_finished rt finished 0 h) (\<lambda>h. ret (i, h)))"

end
