(* ===== verification/Mpi_Interface.thy ===== *)
theory Mpi_Interface
  imports Tasking_Model
begin

text \<open>
  \<open>Interface\<close> (src/src/common/Interface.hpp) and the names of src/src/common/Declarations.hpp: the
  access to the MPI library.

  The MPI library is not part of the sources. It is a parameter of type \<open>'m mpi\<close>: for each function
  the library calls, what it returns and what it leaves in its output parameters, as a function of
  the state \<open>'m\<close> of the MPI library. A request is a handle. The index that \<open>MPI_Testany\<close> reports and
  the list that \<open>MPI_Testsome\<close> reports are \<open>None\<close> when MPI reports \<open>MPI_UNDEFINED\<close>. A status is
  returned as the value left in its location; the code reads it only when the call reported the
  completion of the request.
\<close>

section \<open>Types and calls\<close>

type_synonym request = nat
type_synonym ptr = nat \<comment> \<open>an address of the application; zero is the null pointer\<close>
type_synonym mpi_datatype = nat
type_synonym mpi_op = nat
type_synonym mpi_comm = nat

record mpi_status =
  MPI_SOURCE :: int
  MPI_TAG :: int
  MPI_ERROR :: int

datatype (plugins only: code) icall =
    MPI_Ibsend ptr int mpi_datatype int int mpi_comm
  | MPI_Irecv ptr int mpi_datatype int int mpi_comm
  | MPI_Irsend ptr int mpi_datatype int int mpi_comm
  | MPI_Isend ptr int mpi_datatype int int mpi_comm
  | MPI_Issend ptr int mpi_datatype int int mpi_comm
  | MPI_Iallgather ptr int mpi_datatype ptr int mpi_datatype mpi_comm
  | MPI_Iallgatherv ptr int mpi_datatype ptr ptr ptr mpi_datatype mpi_comm
  | MPI_Iallreduce ptr ptr int mpi_datatype mpi_op mpi_comm
  | MPI_Ialltoall ptr int mpi_datatype ptr int mpi_datatype mpi_comm
  | MPI_Ialltoallv ptr ptr ptr mpi_datatype ptr ptr ptr mpi_datatype mpi_comm
  | MPI_Ialltoallw ptr ptr ptr ptr ptr ptr ptr ptr mpi_comm
  | MPI_Ibarrier mpi_comm
  | MPI_Ibcast ptr int mpi_datatype int mpi_comm
  | MPI_Iexscan ptr ptr int mpi_datatype mpi_op mpi_comm
  | MPI_Igather ptr int mpi_datatype ptr int mpi_datatype int mpi_comm
  | MPI_Igatherv ptr int mpi_datatype ptr ptr ptr mpi_datatype int mpi_comm
  | MPI_Ireduce ptr ptr int mpi_datatype mpi_op int mpi_comm
  | MPI_Ireduce_scatter ptr ptr ptr mpi_datatype mpi_op mpi_comm
  | MPI_Ireduce_scatter_block ptr ptr int mpi_datatype mpi_op mpi_comm
  | MPI_Iscan ptr ptr int mpi_datatype mpi_op mpi_comm
  | MPI_Iscatter ptr int mpi_datatype ptr int mpi_datatype int mpi_comm
  | MPI_Iscatterv ptr ptr ptr mpi_datatype ptr int mpi_datatype int mpi_comm

record 'm mpi =
  MPI_REQUEST_NULL :: request
  MPI_STATUS_IGNORE :: ptr
  MPI_DATATYPE_NULL :: mpi_datatype
  MPI_OP_NULL :: mpi_op
  MPI_Test :: "request \<Rightarrow> 'm \<Rightarrow> (int \<times> request \<times> bool \<times> mpi_status) \<times> 'm"
  MPI_Testall :: "request list \<Rightarrow> 'm \<Rightarrow> (int \<times> request list \<times> bool \<times> mpi_status list) \<times> 'm"
  MPI_Testany :: "request list \<Rightarrow> 'm \<Rightarrow> (int \<times> request list \<times> nat option \<times> bool \<times> mpi_status) \<times> 'm"
  MPI_Testsome :: "request list \<Rightarrow> 'm \<Rightarrow> (int \<times> request list \<times> (nat \<times> mpi_status) list option) \<times> 'm"
  MPI_I :: "icall \<Rightarrow> 'm \<Rightarrow> (int \<times> request) \<times> 'm"

abbreviation MPI_SUCCESS :: int where "MPI_SUCCESS \<equiv> 0"

section \<open>Symbols\<close>

definition mpi_symbol_names :: "string list" where
  "mpi_symbol_names =
     [''MPI_Test'', ''MPI_Testall'', ''MPI_Testany'', ''MPI_Testsome'', ''MPI_Comm_rank'',
      ''MPI_Comm_size'', ''MPI_Ibsend'', ''MPI_Irecv'', ''MPI_Irsend'', ''MPI_Isend'',
      ''MPI_Issend'', ''MPI_Iallgather'', ''MPI_Iallgatherv'', ''MPI_Iallreduce'',
      ''MPI_Ialltoall'', ''MPI_Ialltoallv'', ''MPI_Ialltoallw'', ''MPI_Ibarrier'', ''MPI_Ibcast'',
      ''MPI_Igather'', ''MPI_Igatherv'', ''MPI_Ireduce'', ''MPI_Ireduce_scatter'',
      ''MPI_Ireduce_scatter_block'', ''MPI_Iscatter'', ''MPI_Iscatterv'', ''MPI_Iscan'',
      ''MPI_Iexscan'']"

fun load_next :: "dlsym \<Rightarrow> (string \<Rightarrow> symbol) \<Rightarrow> string list \<Rightarrow> (string \<Rightarrow> symbol) result" where
  "load_next dlsym syms [] = Inr syms"
| "load_next dlsym syms (name # rest) =
     rbind (Symbol_load dlsym (syms name) Next True) (\<lambda>(_, s).
       load_next dlsym (syms(name := s)) rest)"

definition loadSymbols :: "dlsym \<Rightarrow> (string \<Rightarrow> symbol) \<Rightarrow> (string \<Rightarrow> symbol) result" where
  "loadSymbols dlsym syms = load_next dlsym syms mpi_symbol_names"

section \<open>Tests of requests\<close>

definition interface_test ::
    "'m mpi \<Rightarrow> request \<Rightarrow> 'm \<Rightarrow> (bool \<times> request \<times> mpi_status \<times> 'm) result" where
  "interface_test mpi req m =
     (let ((err, req', completed, st), m') = MPI_Test mpi req m in
      if err \<noteq> MPI_SUCCESS then fail [Str ''Unexpected return code from MPI_Test'']
      else Inr (completed, req', st, m'))"

definition interface_testall ::
    "'m mpi \<Rightarrow> request list \<Rightarrow> 'm \<Rightarrow> (bool \<times> request list \<times> mpi_status list \<times> 'm) result" where
  "interface_testall mpi reqs m =
     (let ((err, reqs', completed, sts), m') = MPI_Testall mpi reqs m in
      if err \<noteq> MPI_SUCCESS then fail [Str ''Unexpected return code from MPI_Testall'']
      else Inr (completed, reqs', sts, m'))"

text \<open>The result of \<open>testany\<close> is the index when it returns \<open>true\<close>, and \<open>None\<close> when it returns \<open>false\<close>.\<close>

definition interface_testany ::
    "'m mpi \<Rightarrow> request list \<Rightarrow> 'm \<Rightarrow> (nat option \<times> request list \<times> mpi_status \<times> 'm) result" where
  "interface_testany mpi reqs m =
     (let ((err, reqs', index, completed, st), m') = MPI_Testany mpi reqs m in
      if err \<noteq> MPI_SUCCESS then fail [Str ''Unexpected return code from MPI_Testany'']
      else if completed \<and> index = None then fail [Str ''Unexpected output from MPI_Testany'']
      else Inr (if completed then index else None, reqs', st, m'))"

definition interface_testsome ::
    "'m mpi \<Rightarrow> request list \<Rightarrow> 'm \<Rightarrow> ((nat \<times> mpi_status) list \<times> request list \<times> 'm) result" where
  "interface_testsome mpi reqs m =
     (let ((err, reqs', out), m') = MPI_Testsome mpi reqs m in
      if err \<noteq> MPI_SUCCESS then fail [Str ''Unexpected return code from MPI_Testsome'']
      else case out of
        None \<Rightarrow> fail [Str ''Unexpected output from MPI_Testsome'']
      | Some completions \<Rightarrow> Inr (completions, reqs', m'))"

section \<open>What the code relies on\<close>

text \<open>
  The documented behaviour of the test functions on active requests: no error (the default error
  handler of MPI aborts), an index of the array for every reported completion, and no change to the
  handles of the requests that are not reported. \<open>MPI_Testsome\<close> reports every request once; that it
  reports them in ascending order is not in the standard but is what the code relies on when it
  compacts its arrays.
\<close>

definition unchanged_except :: "nat set \<Rightarrow> request list \<Rightarrow> request list \<Rightarrow> bool" where
  "unchanged_except S reqs reqs' \<longleftrightarrow>
     length reqs' = length reqs \<and> (\<forall>i < length reqs. i \<notin> S \<longrightarrow> reqs' ! i = reqs ! i)"

definition mpi_test_ok :: "'m mpi \<Rightarrow> bool" where
  "mpi_test_ok mpi \<longleftrightarrow>
     (\<forall>req m. req \<noteq> MPI_REQUEST_NULL mpi \<longrightarrow>
        (case MPI_Test mpi req m of ((err, req', completed, st), m') \<Rightarrow>
           err = 0 \<and> (\<not> completed \<longrightarrow> req' = req)))"

definition mpi_testany_ok :: "'m mpi \<Rightarrow> bool" where
  "mpi_testany_ok mpi \<longleftrightarrow>
     (\<forall>reqs m. reqs \<noteq> [] \<and> MPI_REQUEST_NULL mpi \<notin> set reqs \<longrightarrow>
        (case MPI_Testany mpi reqs m of ((err, reqs', index, completed, st), m') \<Rightarrow>
           err = 0 \<and>
           (if completed then \<exists>i < length reqs. index = Some i \<and> unchanged_except {i} reqs reqs'
            else reqs' = reqs)))"

definition mpi_testsome_ok :: "'m mpi \<Rightarrow> bool" where
  "mpi_testsome_ok mpi \<longleftrightarrow>
     (\<forall>reqs m. reqs \<noteq> [] \<and> MPI_REQUEST_NULL mpi \<notin> set reqs \<longrightarrow>
        (case MPI_Testsome mpi reqs m of ((err, reqs', out), m') \<Rightarrow>
           err = 0 \<and> (\<exists>cs. out = Some cs \<and> sorted_wrt (<) (map fst cs) \<and>
             (\<forall>i \<in> set (map fst cs). i < length reqs) \<and>
             unchanged_except (set (map fst cs)) reqs reqs')))"

lemma unchanged_except_refl [simp]: "unchanged_except S reqs reqs"
  by (simp add: unchanged_except_def)

lemma unchanged_except_mono:
  "unchanged_except S reqs reqs' \<Longrightarrow> S \<subseteq> T \<Longrightarrow> unchanged_except T reqs reqs'"
  by (auto simp: unchanged_except_def)

lemma unchanged_except_trans:
  "unchanged_except S a b \<Longrightarrow> unchanged_except T b c \<Longrightarrow> unchanged_except (S \<union> T) a c"
  by (auto simp: unchanged_except_def)

lemma unchanged_except_length: "unchanged_except S reqs reqs' \<Longrightarrow> length reqs' = length reqs"
  by (simp add: unchanged_except_def)

lemma unchanged_except_nth:
  "unchanged_except S reqs reqs' \<Longrightarrow> i < length reqs \<Longrightarrow> i \<notin> S \<Longrightarrow> reqs' ! i = reqs ! i"
  by (simp add: unchanged_except_def)

end
