(* ===== verification/Task_Context.thy ===== *)
theory Task_Context
  imports Tasking_Model
begin

text \<open>
  \<open>TaskContext\<close> (src/src/common/TaskContext.hpp): the task that issued an operation and the way it
  waits for it. A task in blocking mode is paused and later unblocked; otherwise an external event
  is bound to it when it issues the operation and taken away when the operation completes.
\<close>

record TaskContext =
  tc_blocking :: bool
  tc_taskHandle :: task

definition TaskContext_empty :: TaskContext where
  "TaskContext_empty = \<lparr>tc_blocking = False, tc_taskHandle = 0\<rparr>"

definition TaskContext_current :: "alpi \<Rightarrow> alpi_log \<Rightarrow> bool \<Rightarrow> (TaskContext \<times> alpi_log) result" where
  "TaskContext_current rt h blocking =
     rbind (getCurrentTask rt h) (\<lambda>(t, h).
     rbind (rassert (t \<noteq> 0) ''_taskHandle != nullptr'') (\<lambda>_.
     Inr (\<lparr>tc_blocking = blocking, tc_taskHandle = t\<rparr>, h)))"

definition TaskContext_of :: "bool \<Rightarrow> task \<Rightarrow> TaskContext result" where
  "TaskContext_of blocking taskHandle =
     rbind (rassert (taskHandle \<noteq> 0) ''taskHandle != nullptr'') (\<lambda>_.
     Inr \<lparr>tc_blocking = blocking, tc_taskHandle = taskHandle\<rparr>)"

definition bindEvents :: "alpi \<Rightarrow> alpi_log \<Rightarrow> TaskContext \<Rightarrow> int \<Rightarrow> alpi_log result" where
  "bindEvents rt h tc num =
     rbind (rassert (num > 0) ''num > 0'') (\<lambda>_.
     if \<not> tc_blocking tc then increaseCurrentTaskEvents rt h (tc_taskHandle tc) (of_int num)
     else Inr h)"

definition completeEvents :: "alpi \<Rightarrow> alpi_log \<Rightarrow> TaskContext \<Rightarrow> int \<Rightarrow> bool \<Rightarrow> alpi_log result" where
  "completeEvents rt h tc num allCompleted =
     rbind (rassert (num > 0) ''num > 0'') (\<lambda>_.
     if \<not> tc_blocking tc then decreaseTaskEvents rt h (tc_taskHandle tc) (of_int num)
     else if allCompleted then unblockTask rt h (tc_taskHandle tc)
     else Inr h)"

definition waitEventsCompletion :: "alpi \<Rightarrow> alpi_log \<Rightarrow> TaskContext \<Rightarrow> alpi_log result" where
  "waitEventsCompletion rt h tc =
     rbind (rassert (tc_blocking tc) ''_blocking'') (\<lambda>_. blockCurrentTask rt h (tc_taskHandle tc))"

section \<open>What a completion tells the runtime\<close>

text \<open>
  A runtime that reports no error. The library ends the process at the first error code, so this is
  the assumption under which its operations return.
\<close>

definition rt_ok :: "alpi \<Rightarrow> bool" where
  "rt_ok rt \<longleftrightarrow> (\<forall>h c. fst (alpi_ret rt h c) = 0)"

text \<open>The single call by which the completion of one operation reaches the task.\<close>

definition completion_call :: "TaskContext \<Rightarrow> alpi_call" where
  "completion_call tc =
     (if tc_blocking tc then alpi_task_unblock (tc_taskHandle tc)
      else alpi_task_events_decrease (tc_taskHandle tc) 1)"

lemma alpi_checked_ok: "rt_ok rt \<Longrightarrow> alpi_checked rt h c = Inr (snd (alpi_ret rt h c), h @ [c])"
  by (auto simp: alpi_checked_def callNative_def rt_ok_def split: prod.splits)
     (metis fst_conv)

lemma alpi_checked_calls:
  "alpi_checked rt h c = Inr (out, h') \<Longrightarrow> h' = h @ [c]"
  by (auto simp: alpi_checked_def callNative_def processFailure_def split: prod.splits if_splits)

lemma completeEvents_ok:
  "rt_ok rt \<Longrightarrow> completeEvents rt h tc 1 True = Inr (h @ [completion_call tc])"
  by (simp add: completeEvents_def completion_call_def decreaseTaskEvents_def unblockTask_def
      alpi_checked_ok)

lemma bindEvents_ok:
  "rt_ok rt \<Longrightarrow> bindEvents rt h tc 1 =
     Inr (if tc_blocking tc then h else h @ [alpi_task_events_increase (tc_taskHandle tc) 1])"
  by (simp add: bindEvents_def increaseCurrentTaskEvents_def alpi_checked_ok)

text \<open>A runtime that returns no error and leaves \<open>v\<close> in every output parameter.\<close>

definition const_rt :: "nat \<Rightarrow> alpi" where
  "const_rt v = \<lparr>alpi_ret = (\<lambda>_ _. (0, \<lambda>_. v)), alpi_error_string = (\<lambda>_. ''No error'')\<rparr>"

lemma const_rt_ok [simp]: "rt_ok (const_rt v)"
  by (simp add: rt_ok_def const_rt_def)

lemma const_rt_ret [simp]: "alpi_ret (const_rt v) h c = (0, \<lambda>_. v)"
  by (simp add: const_rt_def)

end
