(* ===== verification/Operation.thy ===== *)
theory Operation
  imports Mpi_Interface Task_Context
begin

text \<open>
  The operations that tasks delegate to the polling task (src/src/common/Operation.hpp and .cpp):
  the two record types with their constructors, and \<open>issue\<close>, which starts the non-blocking MPI
  operation that corresponds to the code of the operation.

  The unions of \<open>CollOperation\<close> are datatypes whose constructor says which member was written; a
  member that a constructor of the source leaves uninitialised is \<open>None\<close>. Reading a member that was
  not written is the error \<open>OutOfBounds\<close>.
\<close>

datatype (plugins only: code) OpCode =
    OP_NONE | BSEND | RECV | RSEND | SEND | SSEND
  | ALLGATHER | ALLGATHERV | ALLREDUCE | ALLTOALL | ALLTOALLV | ALLTOALLW | BARRIER | BCAST
  | EXSCAN | GATHER | GATHERV | REDUCE | REDUCESCATTER | REDUCESCATTERBLOCK | SCAN | SCATTER
  | SCATTERV

datatype OpNature = BLK | NONBLK

text \<open>The value of the enumerator; it is a \<open>char\<close>, so the messages print the character.\<close>

definition opcode_value :: "OpCode \<Rightarrow> nat" where
  "opcode_value c = (case c of
     OP_NONE \<Rightarrow> 0 | BSEND \<Rightarrow> 1 | RECV \<Rightarrow> 2 | RSEND \<Rightarrow> 3 | SEND \<Rightarrow> 4 | SSEND \<Rightarrow> 5
   | ALLGATHER \<Rightarrow> 6 | ALLGATHERV \<Rightarrow> 7 | ALLREDUCE \<Rightarrow> 8 | ALLTOALL \<Rightarrow> 9 | ALLTOALLV \<Rightarrow> 10
   | ALLTOALLW \<Rightarrow> 11 | BARRIER \<Rightarrow> 12 | BCAST \<Rightarrow> 13 | EXSCAN \<Rightarrow> 14 | GATHER \<Rightarrow> 15 | GATHERV \<Rightarrow> 16
   | REDUCE \<Rightarrow> 17 | REDUCESCATTER \<Rightarrow> 18 | REDUCESCATTERBLOCK \<Rightarrow> 19 | SCAN \<Rightarrow> 20 | SCATTER \<Rightarrow> 21
   | SCATTERV \<Rightarrow> 22)"

definition opcode_reason :: "OpCode \<Rightarrow> reason" where
  "opcode_reason c = Str [char_of (opcode_value c)]"

section \<open>Point-to-point operations\<close>

record Operation =
  op_task :: task
  op_status :: ptr
  op_buffer :: ptr
  op_count :: int
  op_datatype :: mpi_datatype
  op_comm :: mpi_comm
  op_rank :: int
  op_tag :: int
  op_code :: OpCode
  op_nature :: OpNature

definition Operation_new ::
    "task \<Rightarrow> OpCode \<Rightarrow> OpNature \<Rightarrow> ptr \<Rightarrow> int \<Rightarrow> mpi_datatype \<Rightarrow> int \<Rightarrow> int \<Rightarrow> mpi_comm \<Rightarrow> ptr \<Rightarrow> Operation" where
  "Operation_new task code nature buffer cnt dtype rank tag comm status =
     \<lparr> op_task = task, op_status = status, op_buffer = buffer, op_count = cnt,
       op_datatype = dtype, op_comm = comm, op_rank = rank, op_tag = tag,
       op_code = code, op_nature = nature \<rparr>"

text \<open>The call that an operation stands for, and the function \<open>issue\<close> around it.\<close>

definition op_call :: "Operation \<Rightarrow> icall result" where
  "op_call opn =
     (let f = (\<lambda>c. c (op_buffer opn) (op_count opn) (op_datatype opn) (op_rank opn) (op_tag opn) (op_comm opn))
      in case op_code opn of
           SEND \<Rightarrow> Inr (f MPI_Isend)
         | BSEND \<Rightarrow> Inr (f MPI_Ibsend)
         | RSEND \<Rightarrow> Inr (f MPI_Irsend)
         | SSEND \<Rightarrow> Inr (f MPI_Issend)
         | RECV \<Rightarrow> Inr (f MPI_Irecv)
         | _ \<Rightarrow> fail [Str ''Invalid operation '', opcode_reason (op_code opn)])"

definition Operation_issue :: "'m mpi \<Rightarrow> Operation \<Rightarrow> 'm \<Rightarrow> (request \<times> 'm) result" where
  "Operation_issue mpi opn m =
     rbind (op_call opn) (\<lambda>c.
     let ((err, req), m') = MPI_I mpi c m in
     if err \<noteq> MPI_SUCCESS
     then fail [Str ''Operation with code '', opcode_reason (op_code opn), Str '' failed'']
     else Inr (req, m'))"

section \<open>Collective operations\<close>

datatype count_union = Count int | Counts ptr
datatype type_union = Type mpi_datatype | Types ptr

record CollOperation =
  co_task :: task
  co_sendbuf :: ptr
  co_recvbuf :: ptr
  co_senddispls :: "ptr option"
  co_recvdispls :: "ptr option"
  co_sendcount :: count_union
  co_recvcount :: count_union
  co_sendtype :: type_union
  co_recvtype :: type_union
  co_comm :: mpi_comm
  co_rank :: int
  co_op :: mpi_op
  co_code :: OpCode
  co_nature :: OpNature

text \<open>
  The five constructors of the source differ in which counts, displacements and types are single
  values and which are arrays; they all copy their arguments.
\<close>

definition coll_make ::
    "ptr \<Rightarrow> ptr option \<Rightarrow> count_union \<Rightarrow> type_union \<Rightarrow> ptr \<Rightarrow> ptr option \<Rightarrow> count_union \<Rightarrow> type_union \<Rightarrow>
     mpi_op \<Rightarrow> int \<Rightarrow> mpi_comm \<Rightarrow> task \<Rightarrow> OpCode \<Rightarrow> OpNature \<Rightarrow> CollOperation" where
  "coll_make sendbuf senddispls sendcount sendtype recvbuf recvdispls recvcount recvtype oper rank
       comm task code nature =
     \<lparr> co_task = task, co_sendbuf = sendbuf, co_recvbuf = recvbuf, co_senddispls = senddispls,
       co_recvdispls = recvdispls, co_sendcount = sendcount, co_recvcount = recvcount,
       co_sendtype = sendtype, co_recvtype = recvtype, co_comm = comm, co_rank = rank,
       co_op = oper, co_code = code, co_nature = nature \<rparr>"

definition CollOperation_cc where \<comment> \<open>single counts on both sides\<close>
  "CollOperation_cc task code nature comm sendbuf sendcount sendtype recvbuf recvcount recvtype oper rank =
     coll_make sendbuf None (Count sendcount) (Type sendtype) recvbuf None (Count recvcount)
       (Type recvtype) oper rank comm task code nature"

definition CollOperation_vc where \<comment> \<open>arrays on the sending side\<close>
  "CollOperation_vc task code nature comm sendbuf sendcounts senddispls sendtype recvbuf recvcount recvtype oper rank =
     coll_make sendbuf (Some senddispls) (Counts sendcounts) (Type sendtype) recvbuf None
       (Count recvcount) (Type recvtype) oper rank comm task code nature"

definition CollOperation_cv where \<comment> \<open>arrays on the receiving side\<close>
  "CollOperation_cv task code nature comm sendbuf sendcount sendtype recvbuf recvcounts recvdispls recvtype oper rank =
     coll_make sendbuf None (Count sendcount) (Type sendtype) recvbuf (Some recvdispls)
       (Counts recvcounts) (Type recvtype) oper rank comm task code nature"

definition CollOperation_vv where \<comment> \<open>arrays on both sides\<close>
  "CollOperation_vv task code nature comm sendbuf sendcounts senddispls sendtype recvbuf recvcounts recvdispls recvtype oper rank =
     coll_make sendbuf (Some senddispls) (Counts sendcounts) (Type sendtype) recvbuf
       (Some recvdispls) (Counts recvcounts) (Type recvtype) oper rank comm task code nature"

definition CollOperation_ww where \<comment> \<open>arrays of types as well\<close>
  "CollOperation_ww task code nature comm sendbuf sendcounts senddispls sendtypes recvbuf recvcounts recvdispls recvtypes oper rank =
     coll_make sendbuf (Some senddispls) (Counts sendcounts) (Types sendtypes) recvbuf
       (Some recvdispls) (Counts recvcounts) (Types recvtypes) oper rank comm task code nature"

lemmas CollOperation_new_defs =
  CollOperation_cc_def CollOperation_vc_def CollOperation_cv_def CollOperation_vv_def
  CollOperation_ww_def coll_make_def

text \<open>Reads of the members of a union.\<close>

fun rd_count :: "count_union \<Rightarrow> int result" where
  "rd_count (Count n) = Inr n"
| "rd_count (Counts _) = Inl (OutOfBounds ''_sendcount or _recvcount'')"

fun rd_counts :: "count_union \<Rightarrow> ptr result" where
  "rd_counts (Counts p) = Inr p"
| "rd_counts (Count _) = Inl (OutOfBounds ''_sendcounts or _recvcounts'')"

fun rd_type :: "type_union \<Rightarrow> mpi_datatype result" where
  "rd_type (Type t) = Inr t"
| "rd_type (Types _) = Inl (OutOfBounds ''_sendtype or _recvtype'')"

fun rd_types :: "type_union \<Rightarrow> ptr result" where
  "rd_types (Types p) = Inr p"
| "rd_types (Type _) = Inl (OutOfBounds ''_sendtypes or _recvtypes'')"

fun rd_displs :: "ptr option \<Rightarrow> ptr result" where
  "rd_displs (Some p) = Inr p"
| "rd_displs None = Inl (OutOfBounds ''_senddispls or _recvdispls'')"

definition coll_call :: "CollOperation \<Rightarrow> icall result" where
  "coll_call opn =
     (let sb = co_sendbuf opn; rb = co_recvbuf opn; comm = co_comm opn; rk = co_rank opn; opr = co_op opn;
          sc = rd_count (co_sendcount opn); scs = rd_counts (co_sendcount opn);
          rc = rd_count (co_recvcount opn); rcs = rd_counts (co_recvcount opn);
          st = rd_type (co_sendtype opn); sts = rd_types (co_sendtype opn);
          rt = rd_type (co_recvtype opn); rts = rd_types (co_recvtype opn);
          sd = rd_displs (co_senddispls opn); rd = rd_displs (co_recvdispls opn)
      in case co_code opn of
        ALLGATHER \<Rightarrow> rbind sc (\<lambda>sc. rbind st (\<lambda>st. rbind rc (\<lambda>rc. rbind rt (\<lambda>rt.
          Inr (MPI_Iallgather sb sc st rb rc rt comm)))))
      | ALLGATHERV \<Rightarrow> rbind sc (\<lambda>sc. rbind st (\<lambda>st. rbind rcs (\<lambda>rcs. rbind rd (\<lambda>rd. rbind rt (\<lambda>rt.
          Inr (MPI_Iallgatherv sb sc st rb rcs rd rt comm))))))
      | ALLREDUCE \<Rightarrow> rbind sc (\<lambda>sc. rbind st (\<lambda>st. Inr (MPI_Iallreduce sb rb sc st opr comm)))
      | ALLTOALL \<Rightarrow> rbind sc (\<lambda>sc. rbind st (\<lambda>st. rbind rc (\<lambda>rc. rbind rt (\<lambda>rt.
          Inr (MPI_Ialltoall sb sc st rb rc rt comm)))))
      | ALLTOALLV \<Rightarrow> rbind scs (\<lambda>scs. rbind sd (\<lambda>sd. rbind st (\<lambda>st. rbind rcs (\<lambda>rcs. rbind rd (\<lambda>rd. rbind rt (\<lambda>rt.
          Inr (MPI_Ialltoallv sb scs sd st rb rcs rd rt comm)))))))
      | ALLTOALLW \<Rightarrow> rbind scs (\<lambda>scs. rbind sd (\<lambda>sd. rbind sts (\<lambda>sts. rbind rcs (\<lambda>rcs. rbind rd (\<lambda>rd. rbind rts (\<lambda>rts.
          Inr (MPI_Ialltoallw sb scs sd sts rb rcs rd rts comm)))))))
      | BARRIER \<Rightarrow> Inr (MPI_Ibarrier comm)
      | BCAST \<Rightarrow> rbind rc (\<lambda>rc. rbind rt (\<lambda>rt. Inr (MPI_Ibcast rb rc rt rk comm)))
      | EXSCAN \<Rightarrow> rbind sc (\<lambda>sc. rbind st (\<lambda>st. Inr (MPI_Iexscan sb rb sc st opr comm)))
      | GATHER \<Rightarrow> rbind sc (\<lambda>sc. rbind st (\<lambda>st. rbind rc (\<lambda>rc. rbind rt (\<lambda>rt.
          Inr (MPI_Igather sb sc st rb rc rt rk comm)))))
      | GATHERV \<Rightarrow> rbind sc (\<lambda>sc. rbind st (\<lambda>st. rbind rcs (\<lambda>rcs. rbind rd (\<lambda>rd. rbind rt (\<lambda>rt.
          Inr (MPI_Igatherv sb sc st rb rcs rd rt rk comm))))))
      | REDUCE \<Rightarrow> rbind sc (\<lambda>sc. rbind st (\<lambda>st. Inr (MPI_Ireduce sb rb sc st opr rk comm)))
      | REDUCESCATTER \<Rightarrow> rbind rcs (\<lambda>rcs. rbind st (\<lambda>st. Inr (MPI_Ireduce_scatter sb rb rcs st opr comm)))
      | REDUCESCATTERBLOCK \<Rightarrow> rbind rc (\<lambda>rc. rbind st (\<lambda>st. Inr (MPI_Ireduce_scatter_block sb rb rc st opr comm)))
      | SCAN \<Rightarrow> rbind sc (\<lambda>sc. rbind st (\<lambda>st. Inr (MPI_Iscan sb rb sc st opr comm)))
      | SCATTER \<Rightarrow> rbind sc (\<lambda>sc. rbind st (\<lambda>st. rbind rc (\<lambda>rc. rbind rt (\<lambda>rt.
          Inr (MPI_Iscatter sb sc st rb rc rt rk comm)))))
      | SCATTERV \<Rightarrow> rbind scs (\<lambda>scs. rbind sd (\<lambda>sd. rbind st (\<lambda>st. rbind rc (\<lambda>rc. rbind rt (\<lambda>rt.
          Inr (MPI_Iscatterv sb scs sd st rb rc rt rk comm))))))
      | _ \<Rightarrow> fail [Str ''Invalid large operation '', opcode_reason (co_code opn)])"

definition CollOperation_issue :: "'m mpi \<Rightarrow> CollOperation \<Rightarrow> 'm \<Rightarrow> (request \<times> 'm) result" where
  "CollOperation_issue mpi opn m =
     rbind (coll_call opn) (\<lambda>c.
     let ((err, req), m') = MPI_I mpi c m in
     if err \<noteq> MPI_SUCCESS
     then fail [Str ''Operation with code'', opcode_reason (co_code opn), Str '' failed'']
     else Inr (req, m'))"

section \<open>Task contexts of operations\<close>

definition op_context :: "Operation \<Rightarrow> TaskContext" where
  "op_context opn = \<lparr>tc_blocking = (op_nature opn = BLK), tc_taskHandle = op_task opn\<rparr>"

definition coll_context :: "CollOperation \<Rightarrow> TaskContext" where
  "coll_context opn = \<lparr>tc_blocking = (co_nature opn = BLK), tc_taskHandle = co_task opn\<rparr>"

end
