(* ===== verification/Ticket_Arrays.thy ===== *)
theory Ticket_Arrays
  imports Operation
begin

text \<open>
  \<open>Ticket\<close> (src/src/common/Ticket.hpp) and \<open>TicketManagerInternals\<close>
  (src/src/common/TicketManagerInternals.hpp): the ticket of an operation in flight, the arrays that
  hold the requests, the tickets and the mappings between them, and the compaction of the arrays
  that \<open>TicketManager::internalCheckRequests\<close> does after a check.

  A pointer to a ticket of the array \<open>_tickets\<close> is its index, and the null pointer is \<open>None\<close>. The memory
  of the statuses of the application maps addresses, counted in statuses, to statuses.
\<close>

section \<open>Tickets\<close>

type_synonym status_mem = "ptr \<Rightarrow> mpi_status"

record Ticket =
  tk_taskContext :: TaskContext
  tk_firstStatus :: ptr

definition Ticket_of_op :: "Operation \<Rightarrow> Ticket result" where
  "Ticket_of_op opn =
     rbind (TaskContext_of (op_nature opn = BLK) (op_task opn)) (\<lambda>tc.
     Inr \<lparr>tk_taskContext = tc, tk_firstStatus = op_status opn\<rparr>)"

definition Ticket_of_coll :: "'m mpi \<Rightarrow> CollOperation \<Rightarrow> Ticket result" where
  "Ticket_of_coll mpi opn =
     rbind (TaskContext_of (co_nature opn = BLK) (co_task opn)) (\<lambda>tc.
     Inr \<lparr>tk_taskContext = tc, tk_firstStatus = MPI_STATUS_IGNORE mpi\<rparr>)"

text \<open>In C, \<open>STATUS_IGNORE\<close> and \<open>STATUSES_IGNORE\<close> are both \<open>MPI_STATUS_IGNORE\<close> (\<open>Interface::initialize\<close>).\<close>

definition ignoreStatus :: "'m mpi \<Rightarrow> Ticket \<Rightarrow> bool" where
  "ignoreStatus mpi t \<longleftrightarrow> tk_firstStatus t = MPI_STATUS_IGNORE mpi \<or> tk_firstStatus t = MPI_STATUS_IGNORE mpi"

definition storeStatus :: "Ticket \<Rightarrow> mpi_status \<Rightarrow> int \<Rightarrow> status_mem \<Rightarrow> status_mem result" where
  "storeStatus t st statusPosition mem =
     rbind (rassert (tk_firstStatus t \<noteq> 0) ''_firstStatus != nullptr'') (\<lambda>_.
     rbind (rassert (statusPosition \<ge> 0) ''statusPosition >= 0'') (\<lambda>_.
     Inr (mem(tk_firstStatus t + nat statusPosition := st))))"

definition ticket_complete :: "alpi \<Rightarrow> alpi_log \<Rightarrow> Ticket \<Rightarrow> alpi_log result" where
  "ticket_complete rt h t = completeEvents rt h (tk_taskContext t) 1 True"

definition addPendingOperation :: "alpi \<Rightarrow> alpi_log \<Rightarrow> Ticket \<Rightarrow> int \<Rightarrow> alpi_log result" where
  "addPendingOperation rt h t num = bindEvents rt h (tk_taskContext t) num"

definition ticket_wait :: "alpi \<Rightarrow> alpi_log \<Rightarrow> Ticket \<Rightarrow> alpi_log result" where
  "ticket_wait rt h t = waitEventsCompletion rt h (tk_taskContext t)"

section \<open>Arrays\<close>

record arrays =
  ar_requests :: "request list"
  ar_mappings :: "(nat option \<times> int) list"
  ar_tickets :: "Ticket list"

definition getRequest :: "arrays \<Rightarrow> nat \<Rightarrow> request result" where
  "getRequest a position = aread (ar_requests a) position ''_requests''"

definition getAssociatedTicket :: "arrays \<Rightarrow> nat \<Rightarrow> Ticket result" where
  "getAssociatedTicket a position =
     rbind (aread (ar_mappings a) position ''_mappings'') (\<lambda>(ticket, _).
     case ticket of
       None \<Rightarrow> Inl (AssertFail ''_mappings[position].ticket != nullptr'')
     | Some t \<Rightarrow> aread (ar_tickets a) t ''_tickets'')"

definition getLocalPositionInTicket :: "arrays \<Rightarrow> nat \<Rightarrow> int result" where
  "getLocalPositionInTicket a position =
     rbind (aread (ar_mappings a) position ''_mappings'') (\<lambda>(_, localPosition).
     rbind (rassert (localPosition \<ge> 0) ''_mappings[position].localPosition >= 0'') (\<lambda>_.
     Inr localPosition))"

definition allocateTicket :: "arrays \<Rightarrow> nat \<Rightarrow> Ticket \<Rightarrow> arrays result" where
  "allocateTicket a position t =
     rbind (awrite (ar_tickets a) position t ''_tickets'') (\<lambda>ts. Inr (a\<lparr>ar_tickets := ts\<rparr>))"

definition associateRequest :: "arrays \<Rightarrow> nat \<Rightarrow> request \<Rightarrow> nat \<Rightarrow> int \<Rightarrow> arrays result" where
  "associateRequest a position req ticket localPosition =
     rbind (awrite (ar_requests a) position req ''_requests'') (\<lambda>rs.
     rbind (awrite (ar_mappings a) position (Some ticket, localPosition) ''_mappings'') (\<lambda>ms.
     Inr (a\<lparr>ar_requests := rs, ar_mappings := ms\<rparr>)))"

definition moveRequest :: "arrays \<Rightarrow> nat \<Rightarrow> nat \<Rightarrow> arrays result" where
  "moveRequest a source destination =
     rbind (rassert (source \<noteq> destination) ''source != destination'') (\<lambda>_.
     rbind (aread (ar_requests a) source ''_requests'') (\<lambda>r.
     rbind (awrite (ar_requests a) destination r ''_requests'') (\<lambda>rs.
     rbind (aread (ar_mappings a) source ''_mappings'') (\<lambda>m.
     rbind (awrite (ar_mappings a) destination m ''_mappings'') (\<lambda>ms.
     let a = a\<lparr>ar_requests := rs, ar_mappings := ms\<rparr> in
     if fst m = Some source then
       rbind (aread (ar_tickets a) source ''_tickets'') (\<lambda>t.
       rbind (awrite (ar_tickets a) destination t ''_tickets'') (\<lambda>ts.
       rbind (awrite (ar_mappings a) destination (Some destination, snd m) ''_mappings'') (\<lambda>ms.
       Inr (a\<lparr>ar_tickets := ts, ar_mappings := ms\<rparr>))))
     else Inr a)))))"

section \<open>Compaction\<close>

text \<open>
  The end of \<open>internalCheckRequests\<close>: the positions of the completed requests, ascending, are filled
  with the last requests that are still in flight. \<open>replacement\<close> and \<open>reverse\<close> may become \<open>-1\<close>;
  \<open>compact_scan\<close> is the inner \<open>while\<close> loop, \<open>compact\<close> the \<open>for\<close> loop over the indices.
\<close>

function compact_scan :: "nat list \<Rightarrow> nat \<Rightarrow> int \<Rightarrow> int \<Rightarrow> (bool \<times> int \<times> int) result" where
  "compact_scan indices current replacement reverse =
     (if replacement > int current then
        if reverse < 0 \<or> reverse \<ge> int (length indices) then Inl (OutOfBounds ''indices[reverse]'')
        else if replacement \<noteq> int (indices ! nat reverse) then Inr (True, replacement, reverse)
        else compact_scan indices current (replacement - 1) (reverse - 1)
      else Inr (False, replacement, reverse))"
  by pat_completeness auto
termination
  by (relation "measure (\<lambda>(indices, current, replacement, reverse). nat (replacement - int current))") auto

declare compact_scan.simps [simp del]

fun compact :: "nat list \<Rightarrow> nat list \<Rightarrow> int \<Rightarrow> int \<Rightarrow> arrays \<Rightarrow> arrays result" where
  "compact indices [] replacement reverse a = Inr a"
| "compact indices (current # rest) replacement reverse a =
     rbind (compact_scan indices current replacement reverse) (\<lambda>(replace, replacement, reverse).
     if replace then
       rbind (moveRequest a (nat replacement) current) (\<lambda>a.
       compact indices rest (replacement - 1) reverse a)
     else compact indices rest replacement reverse a)"

section \<open>The entries of the arrays\<close>

text \<open>
  In the arrays of the ticket manager every ticket has one request, at the same position: this is
  the invariant of the first \<open>n\<close> positions. An entry is a request in flight with its ticket.
\<close>

definition ar_entry :: "arrays \<Rightarrow> nat \<Rightarrow> request \<times> Ticket" where
  "ar_entry a i = (ar_requests a ! i, ar_tickets a ! i)"

definition ar_ok :: "nat \<Rightarrow> arrays \<Rightarrow> nat \<Rightarrow> bool" where
  "ar_ok cap a n \<longleftrightarrow> n \<le> cap \<and> length (ar_requests a) = cap \<and> length (ar_mappings a) = cap \<and>
     length (ar_tickets a) = cap \<and> (\<forall>i < n. ar_mappings a ! i = (Some i, 0))"

definition ar_entries :: "arrays \<Rightarrow> nat \<Rightarrow> (request \<times> Ticket) list" where
  "ar_entries a n = map (ar_entry a) [0..<n]"

lemma ar_okD:
  assumes "ar_ok cap a n"
  shows "n \<le> cap" "length (ar_requests a) = cap" "length (ar_mappings a) = cap"
    "length (ar_tickets a) = cap" "i < n \<Longrightarrow> ar_mappings a ! i = (Some i, 0)"
  using assms by (auto simp: ar_ok_def)

lemma ar_reads:
  assumes "ar_ok cap a n" "i < n"
  shows "getAssociatedTicket a i = Inr (ar_tickets a ! i)" "getLocalPositionInTicket a i = Inr 0"
    "getRequest a i = Inr (ar_requests a ! i)"
  using ar_okD [OF assms(1)] assms(2)
  by (auto simp: getAssociatedTicket_def getLocalPositionInTicket_def getRequest_def)

lemma moveRequest_ok:
  assumes "ar_ok cap a n" "src < n" "dst < n" "src \<noteq> dst"
  obtains a' where "moveRequest a src dst = Inr a'" "ar_ok cap a' n"
    "\<And>i. i \<noteq> dst \<Longrightarrow> ar_entry a' i = ar_entry a i" "ar_entry a' dst = ar_entry a src"
proof -
  note A = ar_okD [OF assms(1)]
  have lt: "src < cap" "dst < cap" using A(1) assms by auto
  let ?a = "a\<lparr>ar_requests := (ar_requests a)[dst := ar_requests a ! src],
      ar_mappings := (ar_mappings a)[dst := (Some dst, 0)],
      ar_tickets := (ar_tickets a)[dst := ar_tickets a ! src]\<rparr>"
  have "moveRequest a src dst = Inr ?a"
    using A lt assms by (simp add: moveRequest_def Let_def)
  moreover have "ar_ok cap ?a n" using A assms by (auto simp: ar_ok_def nth_list_update)
  ultimately show thesis using lt A by (intro that [of ?a]) (auto simp: ar_entry_def)
qed

lemma add_entry_ok:
  assumes "ar_ok cap a n" "n < cap"
  obtains a' where "rbind (allocateTicket a n t) (\<lambda>a. associateRequest a n r n 0) = Inr a'"
    "ar_ok cap a' (n + 1)" "ar_entries a' (n + 1) = ar_entries a n @ [(r, t)]"
proof -
  note A = ar_okD [OF assms(1)]
  let ?a = "a\<lparr>ar_requests := (ar_requests a)[n := r], ar_mappings := (ar_mappings a)[n := (Some n, 0)],
      ar_tickets := (ar_tickets a)[n := t]\<rparr>"
  have "rbind (allocateTicket a n t) (\<lambda>a. associateRequest a n r n 0) = Inr ?a"
    using A assms by (simp add: allocateTicket_def associateRequest_def)
  moreover have "ar_ok cap ?a (n + 1)" using A assms by (auto simp: ar_ok_def nth_list_update less_Suc_eq)
  moreover have "ar_entries ?a (n + 1) = ar_entries a n @ [(r, t)]"
    using A assms by (auto simp: ar_entries_def ar_entry_def)
  ultimately show thesis by (intro that [of ?a])
qed

section \<open>Correctness of the compaction\<close>

text \<open>
  \<open>r\<close> positions are left at the top of the scan (\<open>replacement = r - 1\<close>), and the indices below \<open>r\<close>
  are the first ones up to \<open>reverse\<close>.
\<close>

definition scan_inv :: "nat list \<Rightarrow> nat \<Rightarrow> int \<Rightarrow> bool" where
  "scan_inv idx r v \<longleftrightarrow> sorted_wrt (<) idx \<and> v < int (length idx) \<and>
     (\<forall>j < length idx. idx ! j < r \<longleftrightarrow> int j \<le> v)"

lemma scan_inv_top:
  assumes "scan_inv idx r v" "c < length idx" "idx ! c < r"
  shows "0 \<le> v" "nat v < length idx" "idx ! nat v < r"
    "\<And>x. x \<in> set idx \<Longrightarrow> x < r \<Longrightarrow> x \<le> idx ! nat v"
proof -
  have c: "int c \<le> v" using assms by (simp add: scan_inv_def)
  then show v: "0 \<le> v" "nat v < length idx" using assms(1) by (auto simp: scan_inv_def)
  then show "idx ! nat v < r" using assms(1) by (auto simp: scan_inv_def)
  fix x assume "x \<in> set idx" "x < r"
  then obtain j where j: "j < length idx" "x = idx ! j" by (auto simp: in_set_conv_nth)
  with assms(1) \<open>x < r\<close> have "j \<le> nat v" by (auto simp: scan_inv_def)
  then show "x \<le> idx ! nat v"
    using assms(1) j v sorted_wrt_nth_less [of "(<)" idx j "nat v"]
    by (cases "j = nat v") (auto simp: scan_inv_def)
qed

lemma scan_inv_down:
  assumes "scan_inv idx r v" "0 \<le> v" "Suc (idx ! nat v) = r"
  shows "scan_inv idx (r - 1) (v - 1)"
proof -
  have asc: "idx ! i < idx ! j" if "i < j" "j < length idx" for i j
    using assms(1) that sorted_wrt_nth_less [of "(<)" idx i j] by (simp add: scan_inv_def)
  have lt: "nat v < length idx" using assms by (auto simp: scan_inv_def)
  have "idx ! j < r - 1 \<longleftrightarrow> int j \<le> v - 1" if "j < length idx" for j
    using asc [of j "nat v"] asc [of "nat v" j] lt assms(2,3) that
    by (cases "j = nat v"; cases "j < nat v") auto
  then show ?thesis using assms(1) by (auto simp: scan_inv_def)
qed

lemma compact_scan_ok:
  assumes "scan_inv idx r v" "c < length idx"
  obtains b r' v' where "compact_scan idx (idx ! c) (int r - 1) v = Inr (b, int r' - 1, v')"
    "scan_inv idx r' v'" "r' \<le> r" "{r'..<r} \<subseteq> set idx - {..idx ! c}"
    "if b then idx ! c < r' - 1 \<and> r' - 1 \<notin> set idx \<and> 0 < r' else r' \<le> Suc (idx ! c)"
proof -
  have "\<exists>b r' v'. compact_scan idx (idx ! c) (int r - 1) v = Inr (b, int r' - 1, v') \<and>
    scan_inv idx r' v' \<and> r' \<le> r \<and> {r'..<r} \<subseteq> set idx - {..idx ! c} \<and>
    (if b then idx ! c < r' - 1 \<and> r' - 1 \<notin> set idx \<and> 0 < r' else r' \<le> Suc (idx ! c))"
    using assms(1)
  proof (induction r arbitrary: v)
    case 0
    then show ?case by (subst compact_scan.simps) auto
  next
    case (Suc r)
    show ?case
    proof (cases "idx ! c < r")
      case False
      then have "compact_scan idx (idx ! c) (int (Suc r) - 1) v = Inr (False, int (Suc r) - 1, v)"
        by (subst compact_scan.simps) auto
      with Suc.prems False show ?thesis
        by (intro exI [of _ False] exI [of _ "Suc r"] exI [of _ v]) auto
    next
      case True
      have T: "0 \<le> v" "nat v < length idx" "idx ! nat v < Suc r"
        and max: "\<And>x. x \<in> set idx \<Longrightarrow> x < Suc r \<Longrightarrow> x \<le> idx ! nat v"
        using scan_inv_top [OF Suc.prems assms(2)] True by auto
      show ?thesis
      proof (cases "idx ! nat v = r")
        case True': True
        then have step: "compact_scan idx (idx ! c) (int (Suc r) - 1) v =
            compact_scan idx (idx ! c) (int r - 1) (v - 1)"
          using True T by (subst compact_scan.simps) auto
        have "scan_inv idx r (v - 1)" using scan_inv_down [OF Suc.prems T(1)] True' by simp
        from Suc.IH [OF this] obtain b r' v' where
          "compact_scan idx (idx ! c) (int r - 1) (v - 1) = Inr (b, int r' - 1, v')"
          "scan_inv idx r' v'" "r' \<le> r" "{r'..<r} \<subseteq> set idx - {..idx ! c}"
          "if b then idx ! c < r' - 1 \<and> r' - 1 \<notin> set idx \<and> 0 < r' else r' \<le> Suc (idx ! c)"
          by blast
        moreover have "{r'..<Suc r} \<subseteq> set idx - {..idx ! c}" if "{r'..<r} \<subseteq> set idx - {..idx ! c}"
        proof -
          have "{r'..<Suc r} \<subseteq> insert r {r'..<r}" by auto
          moreover have "r \<in> set idx - {..idx ! c}"
            using True True' T(2) nth_mem [of "nat v" idx] by auto
          ultimately show ?thesis using that by blast
        qed
        ultimately show ?thesis unfolding step by (intro exI conjI) auto
      next
        case False
        then have "compact_scan idx (idx ! c) (int (Suc r) - 1) v = Inr (True, int (Suc r) - 1, v)"
          using True T by (subst compact_scan.simps) auto
        moreover have "r \<notin> set idx" using max [of r] T(3) False by auto
        ultimately show ?thesis
          using Suc.prems True
          by (intro exI [of _ True] exI [of _ "Suc r"] exI [of _ v]) auto
      qed
    qed
  qed
  then show thesis using that by blast
qed

text \<open>The entries at the positions below \<open>r\<close> that are not to be filled.\<close>

definition ar_live :: "arrays \<Rightarrow> nat \<Rightarrow> nat set \<Rightarrow> (request \<times> Ticket) multiset" where
  "ar_live a r holes = image_mset (ar_entry a) (mset_set ({..<r} - holes))"

lemma ar_live_cong:
  "{..<r} - H = {..<r'} - H' \<Longrightarrow> (\<And>i. i < r \<Longrightarrow> i \<notin> H \<Longrightarrow> ar_entry a i = ar_entry a' i) \<Longrightarrow>
     ar_live a r H = ar_live a' r' H'"
  unfolding ar_live_def by (simp, rule image_mset_cong) auto

lemma ar_live_move:
  assumes "cur < r" "cur \<notin> H" "r \<notin> H"
    and "\<And>i. i \<noteq> cur \<Longrightarrow> ar_entry a' i = ar_entry a i" "ar_entry a' cur = ar_entry a r"
  shows "ar_live a' r H = ar_live a (Suc r) (insert cur H)"
proof -
  define S where "S = {..<r} - insert cur H"
  have sets: "{..<r} - H = insert cur S" "{..<Suc r} - insert cur H = insert r S"
    and fin: "finite S" "cur \<notin> S" "r \<notin> S"
    using assms(1-3) by (auto simp: S_def)
  have "image_mset (ar_entry a') (mset_set S) = image_mset (ar_entry a) (mset_set S)"
    by (rule image_mset_cong, rule assms(4)) (use fin in auto)
  then show ?thesis unfolding ar_live_def sets using fin assms(5) by simp
qed

lemma compact_stuck:
  assumes "sorted_wrt (<) cs" "\<forall>x \<in> set cs. rep \<le> int x"
  shows "compact idx cs rep v a = Inr a"
  using assms by (induction cs) (auto simp: compact_scan.simps)

lemma ar_ok_less: "ar_ok cap a n \<Longrightarrow> m \<le> n \<Longrightarrow> ar_ok cap a m"
  by (auto simp: ar_ok_def)

lemma drop_sorted_wrt_less:
  assumes "sorted_wrt (<) (idx :: nat list)" "c < length idx"
  shows "drop c idx = idx ! c # drop (Suc c) idx" "\<forall>x \<in> set (drop (Suc c) idx). idx ! c < x"
    "set (drop c idx) = {x \<in> set idx. idx ! c \<le> x}"
proof -
  show d: "drop c idx = idx ! c # drop (Suc c) idx" using assms(2) by (rule Cons_nth_drop_Suc [symmetric])
  have s: "sorted_wrt (<) (take c idx @ drop c idx)" using assms(1) by simp
  then show gt: "\<forall>x \<in> set (drop (Suc c) idx). idx ! c < x" unfolding d sorted_wrt_append by simp
  have "\<forall>x \<in> set (take c idx). x < idx ! c" using s unfolding d sorted_wrt_append by simp
  moreover have "set idx = set (take c idx) \<union> set (drop c idx)" by (metis append_take_drop_id set_append)
  ultimately show "set (drop c idx) = {x \<in> set idx. idx ! c \<le> x}" using gt d by auto
qed

lemma scan_inv_skip:
  assumes "scan_inv idx (Suc r) v" "r \<notin> set idx"
  shows "scan_inv idx r v"
proof -
  have "idx ! j < r \<longleftrightarrow> idx ! j < Suc r" if "j < length idx" for j
    using assms(2) that nth_mem [of j idx] by (auto simp: less_Suc_eq)
  then show ?thesis using assms(1) by (auto simp: scan_inv_def)
qed

lemma compact_from:
  assumes "scan_inv idx r v" "ar_ok cap a n" "r \<le> n" "\<forall>x \<in> set idx. x < n" "c \<le> length idx"
    and "card ({..<r} - set (drop c idx)) = n - length idx"
  shows "\<exists>a'. compact idx (drop c idx) (int r - 1) v a = Inr a' \<and> ar_ok cap a' n \<and>
    ar_live a' (n - length idx) {} = ar_live a r (set (drop c idx))"
  using assms(1-3,5,6)
proof (induction "length idx - c" arbitrary: c r v a)
  case 0
  then show ?case by simp
next
  case (Suc d)
  then have c: "c < length idx" and s: "sorted_wrt (<) idx" by (auto simp: scan_inv_def)
  note D = drop_sorted_wrt_less [OF s c]
  let ?H = "set (drop c idx)" and ?H' = "set (drop (Suc c) idx)"
  have H: "?H = insert (idx ! c) ?H'" using D(1) by simp
  obtain b r' v' where scan: "compact_scan idx (idx ! c) (int r - 1) v = Inr (b, int r' - 1, v')"
    "scan_inv idx r' v'" "r' \<le> r" "{r'..<r} \<subseteq> set idx - {..idx ! c}"
    "if b then idx ! c < r' - 1 \<and> r' - 1 \<notin> set idx \<and> 0 < r' else r' \<le> Suc (idx ! c)"
    by (rule compact_scan_ok [OF Suc.prems(1) c])
  have "{r'..<r} \<subseteq> ?H" using scan(4) D(3) by auto
  then have same: "{..<r} - ?H = {..<r'} - ?H" using scan(3) by (fastforce simp: subset_iff not_less)
  have live: "ar_live a r ?H = ar_live a r' ?H" using same by (simp add: ar_live_def)
  show ?case
  proof (cases b)
    case True
    define q where "q = r' - 1"
    have q: "r' = Suc q" "idx ! c < q" "q \<notin> set idx" "q < n"
      using scan(3,5) True Suc.prems(3) by (auto simp: q_def)
    then obtain a1 where a1: "moveRequest a q (idx ! c) = Inr a1" "ar_ok cap a1 n"
      "\<And>i. i \<noteq> idx ! c \<Longrightarrow> ar_entry a1 i = ar_entry a i" "ar_entry a1 (idx ! c) = ar_entry a q"
      using moveRequest_ok [OF Suc.prems(2), of q "idx ! c"] by auto
    have out: "idx ! c \<notin> ?H'" "q \<notin> ?H'" using D(2) q(3) set_drop_subset [of "Suc c" idx] by auto
    have mv: "ar_live a1 q ?H' = ar_live a r' ?H"
      unfolding H q(1) using out q(2) a1(3,4) by (intro ar_live_move) auto
    have "size (ar_live a1 q ?H') = size (ar_live a r' ?H)" using mv by simp
    then have "card ({..<q} - ?H') = n - length idx"
      using Suc.prems(5) same by (simp add: ar_live_def)
    then have "\<exists>a'. compact idx (drop (Suc c) idx) (int q - 1) v' a1 = Inr a' \<and> ar_ok cap a' n \<and>
        ar_live a' (n - length idx) {} = ar_live a1 q ?H'"
      using Suc.hyps(1) [of "Suc c" q v' a1] Suc.hyps(2) c a1(2) q scan(2) scan_inv_skip [of idx q v']
      by simp
    then show ?thesis using D(1) scan(1) True a1(1) q(1) mv live by auto
  next
    case False
    have "compact idx (drop c idx) (int r - 1) v a = compact idx (drop (Suc c) idx) (int r' - 1) v' a"
      using D(1) scan(1) False by simp
    also have "\<dots> = Inr a"
      by (rule compact_stuck) (use D(2) s scan(5) False in \<open>auto simp: sorted_wrt_drop\<close>)
    finally have res: "compact idx (drop c idx) (int r - 1) v a = Inr a" .
    have le: "r' \<le> Suc (idx ! c)" and mem: "idx ! c \<in> set idx" using scan(5) False c by auto
    have set: "{..<r'} - ?H = {..<min r' (idx ! c)}"
      unfolding D(3)
    proof (rule set_eqI)
      fix x
      show "x \<in> {..<r'} - {x \<in> set idx. idx ! c \<le> x} \<longleftrightarrow> x \<in> {..<min r' (idx ! c)}"
        using le mem by (cases "x = idx ! c") auto
    qed
    then have "card {..<min r' (idx ! c)} = n - length idx" using Suc.prems(5) same by metis
    then have "min r' (idx ! c) = n - length idx" by simp
    then have "ar_live a (n - length idx) {} = ar_live a r' ?H"
      unfolding ar_live_def set by (simp only: Diff_empty)
    with res Suc.prems(2) live show ?thesis by simp
  qed
qed

lemma ar_live_entries: "ar_live a n {} = mset (ar_entries a n)"
  by (simp add: ar_live_def ar_entries_def mset_map flip: mset_upt atLeast0LessThan)

lemma compact_ok:
  assumes "ar_ok cap a n" "sorted_wrt (<) idx" "\<forall>x \<in> set idx. x < n"
  obtains a' where "compact idx idx (int n - 1) (int (length idx) - 1) a = Inr a'"
    "ar_ok cap a' (n - length idx)"
    "mset (ar_entries a' (n - length idx)) = ar_live a n (set idx)"
proof -
  have d: "distinct idx" using assms(2) by (simp add: strict_sorted_iff)
  have inv: "scan_inv idx n (int (length idx) - 1)"
    using assms(2,3) by (auto simp: scan_inv_def)
  have card: "card ({..<n} - set (drop 0 idx)) = n - length idx"
    using assms(3) distinct_card [OF d] by (subst card_Diff_subset) auto
  have "\<exists>a'. compact idx (drop 0 idx) (int n - 1) (int (length idx) - 1) a = Inr a' \<and> ar_ok cap a' n \<and>
      ar_live a' (n - length idx) {} = ar_live a n (set (drop 0 idx))"
    by (rule compact_from [OF inv assms(1) order_refl assms(3) _ card]) simp
  then obtain a' where "compact idx idx (int n - 1) (int (length idx) - 1) a = Inr a'" "ar_ok cap a' n"
    "ar_live a' (n - length idx) {} = ar_live a n (set idx)" by auto
  with ar_ok_less [of cap a' n "n - length idx"] show thesis
    by (intro that [of a']) (simp_all add: ar_live_entries)
qed

end
