(* ===== verification/String_Support.thy ===== *)
theory String_Support
  imports Tampi_Prelude
begin

text \<open>
  \<open>StringSupport\<close> (src/src/common/util/StringSupport.hpp), \<open>EnvironmentVariable\<close>
  (src/src/common/util/EnvironmentVariable.hpp) and what they use of the standard library: the lines of
  \<open>std::getline\<close> with a delimiter, and the extraction of numbers and booleans from an \<open>istringstream\<close> in
  the C locale.
\<close>

section \<open>Standard library\<close>

text \<open>
  The components that a \<open>while (std::getline(stream, component, delim))\<close> loop reads: a delimiter at
  the end of the string is not followed by an empty component.
\<close>

function getlines :: "char \<Rightarrow> string \<Rightarrow> string list" where
  "getlines delim s =
     (if s = [] then []
      else let component = takeWhile (\<lambda>c. c \<noteq> delim) s in
        component # getlines delim (drop (length component + 1) s))"
  by pat_completeness auto
termination
  by (relation "measure (\<lambda>(delim, s). length s)") (auto simp: Let_def)

declare getlines.simps [simp del]

definition isspace :: "char \<Rightarrow> bool" where
  "isspace c \<longleftrightarrow> c \<in> {CHR '' '', CHR 0x09, CHR 0x0A, CHR 0x0B, CHR 0x0C, CHR 0x0D}"

definition isdigit :: "char \<Rightarrow> bool" where
  "isdigit c \<longleftrightarrow> 48 \<le> (of_char c :: nat) \<and> (of_char c :: nat) \<le> 57"

definition digit_val :: "char \<Rightarrow> nat" where
  "digit_val c = of_char c - 48"

definition dec_value :: "string \<Rightarrow> nat" where
  "dec_value ds = foldl (\<lambda>n c. 10 * n + digit_val c) 0 ds"

text \<open>
  The field of a number at the front of the stream, white space skipped: its sign and its digits.
  The rest of the stream is left there.
\<close>

definition num_field :: "string \<Rightarrow> bool \<times> string" where
  "num_field s =
     (let s = dropWhile isspace s;
          neg = (s \<noteq> [] \<and> hd s = CHR ''-'');
          s = (if s \<noteq> [] \<and> (hd s = CHR ''-'' \<or> hd s = CHR ''+'') then tl s else s)
      in (neg, takeWhile isdigit s))"

text \<open>
  \<open>stream >> value\<close> for \<open>uint64_t\<close>: the new value and whether the extraction succeeded. At the end of
  the stream the value is not written; without digits it becomes zero; a magnitude that does not
  fit gives the largest value; a minus sign negates modulo \<open>2 ^ 64\<close>.
\<close>

definition extract_u64 :: "string \<Rightarrow> u64 \<Rightarrow> u64 \<times> bool" where
  "extract_u64 s old =
     (if dropWhile isspace s = [] then (old, False)
      else let (neg, ds) = num_field s in
        if ds = [] then (0, False)
        else if dec_value ds \<ge> 2 ^ 64 then (-1, False)
        else (if neg then - of_nat (dec_value ds) else of_nat (dec_value ds), True))"

text \<open>\<open>stream >> value\<close> for \<open>bool\<close>: the number must be zero or one.\<close>

definition extract_bool :: "string \<Rightarrow> bool \<Rightarrow> bool \<times> bool" where
  "extract_bool s old =
     (if dropWhile isspace s = [] then (old, False)
      else let (neg, ds) = num_field s in
        if ds = [] then (False, False)
        else if dec_value ds = 0 then (False, True)
        else if dec_value ds = 1 \<and> \<not> neg then (True, True)
        else (True, False))"

section \<open>StringSupport\<close>

definition split :: "string \<Rightarrow> char \<Rightarrow> string list" where
  "split str delim = filter (\<lambda>c. c \<noteq> []) (getlines delim str)"

text \<open>The three instances of \<open>parse\<close> for one value: \<open>None\<close> stands for the result \<open>false\<close>.\<close>

definition parse_u64 :: "string \<Rightarrow> u64 option" where
  "parse_u64 str = (let (tmp, good) = extract_u64 str 0 in if \<not> good then None else Some tmp)"

definition parse_bool :: "string \<Rightarrow> bool option" where
  "parse_bool str = (let (tmp, good) = extract_bool str False in if \<not> good then None else Some tmp)"

definition parse_string :: "string \<Rightarrow> string option" where
  "parse_string str = Some str"

text \<open>
  \<open>parse\<close> for two and for three values. The values and the flags \<open>present\<close> are those the caller sees
  after the call returned \<open>true\<close>; \<open>v1\<close>, \<open>v2\<close>, \<open>v3\<close> are the values it passed in.
\<close>

definition parse2 ::
    "(string \<Rightarrow> 'a option) \<Rightarrow> (string \<Rightarrow> 'b option) \<Rightarrow> string \<Rightarrow> 'a \<Rightarrow> 'b \<Rightarrow> char \<Rightarrow>
     (bool \<times> bool \<times> 'a \<times> 'b) option" where
  "parse2 p1 p2 str v1 v2 delim =
     (let expected = length (filter (\<lambda>c. c = delim) str) + 1;
          components = split str delim
      in if length components \<noteq> expected \<or> length components > 2 then None
         else Option.bind (if length components > 0 then map_option (Pair True) (p1 (components ! 0))
                           else Some (False, v1)) (\<lambda>(b1, v1).
              Option.bind (if length components > 1 then map_option (Pair True) (p2 (components ! 1))
                           else Some (False, v2)) (\<lambda>(b2, v2).
              Some (b1, b2, v1, v2))))"

definition parse3 ::
    "(string \<Rightarrow> 'a option) \<Rightarrow> (string \<Rightarrow> 'b option) \<Rightarrow> (string \<Rightarrow> 'c option) \<Rightarrow>
     string \<Rightarrow> 'a \<Rightarrow> 'b \<Rightarrow> 'c \<Rightarrow> char \<Rightarrow> (bool \<times> bool \<times> bool \<times> 'a \<times> 'b \<times> 'c) option" where
  "parse3 p1 p2 p3 str v1 v2 v3 delim =
     (let expected = length (filter (\<lambda>c. c = delim) str) + 1;
          components = split str delim
      in if length components \<noteq> expected \<or> length components > 3 then None
         else Option.bind (if length components > 0 then map_option (Pair True) (p1 (components ! 0))
                           else Some (False, v1)) (\<lambda>(b1, v1).
              Option.bind (if length components > 1 then map_option (Pair True) (p2 (components ! 1))
                           else Some (False, v2)) (\<lambda>(b2, v2).
              Option.bind (if length components > 2 then map_option (Pair True) (p3 (components ! 2))
                           else Some (False, v3)) (\<lambda>(b3, v3).
              Some (b1, b2, b3, v1, v2, v3)))))"

text \<open>
  The list of indices. The loop over a range counts in 64 bits and compares with \<open><=\<close>, so it need
  not end. The outer \<open>None\<close> is a run that does not return, the inner one the result \<open>false\<close>.
\<close>

partial_function (option) range_loop :: "u64 \<Rightarrow> u64 \<Rightarrow> u64 list \<Rightarrow> u64 list option" where
  "range_loop i fin acc = (if i \<le> fin then range_loop (i + 1) fin (acc @ [i]) else Some acc)"

definition parse_range :: "string \<Rightarrow> u64 list \<Rightarrow> u64 list option option" where
  "parse_range rng indices =
     (if CHR ''-'' \<notin> set rng then
        Some (map_option (\<lambda>b. indices @ [b]) (parse_u64 rng))
      else
        let rangeIndices = split rng (CHR ''-'') in
        if length rangeIndices \<noteq> 2 then Some None
        else case (parse_u64 (rangeIndices ! 0), parse_u64 (rangeIndices ! 1)) of
          (Some b, Some e) \<Rightarrow> if b > e then Some None else map_option Some (range_loop b e indices)
        | _ \<Rightarrow> Some None)"

fun parse_ranges :: "string list \<Rightarrow> u64 list \<Rightarrow> u64 list option option" where
  "parse_ranges [] indices = Some (Some indices)"
| "parse_ranges (rng # rngs) indices =
     (if rng = [] then parse_ranges rngs indices
      else case parse_range rng indices of
        None \<Rightarrow> None
      | Some None \<Rightarrow> Some None
      | Some (Some indices) \<Rightarrow> parse_ranges rngs indices)"

definition parseIndices :: "string \<Rightarrow> u64 list \<Rightarrow> u64 list option option" where
  "parseIndices list indices = parse_ranges (split list (CHR '','')) indices"

section \<open>EnvironmentVariable\<close>

text \<open>
  \<open>getenv\<close> is the environment of the process. The parser is the instance of \<open>parse\<close> for the type of the
  variable, \<open>shw\<close> its printed default value in the warning.
\<close>

record 'a env_variable =
  ev_value :: 'a
  ev_isPresent :: bool
  ev_name :: string

definition EnvironmentVariable ::
    "(string \<Rightarrow> string option) \<Rightarrow> (string \<Rightarrow> 'a option) \<Rightarrow> ('a \<Rightarrow> reason) \<Rightarrow> string \<Rightarrow> 'a \<Rightarrow>
     'a env_variable \<times> warnings" where
  "EnvironmentVariable getenv prs shw name defaultValue =
     (case getenv name of
        None \<Rightarrow> (\<lparr>ev_value = defaultValue, ev_isPresent = False, ev_name = name\<rparr>, [])
      | Some valueString \<Rightarrow>
          (case prs valueString of
             Some v \<Rightarrow> (\<lparr>ev_value = v, ev_isPresent = True, ev_name = name\<rparr>, [])
           | None \<Rightarrow> (\<lparr>ev_value = defaultValue, ev_isPresent = False, ev_name = name\<rparr>,
               [[Str ''Invalid value for '', Str name, Str ''; defaulting to '', shw defaultValue]])))"

definition ev_set :: "'a env_variable \<Rightarrow> 'a \<Rightarrow> bool \<Rightarrow> 'a env_variable" where
  "ev_set e v makePresent = e\<lparr>ev_value := v, ev_isPresent := ev_isPresent e \<or> makePresent\<rparr>"

section \<open>Printing of numbers\<close>

text \<open>\<open>std::to_string\<close> of an unsigned number.\<close>

function to_string :: "nat \<Rightarrow> string" where
  "to_string n = (if n < 10 then [char_of (48 + n)] else to_string (n div 10) @ [char_of (48 + n mod 10)])"
  by pat_completeness auto
termination
  by (relation "measure id") auto

declare to_string.simps [simp del]

lemma digit_char:
  assumes "d < 10"
  shows "isdigit (char_of (48 + d))" "digit_val (char_of (48 + d)) = d"
  using assms by (simp_all add: isdigit_def digit_val_def of_char_of take_bit_eq_mod)

lemma to_string_ne [simp]: "to_string n \<noteq> []"
  by (subst to_string.simps) auto

lemma to_string_digits: "c \<in> set (to_string n) \<Longrightarrow> isdigit c"
proof (induction n rule: to_string.induct)
  case (1 n)
  show ?case
  proof (cases "n < 10")
    case True
    then show ?thesis using "1.prems" digit_char by (subst (asm) to_string.simps) auto
  next
    case False
    then show ?thesis using 1 digit_char [of "n mod 10"] by (subst (asm) to_string.simps) auto
  qed
qed

lemma dec_value_snoc: "dec_value (ds @ [c]) = 10 * dec_value ds + digit_val c"
  by (simp add: dec_value_def)

lemma dec_value_to_string: "dec_value (to_string n) = n"
proof (induction n rule: to_string.induct)
  case (1 n)
  show ?case
  proof (cases "n < 10")
    case True
    then show ?thesis by (subst to_string.simps) (simp add: dec_value_def digit_char)
  next
    case False
    then show ?thesis using 1 digit_char [of "n mod 10"]
      by (subst to_string.simps) (simp add: dec_value_snoc)
  qed
qed

lemma isdigit_facts:
  "isdigit c \<Longrightarrow> \<not> isspace c" "isdigit c \<Longrightarrow> c \<noteq> CHR ''-''" "isdigit c \<Longrightarrow> c \<noteq> CHR ''+''"
  "isdigit c \<Longrightarrow> c \<noteq> CHR '':''" "isdigit c \<Longrightarrow> c \<noteq> CHR '',''"
  by (auto simp: isdigit_def isspace_def)

lemma num_field_digits:
  assumes "ds \<noteq> []" "\<forall>c \<in> set ds. isdigit c" "rest = [] \<or> \<not> isdigit (hd rest)"
  shows "num_field (ds @ rest) = (False, ds)" "dropWhile isspace (ds @ rest) \<noteq> []"
proof -
  have hd: "isdigit (hd ds)" "hd (ds @ rest) = hd ds" using assms(1,2) by auto
  have dw: "dropWhile isspace (ds @ rest) = ds @ rest"
    using hd assms(1) isdigit_facts(1) by (cases ds) auto
  have "takeWhile isdigit (ds @ rest) = ds" using assms(2,3) by (cases rest) (auto simp: takeWhile_append)
  with dw hd assms(1) isdigit_facts show "num_field (ds @ rest) = (False, ds)"
    by (auto simp: num_field_def)
  show "dropWhile isspace (ds @ rest) \<noteq> []" using dw assms(1) by simp
qed

lemma parse_u64_to_string:
  assumes "n < 2 ^ 64"
  shows "parse_u64 (to_string n) = Some (of_nat n)"
  using num_field_digits [of "to_string n" "[]"] to_string_digits [of _ n] assms
  by (simp add: parse_u64_def extract_u64_def dec_value_to_string)

section \<open>Components\<close>

lemma takeWhile_neq: "d \<notin> set a \<Longrightarrow> takeWhile (\<lambda>c. c \<noteq> d) (a @ d # rest) = a"
  by (induction a) auto

lemma getlines_Nil [simp]: "getlines d [] = []"
  by (simp add: getlines.simps)

lemma getlines_cons: "d \<notin> set a \<Longrightarrow> getlines d (a @ d # rest) = a # getlines d rest"
  by (subst getlines.simps) (simp add: takeWhile_neq)

lemma getlines_last:
  assumes "d \<notin> set a" "a \<noteq> []"
  shows "getlines d a = [a]"
proof -
  have tw: "takeWhile (\<lambda>c. c \<noteq> d) a = a" using assms(1) by (auto simp: takeWhile_eq_all_conv)
  show ?thesis using assms(2) by (subst getlines.simps) (simp only: tw Let_def, simp)
qed

lemma split_cons: "d \<notin> set a \<Longrightarrow> a \<noteq> [] \<Longrightarrow> split (a @ d # rest) d = a # split rest d"
  by (simp add: split_def getlines_cons)

lemma split_last: "d \<notin> set a \<Longrightarrow> a \<noteq> [] \<Longrightarrow> split a d = [a]"
  by (simp add: split_def getlines_last)

lemma filter_delim [simp]: "d \<notin> set a \<Longrightarrow> filter (\<lambda>c. c = d) a = []"
  by (induction a) auto

lemma getlines_mem: "x \<in> set (getlines d s) \<Longrightarrow> d \<notin> set x"
proof (induction d s rule: getlines.induct)
  case (1 d s)
  then show ?case
    by (subst (asm) getlines.simps) (auto simp: Let_def dest: set_takeWhileD split: if_splits)
qed

lemma range_loop_ends:
  assumes "a \<le> b" "b < 2 ^ 64 - 1"
  shows "range_loop (of_nat a) (of_nat b) acc = Some (acc @ map of_nat [a..<b + 1])"
  using assms
proof (induction "b - a" arbitrary: a acc)
  case 0
  have "\<not> (of_nat (a + 1) :: u64) \<le> of_nat b"
    using 0 unat_of_nat_64 [of "a + 1"] unat_of_nat_64 [of b] by (simp only: word_le_nat_alt)
  then show ?case using 0 by (subst range_loop.simps, subst range_loop.simps) (simp add: add.commute)
next
  case (Suc k)
  have "(of_nat a :: u64) \<le> of_nat b" using Suc.prems by (simp add: word_le_nat_alt unat_of_nat_64)
  then have "range_loop (of_nat a) (of_nat b) acc = range_loop (of_nat (a + 1)) (of_nat b) (acc @ [of_nat a])"
    by (subst range_loop.simps) (simp add: add.commute)
  also have "\<dots> = Some ((acc @ [of_nat a]) @ map of_nat [a + 1..<b + 1])"
    by (rule Suc.hyps(1)) (use Suc in auto)
  finally show ?case using Suc.prems by (simp add: upt_conv_Cons del: upt_Suc)
qed

lemma range_loop_max: "range_loop i (- 1) acc = None"
proof -
  have "fin \<noteq> - 1" if "range_loop i fin acc = Some r" for i fin acc r
    by (rule range_loop.raw_induct [where P = "\<lambda>i fin acc r. fin \<noteq> - 1", OF _ that]) (auto split: if_splits)
  then show ?thesis by (cases "range_loop i (- 1) acc") auto
qed

section \<open>Properties\<close>

text \<open>
  (C22) A number printed by \<open>std::to_string\<close> is parsed back to itself, alone and in the format
  \<open>min:max:policy\<close> of the polling periods, where every component is then reported as present.
\<close>

theorem parse_roundtrip:
  assumes "a < 2 ^ 64" "b < 2 ^ 64" "policy \<noteq> []" "CHR '':'' \<notin> set policy"
  shows "parse_u64 (to_string a) = Some (of_nat a) \<and>
    parse3 parse_u64 parse_u64 parse_string (to_string a @ '':'' @ to_string b @ '':'' @ policy)
      v1 v2 v3 (CHR '':'') = Some (True, True, True, of_nat a, of_nat b, policy)"
proof -
  have nc: "CHR '':'' \<notin> set (to_string n)" for n
    using to_string_digits isdigit_facts(4) by blast
  have "split (to_string a @ CHR '':'' # to_string b @ CHR '':'' # policy) (CHR '':'') =
      [to_string a, to_string b, policy]"
    using nc assms(3,4) by (simp add: split_cons split_last)
  moreover have "length (filter (\<lambda>c. c = CHR '':'')
      (to_string a @ CHR '':'' # to_string b @ CHR '':'' # policy)) = 2"
    using nc assms(4) by simp
  ultimately show ?thesis
    using assms(1,2) by (simp add: parse3_def parse_u64_to_string parse_string_def)
qed

theorem parse_roundtrip_witness:
  "parse_u64 (to_string 50) = Some 50 \<and>
   parse3 parse_u64 parse_u64 parse_string (to_string 50 @ '':'' @ to_string 1000 @ '':'' @ ''slowstart'')
     0 0 [] (CHR '':'') = Some (True, True, True, 50, 1000, ''slowstart'')"
  using parse_roundtrip [of 50 1000 "''slowstart''" 0 0 "[]"] by simp

text \<open>
  (C23) A range of a list of indices is expanded to all its numbers, in order, when its end is below
  the largest 64-bit number. When its end is that number the loop never returns.
\<close>

theorem parseIndices_range:
  assumes "a \<le> b" "b < 2 ^ 64"
  shows "parseIndices (to_string a @ ''-'' @ to_string b) acc =
    (if b = 2 ^ 64 - 1 then None else Some (Some (acc @ map of_nat [a..<b + 1])))"
proof -
  let ?s = "to_string a @ CHR ''-'' # to_string b"
  have nd: "CHR ''-'' \<notin> set (to_string n)" "CHR '','' \<notin> set (to_string n)" for n
    using to_string_digits isdigit_facts(2,5) by blast+
  have s: "split ?s (CHR '','') = [?s]" "split ?s (CHR ''-'') = [to_string a, to_string b]"
    using nd by (simp_all add: split_cons split_last)
  define x y :: u64 where "x = of_nat a" and "y = of_nat b"
  have p: "parse_u64 (to_string a) = Some x" "parse_u64 (to_string b) = Some y"
    using assms by (simp_all add: x_def y_def parse_u64_to_string)
  have le: "\<not> y < x"
    using assms by (simp add: word_less_nat_alt unat_of_nat_64 x_def y_def)
  have max: "18446744073709551615 = (- 1 :: u64)" by simp
  have "range_loop x y acc = (if b = 2 ^ 64 - 1 then None else Some (acc @ map of_nat [a..<b + 1]))"
    using range_loop_ends [OF assms(1), of acc] range_loop_max [of "of_nat a" acc] assms(2)
    by (cases "b = 2 ^ 64 - 1") (auto simp: max x_def y_def)
  then show ?thesis using s p le by (simp add: parseIndices_def parse_range_def)
qed

theorem parseIndices_range_witness:
  "parseIndices (to_string 5 @ ''-'' @ to_string 9) [2] = Some (Some [2, 5, 6, 7, 8, 9])"
  using parseIndices_range [of 5 9 "[2]"] by (simp add: upt_rec)

end
