(* ===== verification/Request_Testing.thy ===== *)
theory Request_Testing
  imports Mpi_Interface String_Support
begin

text \<open>
  The tests of requests of \<open>TicketManager\<close> (src/src/common/TicketManager.hpp): the option that selects
  the MPI functions, and \<open>internalTestRequests\<close>, which tests an array of requests with one call of
  \<open>MPI_Testsome\<close>, repeated calls of \<open>MPI_Testany\<close>, or a call of \<open>MPI_Test\<close> for each.

  The result is the list of the completed requests, each with its index in the array and its
  status, in the order in which the source writes \<open>indices\<close> and \<open>statuses\<close>; the array of requests as
  MPI leaves it; and the state of MPI.
\<close>

datatype TestingApproach = Approach_Test | Approach_TestSome | Approach_TestAny | Approach_None

definition parseTestingOption ::
    "(string \<Rightarrow> string option) \<Rightarrow> string \<Rightarrow> TestingApproach \<Rightarrow> TestingApproach result" where
  "parseTestingOption getenv name defaultValue =
     (let value = fst (EnvironmentVariable getenv parse_string Str name []) in
      if \<not> ev_isPresent value then Inr defaultValue
      else if ev_value value = ''testsome'' then Inr Approach_TestSome
      else if ev_value value = ''testany'' then Inr Approach_TestAny
      else if ev_value value = ''test'' then Inr Approach_Test
      else if ev_value value = ''none'' then Inr Approach_None
      else fail [Str name, Str '' has invalid value''])"

function testany_loop ::
    "'m mpi \<Rightarrow> nat \<Rightarrow> request list \<Rightarrow> nat \<Rightarrow> 'm \<Rightarrow>
     ((nat \<times> mpi_status) list \<times> request list \<times> 'm) result" where
  "testany_loop mpi n reqs processed m =
     (if processed < n then
        rbind (interface_testany mpi (drop processed reqs) m) (\<lambda>(index, rest, st, m).
        let reqs = take processed reqs @ rest in
        case index of
          None \<Rightarrow> Inr ([], reqs, m)
        | Some i \<Rightarrow>
            rbind (testany_loop mpi n reqs (i + processed + 1) m) (\<lambda>(cs, reqs, m).
            Inr ((i + processed, st) # cs, reqs, m)))
      else Inr ([], reqs, m))"
  by pat_completeness auto
termination
  by (relation "measure (\<lambda>(mpi, n, reqs, processed, m). n - processed)") auto

declare testany_loop.simps [simp del]

fun test_loop ::
    "'m mpi \<Rightarrow> nat \<Rightarrow> request list \<Rightarrow> 'm \<Rightarrow>
     ((nat \<times> mpi_status) list \<times> request list \<times> 'm) result" where
  "test_loop mpi r [] m = Inr ([], [], m)"
| "test_loop mpi r (req # reqs) m =
     rbind (interface_test mpi req m) (\<lambda>(completed, req, st, m).
     rbind (test_loop mpi (r + 1) reqs m) (\<lambda>(cs, reqs, m).
     Inr ((if completed then (r, st) # cs else cs), req # reqs, m)))"

definition internalTestRequests ::
    "'m mpi \<Rightarrow> TestingApproach \<Rightarrow> request list \<Rightarrow> 'm \<Rightarrow>
     ((nat \<times> mpi_status) list \<times> request list \<times> 'm) result" where
  "internalTestRequests mpi approach reqs m =
     (case approach of
        Approach_TestSome \<Rightarrow> interface_testsome mpi reqs m
      | Approach_TestAny \<Rightarrow> testany_loop mpi (length reqs) reqs 0 m
      | Approach_Test \<Rightarrow> test_loop mpi 0 reqs m
      | Approach_None \<Rightarrow> Inr ([], reqs, m))"

section \<open>What a test reports\<close>

text \<open>
  The documented behaviour of the MPI function that the approach uses, and the common contract of
  the approaches: ascending indices of the array, each once, and no other request changed.
\<close>

definition approach_ok :: "'m mpi \<Rightarrow> TestingApproach \<Rightarrow> bool" where
  "approach_ok mpi approach \<longleftrightarrow>
     (case approach of
        Approach_TestSome \<Rightarrow> mpi_testsome_ok mpi
      | Approach_TestAny \<Rightarrow> mpi_testany_ok mpi
      | Approach_Test \<Rightarrow> mpi_test_ok mpi
      | Approach_None \<Rightarrow> True)"

definition reports :: "(nat \<times> mpi_status) list \<Rightarrow> request list \<Rightarrow> request list \<Rightarrow> bool" where
  "reports cs reqs reqs' \<longleftrightarrow> sorted_wrt (<) (map fst cs) \<and> (\<forall>i \<in> set (map fst cs). i < length reqs) \<and>
     unchanged_except (set (map fst cs)) reqs reqs'"

lemma testsome_reports:
  assumes "mpi_testsome_ok mpi" "reqs \<noteq> []" "MPI_REQUEST_NULL mpi \<notin> set reqs"
  shows "\<exists>cs reqs' m'. interface_testsome mpi reqs m = Inr (cs, reqs', m') \<and> reports cs reqs reqs'"
proof -
  have "case MPI_Testsome mpi reqs m of ((err, reqs', out), m') \<Rightarrow>
      err = 0 \<and> (\<exists>cs. out = Some cs \<and> sorted_wrt (<) (map fst cs) \<and>
        (\<forall>i \<in> set (map fst cs). i < length reqs) \<and> unchanged_except (set (map fst cs)) reqs reqs')"
    by (rule assms(1) [unfolded mpi_testsome_ok_def, THEN spec, THEN spec, THEN mp]) (use assms in simp)
  then show ?thesis by (auto simp: interface_testsome_def reports_def split: prod.splits)
qed

lemma testany_cases:
  assumes "mpi_testany_ok mpi" "reqs \<noteq> []" "MPI_REQUEST_NULL mpi \<notin> set reqs"
  obtains st m' where "interface_testany mpi reqs m = Inr (None, reqs, st, m')"
  | i reqs' st m' where "interface_testany mpi reqs m = Inr (Some i, reqs', st, m')"
      "i < length reqs" "unchanged_except {i} reqs reqs'"
proof -
  obtain out m' where o1: "MPI_Testany mpi reqs m = (out, m')" by fastforce
  obtain err reqs' index completed st where "out = (err, reqs', index, completed, st)"
    by (rule prod_cases5)
  with o1 have t: "MPI_Testany mpi reqs m = ((err, reqs', index, completed, st), m')" by simp
  have "case MPI_Testany mpi reqs m of ((err, reqs', index, completed, st), m') \<Rightarrow>
      err = 0 \<and> (if completed then \<exists>i < length reqs. index = Some i \<and> unchanged_except {i} reqs reqs'
                 else reqs' = reqs)"
    by (rule assms(1) [unfolded mpi_testany_ok_def, THEN spec, THEN spec, THEN mp]) (use assms in simp)
  with t that show thesis by (cases completed) (auto simp: interface_testany_def)
qed

lemma testany_loop_reports:
  assumes ok: "mpi_testany_ok mpi" and "length reqs = n" "processed \<le> n"
    and "MPI_REQUEST_NULL mpi \<notin> set (drop processed reqs)"
  shows "\<exists>cs reqs' m'. testany_loop mpi n reqs processed m = Inr (cs, reqs', m') \<and>
    reports cs reqs reqs' \<and> (\<forall>i \<in> set (map fst cs). processed \<le> i)"
  using assms(2-4)
proof (induction "n - processed" arbitrary: reqs processed m rule: less_induct)
  case less
  show ?case
  proof (cases "processed < n")
    case False
    then show ?thesis by (subst testany_loop.simps) (auto simp: reports_def)
  next
    case True
    then have ne: "drop processed reqs \<noteq> []" using less.prems by simp
    show ?thesis
    proof (cases rule: testany_cases [OF ok ne less.prems(3), of m])
      case (1 st m')
      with True show ?thesis by (subst testany_loop.simps) (auto simp: reports_def)
    next
      case (2 i rest st m')
      let ?reqs = "take processed reqs @ rest" and ?p = "i + processed + 1"
      have len: "length rest = n - processed" using 2 less.prems(1) by (simp add: unchanged_except_def)
      have unch: "unchanged_except {i + processed} reqs ?reqs"
        unfolding unchanged_except_def
      proof (intro conjI allI impI)
        show "length ?reqs = length reqs" using len less.prems(1,2) by simp
        fix j assume j: "j < length reqs" "j \<notin> {i + processed}"
        show "?reqs ! j = reqs ! j"
        proof (cases "j < processed")
          case True
          then show ?thesis using j(1) by (simp add: nth_append)
        next
          case False
          then have "rest ! (j - processed) = drop processed reqs ! (j - processed)"
            using 2(3) j less.prems(1) by (intro unchanged_except_nth) auto
          with False j(1) less.prems(1,2) show ?thesis by (simp add: nth_append)
        qed
      qed
      have "MPI_REQUEST_NULL mpi \<notin> set (drop ?p ?reqs)"
      proof -
        have "drop ?p ?reqs = drop ?p reqs"
        proof (rule nth_equalityI)
          show "length (drop ?p ?reqs) = length (drop ?p reqs)" using len less.prems(1,2) by simp
          fix j assume "j < length (drop ?p ?reqs)"
          then have j: "?p + j < length ?reqs" "?p + j < length reqs" using len less.prems(1,2) by auto
          then have "?reqs ! (?p + j) = reqs ! (?p + j)" by (intro unchanged_except_nth [OF unch]) auto
          moreover have "?p \<le> length ?reqs" "?p \<le> length reqs" using j by linarith+
          ultimately show "drop ?p ?reqs ! j = drop ?p reqs ! j" by (simp only: nth_drop)
        qed
        moreover have "set (drop ?p reqs) \<subseteq> set (drop processed reqs)"
          by (rule set_drop_subset_set_drop) simp
        ultimately show ?thesis using less.prems(3) by auto
      qed
      moreover have "?p \<le> n" "n - ?p < n - processed" "length ?reqs = n"
        using 2(2) len less.prems(1,2) True by auto
      ultimately have "\<exists>cs reqs' m''. testany_loop mpi n ?reqs ?p m' = Inr (cs, reqs', m'') \<and>
          reports cs ?reqs reqs' \<and> (\<forall>j \<in> set (map fst cs). ?p \<le> j)"
        by (intro less.hyps)
      then obtain cs reqs' m'' where r: "testany_loop mpi n ?reqs ?p m' = Inr (cs, reqs', m'')"
        "reports cs ?reqs reqs'" "\<forall>j \<in> set (map fst cs). ?p \<le> j" by blast
      have "testany_loop mpi n reqs processed m = Inr ((i + processed, st) # cs, reqs', m'')"
        using True 2(1) r(1) by (subst testany_loop.simps) simp
      moreover have "reports ((i + processed, st) # cs) reqs reqs'"
        using r(2,3) unch 2(2) less.prems(1,2) len
        by (auto simp: reports_def unchanged_except_def Suc_le_eq)
      ultimately show ?thesis using r(3) by auto
    qed
  qed
qed

lemma test_loop_reports:
  assumes ok: "mpi_test_ok mpi" and "MPI_REQUEST_NULL mpi \<notin> set reqs"
  shows "\<exists>cs reqs' m'. test_loop mpi r reqs m = Inr (cs, reqs', m') \<and> sorted_wrt (<) (map fst cs) \<and>
    (\<forall>i \<in> set (map fst cs). r \<le> i \<and> i < r + length reqs) \<and> length reqs' = length reqs \<and>
    (\<forall>j < length reqs. r + j \<notin> set (map fst cs) \<longrightarrow> reqs' ! j = reqs ! j)"
  using assms(2)
proof (induction reqs arbitrary: r m)
  case Nil
  then show ?case by simp
next
  case (Cons req reqs)
  obtain out m1 where o1: "MPI_Test mpi req m = (out, m1)" by fastforce
  obtain err req' completed st where o2: "out = (err, req', completed, st)" by (rule prod_cases4)
  have "case MPI_Test mpi req m of ((err, req', completed, st), m') \<Rightarrow> err = 0 \<and> (\<not> completed \<longrightarrow> req' = req)"
    by (rule ok [unfolded mpi_test_ok_def, THEN spec, THEN spec, THEN mp]) (use Cons.prems in simp)
  then have t: "interface_test mpi req m = Inr (completed, req', st, m1)" "\<not> completed \<Longrightarrow> req' = req"
    using o1 o2 by (auto simp: interface_test_def)
  obtain cs reqs' m2 where r: "test_loop mpi (r + 1) reqs m1 = Inr (cs, reqs', m2)"
    "sorted_wrt (<) (map fst cs)" "\<forall>i \<in> set (map fst cs). r + 1 \<le> i \<and> i < r + 1 + length reqs"
    "length reqs' = length reqs" "\<forall>j < length reqs. r + 1 + j \<notin> set (map fst cs) \<longrightarrow> reqs' ! j = reqs ! j"
    using Cons.IH [of "r + 1" m1] Cons.prems by auto
  let ?cs = "if completed then (r, st) # cs else cs"
  have "(req' # reqs') ! j = (req # reqs) ! j" if "j < length (req # reqs)" "r + j \<notin> set (map fst ?cs)" for j
    using that r(5) t(2) by (cases j) (auto split: if_splits)
  moreover have "test_loop mpi r (req # reqs) m = Inr (?cs, req' # reqs', m2)" using t(1) r(1) by simp
  moreover have "sorted_wrt (<) (map fst ?cs)" using r(2,3) by fastforce
  moreover have "\<forall>i \<in> set (map fst cs). r \<le> i \<and> i < r + length (req # reqs)"
    using r(3) by (metis Suc_eq_plus1 Suc_leD add.assoc add.commute length_Cons)
  then have "\<forall>i \<in> set (map fst ?cs). r \<le> i \<and> i < r + length (req # reqs)" by simp
  ultimately show ?case using r(4) by (intro exI conjI) auto
qed

lemma internalTestRequests_reports:
  assumes "approach_ok mpi approach" "reqs \<noteq> []" "MPI_REQUEST_NULL mpi \<notin> set reqs"
  obtains cs reqs' m' where "internalTestRequests mpi approach reqs m = Inr (cs, reqs', m')"
    "reports cs reqs reqs'"
proof (cases approach)
  case Approach_Test
  then show thesis
    using test_loop_reports [of mpi reqs 0 m] assms that
    by (auto simp: internalTestRequests_def approach_ok_def reports_def unchanged_except_def)
next
  case Approach_TestSome
  then show thesis
    using testsome_reports [of mpi reqs m] assms that
    by (auto simp: internalTestRequests_def approach_ok_def)
next
  case Approach_TestAny
  then show thesis
    using testany_loop_reports [of mpi reqs "length reqs" 0 m] assms that
    by (auto simp: internalTestRequests_def approach_ok_def)
next
  case Approach_None
  then show thesis using that by (auto simp: internalTestRequests_def reports_def)
qed

lemma reports_length: "reports cs reqs reqs' \<Longrightarrow> length reqs' = length reqs"
  by (simp add: reports_def unchanged_except_def)

lemma reports_bound: "reports cs reqs reqs' \<Longrightarrow> length cs \<le> length reqs"
proof -
  assume r: "reports cs reqs reqs'"
  then have "distinct (map fst cs)" "set (map fst cs) \<subseteq> {..<length reqs}"
    by (auto simp: reports_def strict_sorted_iff)
  then show ?thesis
    by (metis card_lessThan card_mono distinct_card finite_lessThan length_map)
qed

section \<open>Properties\<close>


text \<open>
  An MPI library for examples: a request is complete when its handle is even; testing it sets the
  handle to \<open>MPI_REQUEST_NULL\<close>. Its operations get the handles 1, 2, 3, and so on.
\<close>

definition sample_status :: "nat \<Rightarrow> mpi_status" where
  "sample_status r = \<lparr>MPI_SOURCE = 0, MPI_TAG = int r, MPI_ERROR = 0\<rparr>"

definition sample_some :: "request list \<Rightarrow> (nat \<times> mpi_status) list" where
  "sample_some reqs = map (\<lambda>i. (i, sample_status (reqs ! i))) (filter (\<lambda>i. even (reqs ! i)) [0..<length reqs])"

definition sample_mpi :: "nat mpi" where
  "sample_mpi = \<lparr> MPI_REQUEST_NULL = 0, MPI_STATUS_IGNORE = 0, MPI_DATATYPE_NULL = 0, MPI_OP_NULL = 0,
     MPI_Test = (\<lambda>r m. ((0, if even r then 0 else r, even r, sample_status r), m)),
     MPI_Testall = (\<lambda>rs m. ((0, rs, False, []), m)),
     MPI_Testany = (\<lambda>rs m. case sample_some rs of
        [] \<Rightarrow> ((0, rs, None, False, sample_status 0), m)
      | (i, st) # _ \<Rightarrow> ((0, rs[i := 0], Some i, True, st), m)),
     MPI_Testsome = (\<lambda>rs m. ((0, map (\<lambda>r. if even r then 0 else r) rs, Some (sample_some rs)), m)),
     MPI_I = (\<lambda>_ m. ((0, m + 1), m + 1)) \<rparr>"

lemma sample_some_facts:
  shows "sorted_wrt (<) (map fst (sample_some reqs))" "i \<in> set (map fst (sample_some reqs)) \<longleftrightarrow> i < length reqs \<and> even (reqs ! i)"
  by (auto simp: sample_some_def comp_def sorted_wrt_filter)

lemma sample_mpi_consts [simp]: "MPI_REQUEST_NULL sample_mpi = 0" "MPI_STATUS_IGNORE sample_mpi = 0"
  by (simp_all add: sample_mpi_def)

lemma sample_mpi_ok [simp]: "approach_ok sample_mpi approach"
proof -
  have "mpi_testany_ok sample_mpi"
    using sample_some_facts(2)
    by (fastforce simp: mpi_testany_ok_def sample_mpi_def unchanged_except_def split: list.splits)
  then show ?thesis
    using sample_some_facts
    by (cases approach) (auto simp: approach_ok_def mpi_test_ok_def mpi_testsome_ok_def sample_mpi_def
        unchanged_except_def)
qed


end
