(* ===== verification/Prequeue.thy ===== *)
theory Prequeue
  imports Tampi_Prelude
begin

text \<open>
  The contract between the ticket manager and its pre-queues, and the contract of the third-party
  queue \<open>boost::lockfree::spsc_queue\<close>.

  \<open>prequeue\<close> is what \<open>TicketManager::internalCheckOperationQueues\<close> relies on when it pops batches of
  operations: a pop always returns, it returns as many elements as asked for when there are that
  many and all of them otherwise, and no element is lost or duplicated.
\<close>

section \<open>The contract of a pre-queue\<close>

locale prequeue =
  fixes invar :: "'s \<Rightarrow> bool"
    and elems :: "'s \<Rightarrow> 'a multiset"
    and pop :: "'s \<Rightarrow> nat \<Rightarrow> ('a list \<times> 's) run"
  assumes pop_returns: "invar s \<Longrightarrow>
      \<exists>xs s'. pop s n = ret (xs, s') \<and> invar s' \<and> mset xs + elems s' = elems s \<and>
        length xs = min n (size (elems s))"
begin

lemma pop_cases:
  assumes "invar s"
  obtains xs s' where "pop s n = ret (xs, s')" "invar s'" "mset xs + elems s' = elems s"
    "length xs = min n (size (elems s))" "length xs \<le> n"
  using pop_returns [OF assms, of n] by auto

lemma pop_result:
  assumes "invar s" "pop s n = ret (xs, s')"
  shows "invar s'" "mset xs + elems s' = elems s" "length xs = min n (size (elems s))"
  using pop_returns [OF assms(1), of n] assms(2) by auto

lemma pop_empty_iff:
  assumes "invar s" "pop s n = ret (xs, s')" "0 < n"
  shows "xs = [] \<longleftrightarrow> elems s = {#}"
proof -
  have "xs = [] \<longleftrightarrow> min n (size (elems s)) = 0"
    using pop_result(3) [OF assms(1,2)] by (metis length_0_conv)
  with assms(3) show ?thesis by (auto simp: min_def split: if_splits)
qed

lemma pop_size:
  assumes "invar s" "pop s n = ret (xs, s')"
  shows "size (elems s') + length xs = size (elems s)"
  using pop_result(2) [OF assms] by (metis size_mset size_union add.commute)

end

section \<open>The single-producer single-consumer queue of Boost\<close>

text \<open>
  \<open>boost::lockfree::spsc_queue\<close> is third-party code: a parameter. The last two components of the record
  are not functions of Boost but observations, in which its documented behaviour is stated:
  the elements in the queue, oldest first, and the bound of their number.
\<close>

record ('q, 'a) spsc =
  spsc_push :: "'a list \<Rightarrow> 'q \<Rightarrow> nat \<times> 'q"
  spsc_pop :: "nat \<Rightarrow> 'q \<Rightarrow> 'a list \<times> 'q"
  spsc_consume_all :: "'q \<Rightarrow> 'a list \<times> 'q"
  spsc_read_available :: "'q \<Rightarrow> nat"
  spsc_contents :: "'q \<Rightarrow> 'a list"
  spsc_capacity :: "'q \<Rightarrow> nat"

text \<open>
  A push adds as many elements as fit, in order; a pop takes the oldest ones; \<open>consume_all\<close> calls the
  functor on every element, oldest first.
\<close>

definition spsc_ok :: "('q, 'a) spsc \<Rightarrow> bool" where
  "spsc_ok B \<longleftrightarrow>
     (\<forall>q. length (spsc_contents B q) \<le> spsc_capacity B q) \<and>
     (\<forall>xs q. case spsc_push B xs q of (k, q') \<Rightarrow>
        k = min (length xs) (spsc_capacity B q - length (spsc_contents B q)) \<and>
        spsc_contents B q' = spsc_contents B q @ take k xs \<and> spsc_capacity B q' = spsc_capacity B q) \<and>
     (\<forall>n q. case spsc_pop B n q of (xs, q') \<Rightarrow>
        xs = take n (spsc_contents B q) \<and> spsc_contents B q' = drop n (spsc_contents B q) \<and>
        spsc_capacity B q' = spsc_capacity B q) \<and>
     (\<forall>q. case spsc_consume_all B q of (xs, q') \<Rightarrow>
        xs = spsc_contents B q \<and> spsc_contents B q' = [] \<and> spsc_capacity B q' = spsc_capacity B q) \<and>
     (\<forall>q. spsc_read_available B q = length (spsc_contents B q))"

lemma spsc_push_ok:
  assumes "spsc_ok B" "spsc_push B xs q = (k, q')"
  shows "k = min (length xs) (spsc_capacity B q - length (spsc_contents B q))"
    "spsc_contents B q' = spsc_contents B q @ take k xs" "spsc_capacity B q' = spsc_capacity B q"
  using assms by (auto simp: spsc_ok_def split: prod.splits)

lemma spsc_push_room:
  assumes "spsc_ok B" "length (spsc_contents B q) + length xs \<le> spsc_capacity B q"
  obtains q' where "spsc_push B xs q = (length xs, q')"
    "spsc_contents B q' = spsc_contents B q @ xs" "spsc_capacity B q' = spsc_capacity B q"
proof -
  obtain k q' where p: "spsc_push B xs q = (k, q')" by fastforce
  then have "k = length xs" using spsc_push_ok(1) [OF assms(1) p] assms(2) by simp
  with p spsc_push_ok [OF assms(1) p] show thesis by (intro that [of q']) auto
qed

lemma spsc_pop_ok:
  assumes "spsc_ok B"
  obtains q' where "spsc_pop B n q = (take n (spsc_contents B q), q')"
    "spsc_contents B q' = drop n (spsc_contents B q)" "spsc_capacity B q' = spsc_capacity B q"
proof -
  obtain xs q' where p: "spsc_pop B n q = (xs, q')" by fastforce
  with assms have "xs = take n (spsc_contents B q)" "spsc_contents B q' = drop n (spsc_contents B q)"
    "spsc_capacity B q' = spsc_capacity B q"
    unfolding spsc_ok_def by (metis (mono_tags, lifting) case_prod_conv)+
  with p show thesis by (intro that [of q']) auto
qed

lemma spsc_consume_all_ok:
  assumes "spsc_ok B"
  obtains q' where "spsc_consume_all B q = (spsc_contents B q, q')" "spsc_contents B q' = []"
    "spsc_capacity B q' = spsc_capacity B q"
proof -
  obtain xs q' where p: "spsc_consume_all B q = (xs, q')" by fastforce
  with assms have "xs = spsc_contents B q" "spsc_contents B q' = []"
    "spsc_capacity B q' = spsc_capacity B q"
    unfolding spsc_ok_def by (metis (mono_tags, lifting) case_prod_conv)+
  with p show thesis by (intro that [of q']) auto
qed

lemma spsc_read_available_ok: "spsc_ok B \<Longrightarrow> spsc_read_available B q = length (spsc_contents B q)"
  by (simp add: spsc_ok_def)

lemma spsc_bound: "spsc_ok B \<Longrightarrow> length (spsc_contents B q) \<le> spsc_capacity B q"
  by (simp add: spsc_ok_def)

text \<open>A bounded list meets the contract, so the contract can be met.\<close>

definition list_spsc :: "nat \<Rightarrow> ('a list, 'a) spsc" where
  "list_spsc n = \<lparr>
     spsc_push = (\<lambda>xs q. let k = min (length xs) (n - length (take n q)) in (k, take n q @ take k xs)),
     spsc_pop = (\<lambda>k q. (take k (take n q), drop k (take n q))),
     spsc_consume_all = (\<lambda>q. (take n q, [])),
     spsc_read_available = (\<lambda>q. length (take n q)),
     spsc_contents = take n, spsc_capacity = (\<lambda>_. n) \<rparr>"

lemma list_spsc_ok: "spsc_ok (list_spsc n)"
  by (auto simp: spsc_ok_def list_spsc_def Let_def)

end
