(* ===== verification/Completion_Manager.thy ===== *)
theory Completion_Manager
  imports Prequeue Task_Context
begin

text \<open>
  \<open>CompletionManager\<close> (src/src/common/CompletionManager.hpp): when it is enabled, the polling task does
  not notify the completions itself but transfers the task contexts, through a Boost queue (the
  parameter \<open>C\<close>), to a second polling task that notifies them.
\<close>

definition transfer :: "('c, TaskContext) spsc \<Rightarrow> 'c \<Rightarrow> TaskContext list \<Rightarrow> 'c result" where
  "transfer C q contexts =
     (let (pushed, q') = spsc_push C contexts q in
      if pushed \<noteq> length contexts then fail [Str ''Failed to push task contexts''] else Inr q')"

fun complete_contexts :: "alpi \<Rightarrow> alpi_log \<Rightarrow> TaskContext list \<Rightarrow> alpi_log result" where
  "complete_contexts rt h [] = Inr h"
| "complete_contexts rt h (tc # tcs) =
     rbind (completeEvents rt h tc 1 True) (\<lambda>h. complete_contexts rt h tcs)"

definition process_completions ::
    "('c, TaskContext) spsc \<Rightarrow> alpi \<Rightarrow> alpi_log \<Rightarrow> 'c \<Rightarrow> (nat \<times> 'c \<times> alpi_log) result" where
  "process_completions C rt h q =
     (if spsc_read_available C q = 0 then Inr (0, q, h)
      else let (contexts, q') = spsc_consume_all C q in
        rbind (complete_contexts rt h contexts) (\<lambda>h. Inr (length contexts, q', h)))"

lemma complete_contexts_ok:
  "rt_ok rt \<Longrightarrow> complete_contexts rt h tcs = Inr (h @ map completion_call tcs)"
  by (induction tcs arbitrary: h) (auto simp: completeEvents_ok)

lemma transfer_room:
  assumes "spsc_ok C" "length (spsc_contents C q) + length tcs \<le> spsc_capacity C q"
  obtains q' where "transfer C q tcs = Inr q'" "spsc_contents C q' = spsc_contents C q @ tcs"
    "spsc_capacity C q' = spsc_capacity C q"
proof -
  obtain q' where "spsc_push C tcs q = (length tcs, q')"
    "spsc_contents C q' = spsc_contents C q @ tcs" "spsc_capacity C q' = spsc_capacity C q"
    by (rule spsc_push_room [OF assms])
  then show thesis by (intro that [of q']) (auto simp: transfer_def)
qed

lemma transfer_full:
  assumes "spsc_ok C" "spsc_capacity C q < length (spsc_contents C q) + length tcs"
  shows "transfer C q tcs = fail [Str ''Failed to push task contexts'']"
proof -
  obtain k q' where p: "spsc_push C tcs q = (k, q')" by fastforce
  have "k \<noteq> length tcs"
    using spsc_push_ok(1) [OF assms(1) p] assms(2) spsc_bound [OF assms(1), of q] by auto
  with p show ?thesis by (simp add: transfer_def)
qed

lemma process_completions_queue:
  assumes "spsc_ok C" "rt_ok rt"
  shows "\<exists>q'. process_completions C rt h q =
      Inr (length (spsc_contents C q), q', h @ map completion_call (spsc_contents C q)) \<and>
    spsc_contents C q' = []"
proof (cases "spsc_contents C q = []")
  case True
  then show ?thesis
    using spsc_read_available_ok [OF assms(1), of q] by (simp add: process_completions_def)
next
  case False
  obtain q' where "spsc_consume_all C q = (spsc_contents C q, q')" "spsc_contents C q' = []"
    by (rule spsc_consume_all_ok [OF assms(1)])
  with False show ?thesis
    using spsc_read_available_ok [OF assms(1), of q] complete_contexts_ok [OF assms(2)]
    by (simp add: process_completions_def)
qed

end
