(* ===== verification/Double.thy ===== *)
theory Double
  imports Tampi_Prelude "HOL-Library.Log_Nat"
begin

text \<open>
  The \<open>double\<close> arithmetic of the source: a finite double is a rational number, and the result of an
  operation is the exact result rounded to the nearest number with a significand of 53 bits, ties
  to even, as IEEE 754 prescribes. The source never gets near the bounds of the exponent (it
  computes with periods in microseconds and times in milliseconds), so the exponent is not bounded.

  What the controllers rely on is the contract \<open>rounding\<close>: rounding is monotone and leaves numbers
  with a short significand alone.
\<close>

section \<open>Rounding to 53 bits\<close>

type_synonym double = rat

definition ilog2 :: "rat \<Rightarrow> int" where
  "ilog2 x = (let (p, q) = quotient_of x; e = bitlen p - bitlen q in if 2 powi e \<le> x then e else e - 1)"

definition round_even :: "rat \<Rightarrow> int" where
  "round_even y = (let n = \<lfloor>y\<rfloor>; d = y - of_int n in
     if d < 1/2 then n else if d > 1/2 then n + 1 else if even n then n else n + 1)"

definition fl_pos :: "rat \<Rightarrow> rat" where
  "fl_pos x = (let u = 2 powi (ilog2 x - 52) in of_int (round_even (x / u)) * u)"

definition fl :: "rat \<Rightarrow> double" where
  "fl x = (if x = 0 then 0 else if x < 0 then - fl_pos (- x) else fl_pos x)"

definition dadd :: "double \<Rightarrow> double \<Rightarrow> double" where "dadd x y = fl (x + y)"
definition dsub :: "double \<Rightarrow> double \<Rightarrow> double" where "dsub x y = fl (x - y)"
definition dmul :: "double \<Rightarrow> double \<Rightarrow> double" where "dmul x y = fl (x * y)"
definition ddiv :: "double \<Rightarrow> double \<Rightarrow> double" where "ddiv x y = fl (x / y)"

text \<open>The conversions between doubles and unsigned integers.\<close>

definition double_of_u64 :: "u64 \<Rightarrow> double" where "double_of_u64 n = fl (of_nat (unat n))"
definition u64_of_double :: "double \<Rightarrow> u64" where "u64_of_double x = of_int \<lfloor>x\<rfloor>"

section \<open>The contract\<close>

definition short :: "rat \<Rightarrow> bool" where
  "short x \<longleftrightarrow> (\<exists>m k. x = of_int m * 2 powi k \<and> \<bar>m\<bar> < 2 ^ 53)"

locale rounding =
  fixes rnd :: "rat \<Rightarrow> rat"
  assumes rnd_mono: "x \<le> y \<Longrightarrow> rnd x \<le> rnd y"
    and rnd_short: "short x \<Longrightarrow> rnd x = x"
begin

lemma rnd_ge: "short a \<Longrightarrow> a \<le> x \<Longrightarrow> a \<le> rnd x"
  using rnd_mono [of a x] by (simp add: rnd_short)

lemma rnd_le: "short b \<Longrightarrow> x \<le> b \<Longrightarrow> rnd x \<le> b"
  using rnd_mono [of x b] by (simp add: rnd_short)

end

lemma short_int: "\<bar>m\<bar> < 2 ^ 53 \<Longrightarrow> short (of_int m)"
  unfolding short_def by (intro exI [of _ m] exI [of _ 0]) simp

lemma short_nat: "n < 2 ^ 53 \<Longrightarrow> short (of_nat n)"
  using short_int [of "int n"] by simp

lemma short_half: "\<bar>m\<bar> < 2 ^ 53 \<Longrightarrow> short (of_int m / 2)"
  unfolding short_def by (intro exI [of _ m] exI [of _ "-1"]) (simp add: power_int_minus)

lemma short_numeral [simp]: "short 0" "short 1" "short (3/2)" "short 2" "short 10"
  using short_int [of 0] short_int [of 1] short_half [of 3] short_int [of 2] short_int [of 10] by auto

section \<open>The rounding of the source meets the contract\<close>

lemma power_int_2_pos [simp]: "(0::rat) < 2 powi k"
  by (simp add: zero_less_power_int)

lemma ilog2_bounds:
  assumes "0 < x"
  shows "2 powi (ilog2 x) \<le> x" "x < 2 powi (ilog2 x + 1)"
proof -
  obtain p q where pq: "quotient_of x = (p, q)" by fastforce
  have q: "0 < q" using quotient_of_denom_pos [OF pq] .
  have x: "x = of_int p / of_int q" using quotient_of_div [OF pq] .
  have p: "0 < p" using assms q unfolding x by (simp add: zero_less_divide_iff)
  define bp bq where "bp = nat (bitlen p)" and "bq = nat (bitlen q)"
  have B: "bp \<ge> 1" "bq \<ge> 1" "bitlen p = int bp" "bitlen q = int bq"
    using p q bitlen_nonneg by (auto simp: bp_def bq_def bitlen_eq_zero_iff Suc_le_eq bitlen_alt_def)
  have "2 ^ (bp - 1) \<le> p" "p < 2 ^ bp" "2 ^ (bq - 1) \<le> q" "q < 2 ^ bq"
    using bitlen_bounds [OF p] bitlen_bounds [OF q] unfolding B(3,4)
    by (simp_all add: nat_diff_distrib')
  then have r: "(2::rat) ^ (bp - 1) \<le> of_int p" "(of_int p :: rat) < 2 ^ bp"
    "(2::rat) ^ (bq - 1) \<le> of_int q" "(of_int q :: rat) < 2 ^ bq"
    by (metis of_int_le_iff of_int_less_iff of_int_numeral of_int_power)+
  have qpos: "(0::rat) < of_int q" using q by simp
  have lo: "2 powi (int bp - int bq - 1) \<le> x"
  proof -
    have "(2::rat) powi (int bp - int bq - 1) = 2 ^ (bp - 1) / 2 ^ bq"
      using B(1) by (simp add: power_int_diff power_diff)
    also have "\<dots> \<le> of_int p / of_int q" using r qpos p by (intro frac_le) auto
    finally show ?thesis unfolding x .
  qed
  have hi: "x < 2 powi (int bp - int bq + 1)"
  proof -
    have "of_int p / of_int q < (2::rat) ^ bp / 2 ^ (bq - 1)"
      using r qpos p by (intro frac_less) auto
    also have "\<dots> = 2 powi (int bp - int bq + 1)"
      using B(2) by (simp add: power_int_diff power_int_add power_diff)
    finally show ?thesis unfolding x .
  qed
  show "2 powi (ilog2 x) \<le> x" "x < 2 powi (ilog2 x + 1)"
    using lo hi B(3,4) pq by (auto simp: ilog2_def Let_def)
qed

lemma round_even_bounds: "\<lfloor>y\<rfloor> \<le> round_even y" "round_even y \<le> \<lfloor>y\<rfloor> + 1"
  by (auto simp: round_even_def Let_def)

lemma round_even_int [simp]: "round_even (of_int n) = n"
  by (simp add: round_even_def)

lemma round_even_mono:
  assumes "y \<le> y'"
  shows "round_even y \<le> round_even y'"
proof (cases "\<lfloor>y\<rfloor> = \<lfloor>y'\<rfloor>")
  case True
  with assms show ?thesis by (auto simp: round_even_def Let_def)
next
  case False
  then have "\<lfloor>y\<rfloor> + 1 \<le> \<lfloor>y'\<rfloor>" using floor_mono [OF assms] by linarith
  with round_even_bounds show ?thesis by (meson order_trans)
qed

lemma fl_pos_binade:
  assumes "0 < x"
  shows "2 powi (ilog2 x) \<le> fl_pos x" "fl_pos x \<le> 2 powi (ilog2 x + 1)"
proof -
  let ?u = "(2::rat) powi (ilog2 x - 52)"
  have lo: "of_int (2 ^ 52) * ?u = 2 powi (ilog2 x)" and hi: "of_int (2 ^ 53) * ?u = 2 powi (ilog2 x + 1)"
    by (simp_all add: power_int_diff power_int_add)
  have "of_int (2 ^ 52) \<le> x / ?u" "x / ?u \<le> of_int (2 ^ 53)"
    using ilog2_bounds [OF assms] lo hi by (simp_all add: pos_le_divide_eq pos_divide_le_eq)
  then have "2 ^ 52 \<le> round_even (x / ?u)" "round_even (x / ?u) \<le> 2 ^ 53"
    using round_even_mono round_even_int by metis+
  then have "(of_int (2 ^ 52) :: rat) \<le> of_int (round_even (x / ?u))"
    "(of_int (round_even (x / ?u)) :: rat) \<le> of_int (2 ^ 53)"
    by (simp_all only: of_int_le_iff)
  then have "of_int (2 ^ 52) * ?u \<le> fl_pos x" "fl_pos x \<le> of_int (2 ^ 53) * ?u"
    unfolding fl_pos_def Let_def by (simp_all only: mult_right_mono less_imp_le power_int_2_pos)
  then show "2 powi (ilog2 x) \<le> fl_pos x" "fl_pos x \<le> 2 powi (ilog2 x + 1)"
    unfolding lo hi .
qed

lemma powi_le_iff: "(2::rat) powi i \<le> 2 powi j \<longleftrightarrow> i \<le> j"
  using power_int_strict_increasing [of j i "2::rat"] power_int_increasing [of i j "2::rat"]
  by (cases "i \<le> j") auto

lemma fl_pos_mono:
  assumes "0 < x" "x \<le> y"
  shows "fl_pos x \<le> fl_pos y"
proof -
  have y: "0 < y" using assms by simp
  have "2 powi ilog2 x < (2::rat) powi (ilog2 y + 1)"
    using ilog2_bounds [OF assms(1)] ilog2_bounds [OF y] assms(2) by linarith
  then have "\<not> (2::rat) powi (ilog2 y + 1) \<le> 2 powi ilog2 x" by simp
  then have le: "ilog2 x \<le> ilog2 y" by (simp only: powi_le_iff)
  show ?thesis
  proof (cases "ilog2 x = ilog2 y")
    case True
    have "x / 2 powi (ilog2 y - 52) \<le> y / 2 powi (ilog2 y - 52)"
      using assms(2) by (intro divide_right_mono) (simp_all add: less_imp_le)
    then show ?thesis
      using round_even_mono True by (simp add: fl_pos_def Let_def mult_right_mono)
  next
    case False
    then have "ilog2 x + 1 \<le> ilog2 y" using le by simp
    then have "(2::rat) powi (ilog2 x + 1) \<le> 2 powi ilog2 y" by (simp only: powi_le_iff)
    with fl_pos_binade [OF assms(1)] fl_pos_binade [OF y] show ?thesis by linarith
  qed
qed

lemma fl_pos_gt_0: "0 < x \<Longrightarrow> 0 < fl_pos x"
  using fl_pos_binade(1) [of x] power_int_2_pos [of "ilog2 x"] by linarith

lemma fl_mono: "x \<le> y \<Longrightarrow> fl x \<le> fl y"
  using fl_pos_mono [of x y] fl_pos_mono [of "- y" "- x"] fl_pos_gt_0 [of y] fl_pos_gt_0 [of "- x"]
  by (auto simp: fl_def)

lemma fl_pos_short:
  assumes "0 < x" "short x"
  shows "fl_pos x = x"
proof -
  obtain m k where x: "x = of_int m * 2 powi k" and m: "\<bar>m\<bar> < 2 ^ 53"
    using assms(2) by (auto simp: short_def)
  let ?e = "ilog2 x"
  have "(of_int m :: rat) < of_int (2 ^ 53)" using m by (simp only: of_int_less_iff)
  then have "x < of_int (2 ^ 53) * 2 powi k" unfolding x by (intro mult_strict_right_mono) auto
  also have "\<dots> = 2 powi (k + 53)" by (simp add: power_int_add)
  finally have "2 powi ?e < (2::rat) powi (k + 53)" using ilog2_bounds(1) [OF assms(1)] by linarith
  then have "\<not> (2::rat) powi (k + 53) \<le> 2 powi ?e" by simp
  then have e: "0 \<le> k - ?e + 52" by (simp add: powi_le_iff)
  have "x / 2 powi (?e - 52) = of_int m * 2 powi (k - ?e + 52)"
    unfolding x by (simp add: power_int_diff power_int_add field_simps)
  also have "\<dots> = of_int (m * 2 ^ nat (k - ?e + 52))"
    using e by (simp add: power_int_def)
  finally have "of_int (round_even (x / 2 powi (?e - 52))) = x / 2 powi (?e - 52)"
    by (metis round_even_int)
  then show ?thesis by (simp add: fl_pos_def Let_def)
qed

lemma short_uminus: "short x \<Longrightarrow> short (- x)"
  unfolding short_def by (metis abs_minus_cancel mult_minus_left of_int_minus)

lemma fl_short: "short x \<Longrightarrow> fl x = x"
  using fl_pos_short [of x] fl_pos_short [of "- x"] short_uminus [of x]
  by (auto simp: fl_def)

interpretation ieee: rounding fl
  by unfold_locales (auto simp: fl_mono fl_short)

end
