(* ===== verification/Capacity_Ctrl.thy ===== *)
theory Capacity_Ctrl
  imports String_Support Double
begin

text \<open>
  \<open>TicketManagerCapacityCtrl\<close> (src/src/common/TicketManagerCapacityCtrl.hpp) and \<open>Clock::now_ms\<close>
  (src/src/common/util/Clock.hpp): the limit of the requests in flight. It grows when the limit has
  been reached and nothing completed for longer than a timeout, because the requests in flight
  could then be waiting for operations that are still queued.

  The environment of the process is the argument \<open>getenv\<close>. The clock is an argument of \<open>evaluate\<close>, which
  reads it at most once. The values of uninitialised variables are arguments as well.
\<close>

section \<open>Clock\<close>

text \<open>The seconds and nanoseconds that \<open>clock_gettime\<close> stores, converted as the source does.\<close>

definition now_ms :: "nat \<Rightarrow> nat \<Rightarrow> double" where
  "now_ms tv_sec tv_nsec =
     dadd (dmul (fl (of_nat tv_sec)) 1000) (dmul (fl (of_nat tv_nsec)) (fl (1 / 1000000)))"

section \<open>Controller\<close>

abbreviation CapacityLimit :: u64 where "CapacityLimit \<equiv> 32768"

record capacity_ctrl =
  cc_capacityMin :: u64
  cc_capacityMax :: u64
  cc_dynamic :: bool
  cc_capacity :: u64
  cc_timeout :: u64
  cc_saturation :: bool
  cc_saturationBegin :: double

definition parseCapacities :: "string \<Rightarrow> u64 \<Rightarrow> u64 \<Rightarrow> (u64 \<times> u64) result" where
  "parseCapacities policy min0 max0 =
     (let components = getlines (CHR '':'') policy in
      if length components < 1 \<or> length components > 2
      then fail [Str (''TAMPI_CAPACITY has format '' @ apos @ ''<min capacity>[:<max capacity>]'' @ apos)]
      else
        let mn = fst (extract_u64 (components ! 0) min0);
            mx = (if length components > 1 then fst (extract_u64 (components ! 1) max0) else mn)
        in Inr (mn, mx))"

definition TicketManagerCapacityCtrl ::
    "(string \<Rightarrow> string option) \<Rightarrow> u64 \<Rightarrow> u64 \<Rightarrow> double \<Rightarrow> (capacity_ctrl \<times> warnings) result" where
  "TicketManagerCapacityCtrl getenv min0 max0 begin0 =
     (let ctrl = \<lparr>cc_capacityMin = 128, cc_capacityMax = CapacityLimit, cc_dynamic = True,
                  cc_capacity = 128, cc_timeout = 10, cc_saturation = False,
                  cc_saturationBegin = begin0\<rparr>;
          (policy, w1) = EnvironmentVariable getenv parse_string Str ''TAMPI_CAPACITY'' [];
          (timeout, w2) = EnvironmentVariable getenv parse_u64 (\<lambda>n. Num (uint n)) ''TAMPI_CAPACITY_TIMEOUT'' 0
      in
      rbind (if ev_isPresent policy then
               rbind (parseCapacities (ev_value policy) min0 max0) (\<lambda>(mn, mx).
               if mn > mx then fail [Str ''Minimum capacity cannot be greater than maximum'']
               else
                 let capacityMin = min mn CapacityLimit; capacityMax = min mx CapacityLimit in
                 Inr (ctrl\<lparr>cc_capacityMin := capacityMin, cc_capacityMax := capacityMax,
                           cc_capacity := capacityMin, cc_dynamic := (capacityMin \<noteq> capacityMax)\<rparr>))
             else Inr ctrl) (\<lambda>ctrl.
      Inr (if ev_isPresent timeout then ctrl\<lparr>cc_timeout := ev_value timeout\<rparr> else ctrl, w1 @ w2)))"

definition cc_get :: "capacity_ctrl \<Rightarrow> int" where
  "cc_get c = uint (cc_capacity c)"

definition evaluate :: "capacity_ctrl \<Rightarrow> u64 \<Rightarrow> u64 \<Rightarrow> double \<Rightarrow> capacity_ctrl \<times> warnings" where
  "evaluate c pending completed now =
     (if cc_capacity c = cc_capacityMax c then (c, [])
      else if pending = cc_capacity c \<and> completed = 0 then
        if \<not> cc_saturation c then (c\<lparr>cc_saturation := True, cc_saturationBegin := now\<rparr>, [])
        else if dsub now (cc_saturationBegin c) > double_of_u64 (cc_timeout c) then
          let capacity = min (cc_capacity c * 2) (cc_capacityMax c) in
          (c\<lparr>cc_saturation := False, cc_capacity := capacity\<rparr>,
           [[Str ''Increasing capacity to '', Num (uint capacity)]])
        else (c, [])
      else (c\<lparr>cc_saturation := False\<rparr>, []))"

section \<open>Invariant\<close>

definition cc_ok :: "capacity_ctrl \<Rightarrow> bool" where
  "cc_ok c \<longleftrightarrow> cc_capacityMin c \<le> cc_capacity c \<and> cc_capacity c \<le> cc_capacityMax c \<and>
     cc_capacityMax c \<le> CapacityLimit"

lemma u64_double_le:
  assumes "(x :: u64) \<le> 32768"
  shows "x \<le> x * 2" "unat (x * 2) = 2 * unat x"
proof -
  have "unat x \<le> 32768" using assms by (simp add: word_le_nat_alt)
  then show "unat (x * 2) = 2 * unat x" by (simp add: unat_word_ariths)
  then show "x \<le> x * 2" by (simp add: word_le_nat_alt)
qed

lemma evaluate_ok:
  assumes "cc_ok c"
  shows "cc_ok (fst (evaluate c p d now))" "cc_capacity c \<le> cc_capacity (fst (evaluate c p d now))"
    "cc_capacityMax (fst (evaluate c p d now)) = cc_capacityMax c"
    "cc_timeout (fst (evaluate c p d now)) = cc_timeout c"
proof -
  have le: "cc_capacity c \<le> min (cc_capacity c * 2) (cc_capacityMax c)"
    using assms u64_double_le(1) [of "cc_capacity c"] by (auto simp: cc_ok_def)
  then show "cc_ok (fst (evaluate c p d now))" "cc_capacity c \<le> cc_capacity (fst (evaluate c p d now))"
    "cc_capacityMax (fst (evaluate c p d now)) = cc_capacityMax c"
    "cc_timeout (fst (evaluate c p d now)) = cc_timeout c"
    using assms by (auto simp: evaluate_def cc_ok_def Let_def)
qed

lemma cc_get_bounds: "cc_ok c \<Longrightarrow> 0 \<le> cc_get c \<and> cc_get c \<le> 32768"
  by (auto simp: cc_get_def cc_ok_def word_le_def)

lemma TicketManagerCapacityCtrl_ok:
  assumes "TicketManagerCapacityCtrl getenv min0 max0 begin0 = Inr (c, w)"
  shows "cc_ok c \<and> \<not> cc_saturation c \<and> cc_capacity c = cc_capacityMin c"
  using assms
  by (auto simp: TicketManagerCapacityCtrl_def cc_ok_def result_simps Let_def
      not_less min.coboundedI1 split: prod.splits if_splits)

text \<open>A run of the polling task evaluates the capacity once; the arguments of the runs so far.\<close>

definition evaluations :: "capacity_ctrl \<Rightarrow> (u64 \<times> u64 \<times> double) list \<Rightarrow> capacity_ctrl" where
  "evaluations c evs = foldl (\<lambda>c (p, d, t). fst (evaluate c p d t)) c evs"

lemma evaluations_ok:
  "cc_ok c \<Longrightarrow> cc_ok (evaluations c evs) \<and> cc_capacity c \<le> cc_capacity (evaluations c evs) \<and>
     cc_capacityMax (evaluations c evs) = cc_capacityMax c"
  unfolding evaluations_def
proof (induction evs arbitrary: c)
  case (Cons e evs)
  obtain p d t where e: "e = (p, d, t)" by (cases e)
  note ev = evaluate_ok [OF Cons.prems, of p d t]
  from Cons.IH [OF ev(1)] ev(2,3) show ?case unfolding e by (auto intro: order_trans)
qed simp

text \<open>
  A saturation epoch: two runs of the polling task that found the limit reached and nothing
  completed, at the times \<open>t0\<close> and \<open>t1\<close>.
\<close>

definition epoch :: "capacity_ctrl \<Rightarrow> double \<times> double \<Rightarrow> capacity_ctrl" where
  "epoch c = (\<lambda>(t0, t1). evaluations c [(cc_capacity c, 0, t0), (cc_capacity c, 0, t1)])"

lemma epoch_doubles:
  assumes "cc_ok c" "\<not> cc_saturation c" "double_of_u64 (cc_timeout c) < dsub t1 t0"
  defines "c' \<equiv> epoch c (t0, t1)"
  shows "unat (cc_capacity c') = min (2 * unat (cc_capacity c)) (unat (cc_capacityMax c))"
    "\<not> cc_saturation c'" "cc_ok c'" "cc_capacityMax c' = cc_capacityMax c" "cc_timeout c' = cc_timeout c"
proof -
  have le: "cc_capacity c \<le> 32768" "cc_capacity c \<le> cc_capacityMax c"
    using assms(1) by (auto simp: cc_ok_def)
  have eq: "c' = (if cc_capacity c = cc_capacityMax c then c
      else c\<lparr>cc_saturation := False, cc_saturationBegin := t0,
             cc_capacity := min (cc_capacity c * 2) (cc_capacityMax c)\<rparr>)"
    using assms(2,3) by (auto simp: c'_def epoch_def evaluations_def evaluate_def Let_def)
  have "unat (min (cc_capacity c * 2) (cc_capacityMax c)) =
      min (2 * unat (cc_capacity c)) (unat (cc_capacityMax c))"
    using u64_double_le(2) [OF le(1)] by (auto simp: min_def word_le_nat_alt)
  then show "unat (cc_capacity c') = min (2 * unat (cc_capacity c)) (unat (cc_capacityMax c))"
    using le by (auto simp: eq min_def word_le_nat_alt)
  show "\<not> cc_saturation c'" "cc_capacityMax c' = cc_capacityMax c" "cc_timeout c' = cc_timeout c"
    using assms(2) by (auto simp: eq)
  show "cc_ok c'" using evaluations_ok [OF assms(1)] by (simp add: c'_def epoch_def)
qed

lemma min_scale:
  fixes k a m :: nat
  assumes "1 \<le> k"
  shows "min (k * min a m) m = min (k * a) m"
proof (cases "a \<le> m")
  case False
  have "m \<le> k * m" "m \<le> k * a"
    using assms False mult_le_mono [of 1 k m m] mult_le_mono [of 1 k m a] by auto
  with False show ?thesis by simp
qed simp

section \<open>Properties\<close>

text \<open>
  (C20) Whatever \<open>TAMPI_CAPACITY\<close> and \<open>TAMPI_CAPACITY_TIMEOUT\<close> hold, if the controller is constructed then
  after any number of evaluations the capacity lies between the configured minimum and maximum,
  has never decreased, and is at most the size of the arrays of the ticket manager.
\<close>

theorem capacity_bounded:
  assumes "TicketManagerCapacityCtrl getenv min0 max0 begin0 = Inr (c, w)"
  shows "cc_ok (evaluations c evs) \<and> cc_capacity c \<le> cc_capacity (evaluations c evs) \<and>
    0 \<le> cc_get (evaluations c evs) \<and> cc_get (evaluations c evs) \<le> 32768"
  using TicketManagerCapacityCtrl_ok [OF assms] evaluations_ok [of c evs]
    cc_get_bounds [of "evaluations c evs"] by auto

definition sample_env :: "string \<Rightarrow> string option" where
  "sample_env name = (if name = ''TAMPI_CAPACITY'' then Some ''64:512'' else None)"

lemma sample_env_ctrl:
  "TicketManagerCapacityCtrl sample_env 0 0 0 =
     Inr (\<lparr>cc_capacityMin = 64, cc_capacityMax = 512, cc_dynamic = True, cc_capacity = 64,
           cc_timeout = 10, cc_saturation = False, cc_saturationBegin = 0\<rparr>, [])"
proof -
  have g: "getlines (CHR '':'') ''64:512'' = [''64'', ''512'']"
    using getlines_cons [of "CHR '':''" "''64''" "''512''"] by (simp add: getlines_last)
  have n: "extract_u64 ''64'' 0 = (64, True)" "extract_u64 ''512'' 0 = (512, True)"
    by (simp_all add: extract_u64_def num_field_def isspace_def isdigit_def dec_value_def digit_val_def)
  show ?thesis
    by (simp add: TicketManagerCapacityCtrl_def EnvironmentVariable_def sample_env_def parse_string_def
        parseCapacities_def g n Let_def min_def)
qed

theorem capacity_bounded_witness:
  "cc_get (evaluations \<lparr>cc_capacityMin = 64, cc_capacityMax = 512, cc_dynamic = True, cc_capacity = 64,
     cc_timeout = 10, cc_saturation = False, cc_saturationBegin = 0\<rparr> [(64, 0, 1), (64, 0, 12)]) \<le> 32768"
  using capacity_bounded [OF sample_env_ctrl] by simp

text \<open>
  The capacity grows until it can no longer be the cause of a deadlock: after \<open>k\<close> saturation
  epochs longer than the timeout it is the initial capacity doubled \<open>k\<close> times, cut to the maximum. In
  particular it reaches the maximum unless it is zero, and a capacity of zero never grows.
\<close>

lemma capacity_grows:
  assumes "cc_ok c" "\<not> cc_saturation c"
    and "\<forall>(t0, t1) \<in> set epochs. double_of_u64 (cc_timeout c) < dsub t1 t0"
  shows "unat (cc_capacity (foldl epoch c epochs)) =
    min (2 ^ length epochs * unat (cc_capacity c)) (unat (cc_capacityMax c))"
  using assms
proof (induction epochs arbitrary: c)
  case Nil
  then show ?case by (simp add: cc_ok_def word_le_nat_alt)
next
  case (Cons e epochs)
  obtain t0 t1 where e: "e = (t0, t1)" by (cases e)
  have "double_of_u64 (cc_timeout c) < dsub t1 t0" using Cons.prems(3) e by auto
  note E = epoch_doubles [OF Cons.prems(1,2) this]
  have "unat (cc_capacity (foldl epoch (epoch c e) epochs)) =
      min (2 ^ length epochs * unat (cc_capacity (epoch c e))) (unat (cc_capacityMax c))"
    using Cons.IH [of "epoch c e"] E Cons.prems(3) unfolding e by auto
  also have "\<dots> = min (2 ^ length (e # epochs) * unat (cc_capacity c)) (unat (cc_capacityMax c))"
    using E(1) min_scale [of "2 ^ length epochs" "2 * unat (cc_capacity c)" "unat (cc_capacityMax c)"]
    unfolding e by (simp add: algebra_simps)
  finally show ?case by simp
qed

end
