(* ===== verification/Multi_Queue.thy ===== *)
theory Multi_Queue
  imports Tampi_Prelude
begin

text \<open>
  \<open>MultiLockFreeQueue\<close> (src/src/common/util/MultiLockFreeQueue.hpp): the pre-queues of the
  point-to-point operations, one bounded ring per CPU. The producer of a ring is the task running
  on that CPU, the consumer of all of them is the polling task. The caches \<open>_available\<close> (producer)
  and \<open>_remaining\<close>, \<open>_totalRemaining\<close> (consumer) are lower bounds that are refreshed on demand.

  The ring of queue \<open>q\<close> is the slice of \<open>_capacity\<close> elements of \<open>_data\<close> that starts at
  \<open>q * _capacity\<close>; it is the \<open>q\<close>-th list of \<open>mq_data\<close>. Only the first \<open>_queues\<close> entries of the
  per-queue arrays are initialised and used; the lists of the model have these entries.
\<close>

section \<open>State\<close>

record 'a mlfq =
  mq_capacity :: nat
  mq_queues :: nat
  mq_data :: "'a list list"
  mq_fullFailure :: bool
  mq_tail :: "nat list"
  mq_remaining :: "nat list"
  mq_head :: "nat list"
  mq_available :: "nat list"
  mq_totalRemaining :: nat
  mq_current :: nat

datatype MultiQueuePopPolicy = CyclicRoundRobin | BlockRoundRobin

text \<open>
  The constructor: the number of queues is the number of logical CPUs the tasking runtime reports,
  the memory it gets is whatever \<open>mmap\<close> returned (\<open>mem\<close>, of \<open>_queues * _capacity\<close> elements).
\<close>

definition MultiLockFreeQueue :: "nat \<Rightarrow> nat \<Rightarrow> nat \<Rightarrow> 'a list list \<Rightarrow> bool \<Rightarrow> 'a mlfq result" where
  "MultiLockFreeQueue maxQueues cap ncpus mem fullFailure =
     (if ncpus > maxQueues
      then fail [Str ''MultiLockFreeQueue'', Str '': Maximum number of queues exceeded. Runtime got: '',
             Num (int ncpus), Str '', TAMPI was compiled with maximum: '', Num (int maxQueues)]
      else Inr \<lparr> mq_capacity = cap, mq_queues = ncpus, mq_data = mem, mq_fullFailure = fullFailure,
             mq_tail = replicate ncpus 0, mq_remaining = replicate ncpus 0,
             mq_head = replicate ncpus 0, mq_available = replicate ncpus 0,
             mq_totalRemaining = 0, mq_current = 0 \<rparr>)"

section \<open>Private operations\<close>

text \<open>The differences of the counters are taken in 64-bit unsigned arithmetic, as \<open>size_t\<close> does.\<close>

definition getRemaining :: "'a mlfq \<Rightarrow> nat \<Rightarrow> nat result" where
  "getRemaining s queue =
     rbind (rassert (queue < mq_queues s) ''queue < _queues'') (\<lambda>_.
     let head = mq_head s ! queue; tail = mq_tail s ! queue in
     rbind (rassert (head < mq_capacity s) ''head < _capacity'') (\<lambda>_.
     rbind (rassert (tail < mq_capacity s) ''tail < _capacity'') (\<lambda>_.
     Inr (if tail \<le> head then unat (of_nat head - of_nat tail :: u64)
          else unat ((of_nat head - of_nat tail) + of_nat (mq_capacity s) :: u64)))))"

fun updateRemaining_from :: "nat \<Rightarrow> nat \<Rightarrow> 'a mlfq \<Rightarrow> nat \<Rightarrow> (nat \<times> 'a mlfq) result" where
  "updateRemaining_from 0 q s tot = Inr (tot, s)"
| "updateRemaining_from (Suc k) q s tot =
     rbind (getRemaining s q) (\<lambda>val.
       updateRemaining_from k (q + 1) (s\<lparr>mq_remaining := (mq_remaining s)[q := val]\<rparr>) (tot + val))"

definition updateRemaining :: "'a mlfq \<Rightarrow> (nat \<times> 'a mlfq) result" where
  "updateRemaining s = updateRemaining_from (mq_queues s) 0 s 0"

definition getAvailable :: "'a mlfq \<Rightarrow> nat \<Rightarrow> nat result" where
  "getAvailable s queue =
     rbind (rassert (queue < mq_queues s) ''queue < _queues'') (\<lambda>_.
     rbind (getRemaining s queue) (\<lambda>r.
     Inr (unat (of_nat (mq_capacity s) - (of_nat r + 1) :: u64))))"

fun copy_in :: "'a list \<Rightarrow> nat \<Rightarrow> 'a list \<Rightarrow> 'a list" where
  "copy_in d p [] = d"
| "copy_in d p (x # xs) = copy_in (d[p := x]) (p + 1) xs"

definition unsafePush :: "'a mlfq \<Rightarrow> nat \<Rightarrow> 'a list \<Rightarrow> 'a mlfq result" where
  "unsafePush s queue elems =
     (let n = length elems in
      rbind (rassert (queue < mq_queues s) ''queue < _queues'') (\<lambda>_.
      rbind (rassert (n > 0) ''n > 0'') (\<lambda>_.
      rbind (rassert (n \<le> mq_available s ! queue) ''n <= _available[queue]'') (\<lambda>_.
      let available = (mq_available s)[queue := mq_available s ! queue - n];
          data = mq_data s ! queue;
          head = mq_head s ! queue;
          n0 = min n (mq_capacity s - head);
          data = copy_in (copy_in data head (take n0 elems)) 0 (drop n0 elems);
          head = (head + n) mod mq_capacity s
      in Inr (s\<lparr>mq_available := available, mq_data := (mq_data s)[queue := data],
               mq_head := (mq_head s)[queue := head]\<rparr>)))))"

definition unsafePop :: "'a mlfq \<Rightarrow> nat \<Rightarrow> nat \<Rightarrow> ('a list \<times> 'a mlfq) result" where
  "unsafePop s queue n =
     rbind (rassert (queue < mq_queues s) ''queue < _queues'') (\<lambda>_.
     rbind (rassert (n > 0) ''n > 0'') (\<lambda>_.
     rbind (rassert (n \<le> mq_remaining s ! queue) ''n <= _remaining[queue]'') (\<lambda>_.
     let remaining = (mq_remaining s)[queue := mq_remaining s ! queue - n];
         data = mq_data s ! queue;
         tail = mq_tail s ! queue;
         n0 = min n (mq_capacity s - tail);
         values = map (\<lambda>i. data ! (tail + i)) [0..<n0] @ map (\<lambda>i. data ! i) [0..<n - n0];
         tail = (tail + n) mod mq_capacity s
     in Inr (values, s\<lparr>mq_remaining := remaining, mq_tail := (mq_tail s)[queue := tail]\<rparr>))))"

text \<open>
  The pop of the cyclic policy first decides how many elements each queue gives (the local array
  \<open>remaining\<close>), visiting the queues in rounds, and then pops them. Both \<open>while\<close> loops end only
  because the caches are right, so they are partial functions. \<open>rr_for\<close> is the inner \<open>for\<close> loop,
  with its number of iterations left.
\<close>

fun rr_for :: "nat \<Rightarrow> nat \<Rightarrow> nat \<Rightarrow> nat list \<Rightarrow> nat \<Rightarrow> nat \<Rightarrow> nat list \<times> nat \<times> nat" where
  "rr_for 0 nq perQueue rem missing cur = (rem, missing, cur)"
| "rr_for (Suc k) nq perQueue rem missing cur =
     (if missing > 0 then
        let avail = min (rem ! cur) perQueue;
            rem' = (if avail \<noteq> 0 then rem[cur := rem ! cur - avail] else rem);
            missing' = (if avail \<noteq> 0 then missing - avail else missing)
        in rr_for k nq perQueue rem' missing' ((cur + 1) mod nq)
      else (rem, missing, cur))"

partial_function (option) rr_while :: "nat \<Rightarrow> nat list \<Rightarrow> nat \<Rightarrow> nat \<Rightarrow> (nat list \<times> nat) option" where
  "rr_while nq rem missing cur =
     (if missing > 0 then
        (case rr_for nq nq (max (missing div nq) 1) rem missing cur of
           (rem', missing', cur') \<Rightarrow> rr_while nq rem' missing' cur')
      else Some (rem, cur))"

partial_function (option) pop_while ::
    "nat \<Rightarrow> nat list \<Rightarrow> 'a mlfq \<Rightarrow> nat \<Rightarrow> 'a list \<Rightarrow> ('a list \<times> 'a mlfq) run" where
  "pop_while n rem s q values =
     (if length values < n then
        run_bind (Some (rassert (q < mq_queues s) ''q < _queues'')) (\<lambda>_.
        let assigned = mq_remaining s ! q - rem ! q in
        if assigned > 0 then
          (case unsafePop s q assigned of
             Inl e \<Rightarrow> Some (Inl e)
           | Inr (vs, s') \<Rightarrow> pop_while n rem s' ((q + 1) mod mq_queues s') (values @ vs))
        else pop_while n rem s ((q + 1) mod mq_queues s) values)
      else ret (values, s))"

text \<open>
  The refresh at the start of both policies: the number of elements to pop and the state, or
  \<open>None\<close> when there is nothing to pop and the operation returns zero.
\<close>

definition pop_refresh :: "'a mlfq \<Rightarrow> nat \<Rightarrow> (nat option \<times> 'a mlfq) result" where
  "pop_refresh s n =
     (if mq_totalRemaining s < n then
        rbind (updateRemaining s) (\<lambda>(tot, s).
        let s = s\<lparr>mq_totalRemaining := tot\<rparr> in
        if tot = 0 then Inr (None, s) else Inr (Some (min n tot), s))
      else Inr (Some n, s))"

definition cyclicRoundRobinPop :: "'a mlfq \<Rightarrow> nat \<Rightarrow> ('a list \<times> 'a mlfq) run" where
  "cyclicRoundRobinPop s n =
     (if n = 0 then ret ([], s)
      else run_bind (Some (pop_refresh s n)) (\<lambda>(m, s).
        case m of
          None \<Rightarrow> ret ([], s)
        | Some n \<Rightarrow>
            let queue0 = mq_current s in
            (case rr_while (mq_queues s) (mq_remaining s) n queue0 of
               None \<Rightarrow> None
             | Some (rem, cur) \<Rightarrow>
                 pop_while n rem
                   (s\<lparr>mq_current := cur, mq_totalRemaining := mq_totalRemaining s - n\<rparr>) queue0 [])))"

partial_function (option) block_while ::
    "nat \<Rightarrow> 'a mlfq \<Rightarrow> 'a list \<Rightarrow> ('a list \<times> 'a mlfq) run" where
  "block_while n s values =
     (if length values < n then
        run_bind (Some (rassert (mq_current s < mq_queues s) ''_current < _queues'')) (\<lambda>_.
        let assigned = min (mq_remaining s ! mq_current s) (n - length values) in
        if assigned = 0 then
          block_while n (s\<lparr>mq_current := (mq_current s + 1) mod mq_queues s\<rparr>) values
        else
          (case unsafePop s (mq_current s) assigned of
             Inl e \<Rightarrow> Some (Inl e)
           | Inr (vs, s') \<Rightarrow> block_while n s' (values @ vs)))
      else ret (values, s))"

definition blockRoundRobinPop :: "'a mlfq \<Rightarrow> nat \<Rightarrow> ('a list \<times> 'a mlfq) run" where
  "blockRoundRobinPop s n =
     (if n = 0 then ret ([], s)
      else run_bind (Some (pop_refresh s n)) (\<lambda>(m, s).
        case m of
          None \<Rightarrow> ret ([], s)
        | Some n \<Rightarrow> block_while n (s\<lparr>mq_totalRemaining := mq_totalRemaining s - n\<rparr>) []))"

definition push_queue :: "'a mlfq \<Rightarrow> 'a \<Rightarrow> nat \<Rightarrow> (bool \<times> 'a mlfq) result" where
  "push_queue s element queue =
     rbind (if mq_available s ! queue = 0
            then rbind (getAvailable s queue) (\<lambda>a.
                   Inr (s\<lparr>mq_available := (mq_available s)[queue := a]\<rparr>))
            else Inr s) (\<lambda>s.
     if mq_available s ! queue = 0 then Inr (False, s)
     else rbind (unsafePush s queue [element]) (\<lambda>s. Inr (True, s)))"

section \<open>Public operations\<close>

definition mq_empty :: "'a mlfq \<Rightarrow> (bool \<times> 'a mlfq) result" where
  "mq_empty s =
     (if mq_totalRemaining s \<noteq> 0 then Inr (False, s)
      else rbind (updateRemaining s) (\<lambda>(tot, s).
        Inr (tot = 0, s\<lparr>mq_totalRemaining := tot\<rparr>)))"

text \<open>
  \<open>push\<close> puts the element into the queue of the CPU it runs on. On a full queue it ends the process
  or spins, and while it spins the rest of the system runs: \<open>env k\<close> is what happened to the queue
  before the \<open>k\<close>-th new attempt.
\<close>

partial_function (option) push_spin ::
    "(nat \<Rightarrow> 'a mlfq \<Rightarrow> 'a mlfq) \<Rightarrow> nat \<Rightarrow> 'a mlfq \<Rightarrow> 'a \<Rightarrow> nat \<Rightarrow> 'a mlfq run" where
  "push_spin env k s element queue =
     (case push_queue (env k s) element queue of
        Inl e \<Rightarrow> Some (Inl e)
      | Inr (pushed, s') \<Rightarrow> if pushed then ret s' else push_spin env (k + 1) s' element queue)"

definition mq_push :: "(nat \<Rightarrow> 'a mlfq \<Rightarrow> 'a mlfq) \<Rightarrow> 'a mlfq \<Rightarrow> 'a \<Rightarrow> nat \<Rightarrow> 'a mlfq run" where
  "mq_push env s element cpu =
     run_bind (Some (rassert (cpu < mq_queues s) ''queue < _queues'')) (\<lambda>_.
     run_bind (Some (push_queue s element cpu)) (\<lambda>(pushed, s).
     if pushed then ret s
     else if mq_fullFailure s then Some (fail [Str ''MultiLockFreeQueue is full''])
     else push_spin env 0 s element cpu))"

definition mq_pop :: "MultiQueuePopPolicy \<Rightarrow> 'a mlfq \<Rightarrow> nat \<Rightarrow> ('a list \<times> 'a mlfq) run" where
  "mq_pop policy s n =
     (case policy of
        CyclicRoundRobin \<Rightarrow> cyclicRoundRobinPop s n
      | BlockRoundRobin \<Rightarrow> blockRoundRobinPop s n)"


section \<open>Abstraction and invariant\<close>

text \<open>A ring read from its tail: the abstract FIFO of one queue.\<close>

definition ring_used :: "nat \<Rightarrow> nat \<Rightarrow> nat \<Rightarrow> nat" where
  "ring_used cap head tail = (head + cap - tail) mod cap"

definition ring_list :: "nat \<Rightarrow> 'a list \<Rightarrow> nat \<Rightarrow> nat \<Rightarrow> 'a list" where
  "ring_list cap d head tail = map (\<lambda>i. d ! ((tail + i) mod cap)) [0..<ring_used cap head tail]"

definition mq_used :: "'a mlfq \<Rightarrow> nat \<Rightarrow> nat" where
  "mq_used s q = ring_used (mq_capacity s) (mq_head s ! q) (mq_tail s ! q)"

definition mq_contents :: "'a mlfq \<Rightarrow> nat \<Rightarrow> 'a list" where
  "mq_contents s q = ring_list (mq_capacity s) (mq_data s ! q) (mq_head s ! q) (mq_tail s ! q)"

text \<open>
  All the queues, and the well-formedness of the state: indices inside the rings, the caches
  below the real numbers, one slot of every ring always free.
\<close>

definition mq_lists :: "'a mlfq \<Rightarrow> 'a list list" where
  "mq_lists s = map (mq_contents s) [0..<mq_queues s]"

definition mq_wf :: "'a mlfq \<Rightarrow> bool" where
  "mq_wf s \<longleftrightarrow> 0 < mq_queues s \<and> mq_capacity s < 2 ^ 63 \<and>
     length (mq_data s) = mq_queues s \<and> length (mq_tail s) = mq_queues s \<and>
     length (mq_head s) = mq_queues s \<and> length (mq_remaining s) = mq_queues s \<and>
     length (mq_available s) = mq_queues s \<and> mq_current s < mq_queues s \<and>
     (\<forall>q < mq_queues s. mq_head s ! q < mq_capacity s \<and> mq_tail s ! q < mq_capacity s \<and>
        length (mq_data s ! q) = mq_capacity s \<and> mq_remaining s ! q \<le> mq_used s q \<and>
        mq_available s ! q + mq_used s q < mq_capacity s)"

definition mq_ok :: "'a mlfq \<Rightarrow> bool" where
  "mq_ok s \<longleftrightarrow> mq_wf s \<and> mq_totalRemaining s = sum_list (mq_remaining s)"

section \<open>Ring lemmas\<close>

lemma ring_used_less: "0 < cap \<Longrightarrow> ring_used cap h t < cap"
  by (simp add: ring_used_def)

lemma length_ring_list [simp]: "length (ring_list cap d h t) = ring_used cap h t"
  by (simp add: ring_list_def)

lemma ring_used_alt:
  assumes "h < cap" "t < cap"
  shows "ring_used cap h t = (if t \<le> h then h - t else h + cap - t)"
  using assms by (simp add: ring_used_def mod_less_twice)

lemma ring_used_push:
  assumes "h < cap" "t < cap" "ring_used cap h t + n < cap"
  shows "ring_used cap ((h + n) mod cap) t = ring_used cap h t + n"
  using assms by (auto simp: ring_used_alt mod_less_twice split: if_splits)

lemma ring_used_pop:
  assumes "h < cap" "t < cap" "n \<le> ring_used cap h t"
  shows "ring_used cap h ((t + n) mod cap) = ring_used cap h t - n"
  using assms by (auto simp: ring_used_alt mod_less_twice split: if_splits)

lemma length_copy_in [simp]: "length (copy_in d p xs) = length d"
  by (induction d p xs rule: copy_in.induct) auto

lemma nth_copy_in:
  "p + length xs \<le> length d \<Longrightarrow>
     copy_in d p xs ! j = (if p \<le> j \<and> j < p + length xs then xs ! (j - p) else d ! j)"
  by (induction d p xs rule: copy_in.induct)
     (auto simp: nth_list_update nth_Cons' Suc_diff_le)

lemma nth_ring_write:
  assumes "length d = cap" "h < cap" "length xs < cap" "j < cap"
  defines "n0 \<equiv> min (length xs) (cap - h)"
  shows "copy_in (copy_in d h (take n0 xs)) 0 (drop n0 xs) ! j =
           (if (j + cap - h) mod cap < length xs then xs ! ((j + cap - h) mod cap) else d ! j)"
  using assms
  by (auto simp: nth_copy_in n0_def mod_less_twice min_def add.commute)

lemma ring_list_push:
  assumes "length d = cap" "h < cap" "t < cap" "ring_used cap h t + length xs < cap"
  defines "n0 \<equiv> min (length xs) (cap - h)"
  shows "ring_list cap (copy_in (copy_in d h (take n0 xs)) 0 (drop n0 xs))
           ((h + length xs) mod cap) t = ring_list cap d h t @ xs"
    (is "ring_list cap ?d' ?h' t = _")
proof (rule nth_equalityI)
  have used: "ring_used cap ?h' t = ring_used cap h t + length xs"
    by (rule ring_used_push) (use assms in auto)
  then show "length (ring_list cap ?d' ?h' t) = length (ring_list cap d h t @ xs)" by simp
  fix i assume "i < length (ring_list cap ?d' ?h' t)"
  with used have i: "i < ring_used cap h t + length xs" by simp
  have lx: "length xs < cap" using assms(4) by simp
  have jlt: "(t + i) mod cap < cap" using assms(2) by simp
  have off: "((t + i) mod cap + cap - h) mod cap < length xs \<longleftrightarrow> ring_used cap h t \<le> i"
    and sub: "ring_used cap h t \<le> i \<Longrightarrow>
          ((t + i) mod cap + cap - h) mod cap = i - ring_used cap h t"
    using assms(2-4) i by (auto simp: ring_used_alt mod_less_twice split: if_splits)
  have "ring_list cap ?d' ?h' t ! i = ?d' ! ((t + i) mod cap)"
    using i used by (simp add: ring_list_def)
  also have "\<dots> = (if ring_used cap h t \<le> i then xs ! (i - ring_used cap h t)
                   else d ! ((t + i) mod cap))"
    using nth_ring_write [OF assms(1,2) lx jlt] off sub by (simp add: n0_def)
  also have "\<dots> = (ring_list cap d h t @ xs) ! i"
    by (auto simp: nth_append ring_list_def)
  finally show "ring_list cap ?d' ?h' t ! i = (ring_list cap d h t @ xs) ! i" .
qed

lemma ring_list_pop:
  assumes "h < cap" "t < cap" "n \<le> ring_used cap h t"
  shows "ring_list cap d h ((t + n) mod cap) = drop n (ring_list cap d h t)"
proof (rule nth_equalityI)
  show "length (ring_list cap d h ((t + n) mod cap)) = length (drop n (ring_list cap d h t))"
    using ring_used_pop [OF assms] by simp
  fix i assume "i < length (ring_list cap d h ((t + n) mod cap))"
  then have i: "i < ring_used cap h t - n" using ring_used_pop [OF assms] by simp
  have "((t + n) mod cap + i) mod cap = (t + (n + i)) mod cap"
    by (simp add: mod_simps add.assoc)
  moreover have "n + i < ring_used cap h t" using i by simp
  ultimately show "ring_list cap d h ((t + n) mod cap) ! i = drop n (ring_list cap d h t) ! i"
    using i ring_used_pop [OF assms] by (simp add: ring_list_def)
qed

lemma ring_read:
  assumes "h < cap" "t < cap" "n \<le> ring_used cap h t"
  defines "n0 \<equiv> min n (cap - t)"
  shows "map (\<lambda>i. d ! (t + i)) [0..<n0] @ map (\<lambda>i. d ! i) [0..<n - n0] =
           take n (ring_list cap d h t)"
proof (rule nth_equalityI)
  have n: "n < cap" using assms(1,3) ring_used_less [of cap h t] by simp
  show "length (map (\<lambda>i. d ! (t + i)) [0..<n0] @ map ((!) d) [0..<n - n0]) =
          length (take n (ring_list cap d h t))"
    using assms by (simp add: n0_def)
  fix i assume "i < length (map (\<lambda>i. d ! (t + i)) [0..<n0] @ map ((!) d) [0..<n - n0])"
  then have i: "i < n" by (simp add: n0_def)
  with n assms(1-3) show "(map (\<lambda>i. d ! (t + i)) [0..<n0] @ map ((!) d) [0..<n - n0]) ! i =
      take n (ring_list cap d h t) ! i"
    by (auto simp: nth_append ring_list_def n0_def mod_less_twice min_def add.commute)
qed

section \<open>Operations on one queue\<close>

lemma mq_wfD:
  assumes "mq_wf s"
  shows "0 < mq_queues s" "0 < mq_capacity s" "mq_capacity s < 2 ^ 63"
    "length (mq_data s) = mq_queues s" "length (mq_tail s) = mq_queues s"
    "length (mq_head s) = mq_queues s" "length (mq_remaining s) = mq_queues s"
    "length (mq_available s) = mq_queues s" "mq_current s < mq_queues s"
proof -
  from assms have q: "0 < mq_queues s" by (simp add: mq_wf_def)
  with assms have "mq_head s ! 0 < mq_capacity s" unfolding mq_wf_def by blast
  then have "0 < mq_capacity s" by simp
  with assms q show "0 < mq_queues s" "0 < mq_capacity s" "mq_capacity s < 2 ^ 63"
    "length (mq_data s) = mq_queues s" "length (mq_tail s) = mq_queues s"
    "length (mq_head s) = mq_queues s" "length (mq_remaining s) = mq_queues s"
    "length (mq_available s) = mq_queues s" "mq_current s < mq_queues s"
    by (simp_all add: mq_wf_def)
qed

lemma mq_wf_queueD:
  assumes "mq_wf s" "q < mq_queues s"
  shows "mq_head s ! q < mq_capacity s" "mq_tail s ! q < mq_capacity s"
    "length (mq_data s ! q) = mq_capacity s" "mq_remaining s ! q \<le> mq_used s q"
    "mq_available s ! q + mq_used s q < mq_capacity s" "mq_used s q < mq_capacity s"
  using assms unfolding mq_wf_def by fastforce+

lemma length_mq_contents [simp]: "length (mq_contents s q) = mq_used s q"
  by (simp add: mq_contents_def mq_used_def)

lemma getRemaining_used:
  assumes "mq_wf s" "q < mq_queues s"
  shows "getRemaining s q = Inr (mq_used s q)"
proof -
  let ?h = "mq_head s ! q" and ?t = "mq_tail s ! q" and ?c = "mq_capacity s"
  have lt: "?h < ?c" "?t < ?c" "?c < 2 ^ 63"
    using mq_wf_queueD [OF assms] mq_wfD [OF assms(1)] by auto
  have wrap: "(of_nat ?h - of_nat ?t) + of_nat ?c = (of_nat (?h + ?c) - of_nat ?t :: u64)"
    by simp
  show ?thesis
    using assms lt unat_diff_64 [of ?t ?h] unat_diff_64 [of ?t "?h + ?c"]
    by (simp add: getRemaining_def mq_used_def ring_used_alt wrap del: of_nat_add)
qed

lemma getAvailable_free:
  assumes "mq_wf s" "q < mq_queues s"
  shows "getAvailable s q = Inr (mq_capacity s - 1 - mq_used s q)"
proof -
  have "mq_used s q + 1 \<le> mq_capacity s" "mq_capacity s < 2 ^ 64"
    using mq_wf_queueD(6) [OF assms] mq_wfD(3) [OF assms(1)] by auto
  then show ?thesis
    using assms unat_diff_64 [of "mq_used s q + 1" "mq_capacity s"]
    by (simp add: getAvailable_def getRemaining_used add.commute)
qed

text \<open>
  A push of at most \<open>_available\<close> elements appends them to its queue and touches no other.
\<close>

lemma mq_contents_cong:
  "mq_capacity s = mq_capacity s' \<Longrightarrow> mq_data s ! q = mq_data s' ! q \<Longrightarrow>
   mq_head s ! q = mq_head s' ! q \<Longrightarrow> mq_tail s ! q = mq_tail s' ! q \<Longrightarrow>
   mq_contents s q = mq_contents s' q \<and> mq_used s q = mq_used s' q"
  by (simp add: mq_contents_def mq_used_def)

lemma unsafePush_contents:
  assumes wf: "mq_wf s" and q: "q < mq_queues s" and xs: "xs \<noteq> []"
    and room: "length xs \<le> mq_available s ! q"
  obtains s' where "unsafePush s q xs = Inr s'" "mq_wf s'"
    "mq_queues s' = mq_queues s" "mq_capacity s' = mq_capacity s"
    "mq_fullFailure s' = mq_fullFailure s" "mq_remaining s' = mq_remaining s"
    "mq_totalRemaining s' = mq_totalRemaining s" "mq_current s' = mq_current s"
    "\<And>i. i < mq_queues s \<Longrightarrow>
        mq_contents s' i = (if i = q then mq_contents s q @ xs else mq_contents s i)"
proof -
  note W = mq_wfD [OF wf] and Q = mq_wf_queueD [OF wf q]
  let ?n = "length xs" and ?h = "mq_head s ! q" and ?c = "mq_capacity s" and ?d = "mq_data s ! q"
  let ?front = "min ?n (?c - ?h)"
  let ?d' = "copy_in (copy_in ?d ?h (take ?front xs)) 0 (drop ?front xs)"
  let ?s' = "s\<lparr>mq_available := (mq_available s)[q := mq_available s ! q - ?n],
      mq_data := (mq_data s)[q := ?d'], mq_head := (mq_head s)[q := (?h + ?n) mod ?c]\<rparr>"
  have fit: "ring_used ?c ?h (mq_tail s ! q) + ?n < ?c"
    using Q(5) room by (simp add: mq_used_def)
  have used_q: "mq_used ?s' q = mq_used s q + ?n"
    using ring_used_push [OF Q(1,2) fit] q W by (simp add: mq_used_def)
  have cont_q: "mq_contents ?s' q = mq_contents s q @ xs"
    using ring_list_push [OF Q(3,1,2) fit] q W by (simp add: mq_contents_def)
  have other: "mq_contents ?s' i = mq_contents s i \<and> mq_used ?s' i = mq_used s i" if "i \<noteq> q" for i
    using that by (intro mq_contents_cong) auto
  have "unsafePush s q xs = Inr ?s'"
    using q xs room by (simp add: unsafePush_def Let_def rassert_def)
  moreover have "mq_wf ?s'"
    unfolding mq_wf_def
  proof (intro conjI allI impI)
    fix i assume "i < mq_queues ?s'"
    then have i: "i < mq_queues s" by simp
    note I = mq_wf_queueD [OF wf i]
    show "mq_head ?s' ! i < mq_capacity ?s'" "mq_tail ?s' ! i < mq_capacity ?s'"
      "length (mq_data ?s' ! i) = mq_capacity ?s'"
      using I W Q q by (simp_all add: nth_list_update)
    show "mq_remaining ?s' ! i \<le> mq_used ?s' i"
      using I used_q other by (cases "i = q") auto
    show "mq_available ?s' ! i + mq_used ?s' i < mq_capacity ?s'"
      using I used_q other q W room by (cases "i = q") auto
  qed (use W in auto)
  moreover have "mq_contents ?s' i = (if i = q then mq_contents s q @ xs else mq_contents s i)" for i
    using cont_q other by simp
  ultimately show thesis by (intro that [of ?s']) auto
qed

text \<open>A pop of at most \<open>_remaining\<close> elements removes that many from the front of its queue.\<close>

lemma unsafePop_contents:
  assumes wf: "mq_wf s" and q: "q < mq_queues s" and n: "0 < n" "n \<le> mq_remaining s ! q"
  obtains s' where "unsafePop s q n = Inr (take n (mq_contents s q), s')" "mq_wf s'"
    "mq_queues s' = mq_queues s" "mq_capacity s' = mq_capacity s"
    "mq_fullFailure s' = mq_fullFailure s" "mq_totalRemaining s' = mq_totalRemaining s"
    "mq_current s' = mq_current s"
    "mq_remaining s' = (mq_remaining s)[q := mq_remaining s ! q - n]"
    "\<And>i. i < mq_queues s \<Longrightarrow>
        mq_contents s' i = (if i = q then drop n (mq_contents s q) else mq_contents s i)"
proof -
  note W = mq_wfD [OF wf] and Q = mq_wf_queueD [OF wf q]
  let ?t = "mq_tail s ! q" and ?c = "mq_capacity s"
  let ?s' = "s\<lparr>mq_remaining := (mq_remaining s)[q := mq_remaining s ! q - n],
      mq_tail := (mq_tail s)[q := (?t + n) mod ?c]\<rparr>"
  have le: "n \<le> ring_used ?c (mq_head s ! q) ?t"
    using Q(4) n by (simp add: mq_used_def)
  have used_q: "mq_used ?s' q = mq_used s q - n"
    using ring_used_pop [OF Q(1,2) le] q W by (simp add: mq_used_def)
  have cont_q: "mq_contents ?s' q = drop n (mq_contents s q)"
    using ring_list_pop [OF Q(1,2) le] q W by (simp add: mq_contents_def)
  have other: "mq_contents ?s' i = mq_contents s i \<and> mq_used ?s' i = mq_used s i" if "i \<noteq> q" for i
    using that by (intro mq_contents_cong) auto
  have "unsafePop s q n = Inr (take n (mq_contents s q), ?s')"
    using q n ring_read [OF Q(1,2) le, of "mq_data s ! q"]
    by (simp add: unsafePop_def Let_def rassert_def mq_contents_def)
  moreover have "mq_wf ?s'"
    unfolding mq_wf_def
  proof (intro conjI allI impI)
    fix i assume "i < mq_queues ?s'"
    then have i: "i < mq_queues s" by simp
    note I = mq_wf_queueD [OF wf i]
    show "mq_head ?s' ! i < mq_capacity ?s'" "mq_tail ?s' ! i < mq_capacity ?s'"
      "length (mq_data ?s' ! i) = mq_capacity ?s'"
      using I W Q q by (simp_all add: nth_list_update)
    show "mq_remaining ?s' ! i \<le> mq_used ?s' i"
      using I used_q other q W by (cases "i = q") auto
    show "mq_available ?s' ! i + mq_used ?s' i < mq_capacity ?s'"
      using I used_q other by (cases "i = q") auto
  qed (use W in auto)
  moreover have "mq_contents ?s' i = (if i = q then drop n (mq_contents s q) else mq_contents s i)" for i
    using cont_q other by simp
  ultimately show thesis by (intro that [of ?s']) auto
qed

lemma mq_wf_set_available:
  assumes "mq_wf s" "q < mq_queues s" "a + mq_used s q < mq_capacity s"
  shows "mq_wf (s\<lparr>mq_available := (mq_available s)[q := a]\<rparr>)"
  using assms unfolding mq_wf_def by (auto simp: nth_list_update mq_used_def)

lemma mq_wf_set_remaining:
  assumes "mq_wf s" "q < mq_queues s" "r \<le> mq_used s q"
  shows "mq_wf (s\<lparr>mq_remaining := (mq_remaining s)[q := r]\<rparr>)"
proof -
  have "(mq_remaining s)[q := r] ! i \<le> mq_used s i" if "i < mq_queues s" for i
    using assms mq_wf_queueD(4) [OF assms(1) that] mq_wfD(7) [OF assms(1)]
    by (cases "i = q") auto
  then show ?thesis
    using assms unfolding mq_wf_def by (auto simp: mq_used_def)
qed

lemma push_queue_room:
  assumes ok: "mq_ok s" and q: "q < mq_queues s" and room: "mq_used s q + 1 < mq_capacity s"
  obtains s' where "push_queue s x q = Inr (True, s')" "mq_ok s'"
    "mq_queues s' = mq_queues s" "mq_capacity s' = mq_capacity s"
    "mq_fullFailure s' = mq_fullFailure s"
    "\<And>i. i < mq_queues s \<Longrightarrow>
        mq_contents s' i = (if i = q then mq_contents s q @ [x] else mq_contents s i)"
proof -
  have wf: "mq_wf s" using ok by (simp add: mq_ok_def)
  define s1 where "s1 = (if mq_available s ! q = 0
    then s\<lparr>mq_available := (mq_available s)[q := mq_capacity s - 1 - mq_used s q]\<rparr> else s)"
  have wf1: "mq_wf s1"
    using wf mq_wf_set_available [OF wf q] room by (auto simp: s1_def)
  have same: "mq_queues s1 = mq_queues s" "mq_capacity s1 = mq_capacity s"
      "mq_fullFailure s1 = mq_fullFailure s" "mq_remaining s1 = mq_remaining s"
      "mq_totalRemaining s1 = mq_totalRemaining s" "mq_contents s1 = mq_contents s"
    by (auto simp: s1_def mq_contents_def)
  have avail: "mq_available s1 ! q \<noteq> 0"
    using room q mq_wfD [OF wf] by (auto simp: s1_def)
  obtain s' where s': "unsafePush s1 q [x] = Inr s'" "mq_wf s'"
    "mq_queues s' = mq_queues s1" "mq_capacity s' = mq_capacity s1"
    "mq_fullFailure s' = mq_fullFailure s1" "mq_remaining s' = mq_remaining s1"
    "mq_totalRemaining s' = mq_totalRemaining s1"
    "\<And>i. i < mq_queues s1 \<Longrightarrow>
        mq_contents s' i = (if i = q then mq_contents s1 q @ [x] else mq_contents s1 i)"
    using unsafePush_contents [OF wf1, of q "[x]"] q same avail by auto
  have "(if mq_available s ! q = 0
         then rbind (getAvailable s q) (\<lambda>a. Inr (s\<lparr>mq_available := (mq_available s)[q := a]\<rparr>))
         else Inr s) = Inr s1"
    using getAvailable_free [OF wf q] by (simp add: s1_def)
  then have "push_queue s x q = Inr (True, s')"
    using s'(1) avail by (simp add: push_queue_def)
  with s' same ok show thesis
    by (intro that [of s']) (auto simp: mq_ok_def)
qed

lemma push_queue_full:
  assumes ok: "mq_ok s" and q: "q < mq_queues s" and full: "mq_used s q + 1 = mq_capacity s"
  shows "push_queue s x q = Inr (False, s)"
proof -
  have wf: "mq_wf s" using ok by (simp add: mq_ok_def)
  have "mq_available s ! q = 0" using mq_wf_queueD(5) [OF wf q] full by simp
  moreover from this have "(mq_available s)[q := 0] = mq_available s"
    by (metis list_update_id)
  ultimately show ?thesis
    using getAvailable_free [OF wf q] full by (simp add: push_queue_def)
qed

section \<open>Refreshing the consumer's cache\<close>

lemma updateRemaining_from_used:
  assumes "mq_wf s" "k + q = mq_queues s"
  shows "updateRemaining_from k q s tot =
    Inr (tot + sum_list (map (mq_used s) [q..<mq_queues s]),
         s\<lparr>mq_remaining := take q (mq_remaining s) @ map (mq_used s) [q..<mq_queues s]\<rparr>)"
  using assms
proof (induction k q s tot rule: updateRemaining_from.induct)
  case (1 q s tot)
  then show ?case using mq_wfD(7) by (simp add: mq_wfD)
next
  case (2 k q s tot)
  let ?s = "s\<lparr>mq_remaining := (mq_remaining s)[q := mq_used s q]\<rparr>"
  have q: "q < mq_queues s" using 2 by simp
  have used: "mq_used ?s = mq_used s" by (auto simp: mq_used_def)
  have "mq_wf ?s"
    using mq_wf_set_remaining [OF 2(2) q] by simp
  moreover have "[q..<mq_queues s] = q # [Suc q..<mq_queues s]" using q by (rule upt_conv_Cons)
  moreover have "take (Suc q) ((mq_remaining s)[q := mq_used s q]) =
      take q (mq_remaining s) @ [mq_used s q]"
    using q mq_wfD [OF 2(2)] by (simp add: take_Suc_conv_app_nth)
  ultimately show ?case
    using 2 q used by (simp add: getRemaining_used)
qed

lemma updateRemaining_used:
  assumes "mq_wf s"
  shows "updateRemaining s = Inr (sum_list (map (mq_used s) [0..<mq_queues s]),
           s\<lparr>mq_remaining := map (mq_used s) [0..<mq_queues s]\<rparr>)"
  using updateRemaining_from_used [OF assms, of "mq_queues s" 0 0] by (simp add: updateRemaining_def)

definition mq_total :: "'a mlfq \<Rightarrow> nat" where
  "mq_total s = sum_list (map (mq_used s) [0..<mq_queues s])"

lemma mq_ok_total_le: "mq_ok s \<Longrightarrow> mq_totalRemaining s \<le> mq_total s"
proof -
  assume ok: "mq_ok s"
  then have len: "length (mq_remaining s) = mq_queues s" by (simp add: mq_ok_def mq_wfD)
  have "sum_list (map ((!) (mq_remaining s)) [0..<mq_queues s]) \<le> mq_total s"
    unfolding mq_total_def
    by (rule sum_list_mono) (use ok mq_wf_queueD(4) in \<open>auto simp: mq_ok_def\<close>)
  with ok len show ?thesis by (metis map_nth mq_ok_def)
qed

text \<open>
  After the refresh, the number to pop is the number asked for, cut to what the queues hold, and
  the caches cover it.
\<close>

lemma pop_refresh_ok:
  assumes ok: "mq_ok s" and n: "0 < n"
  obtains s' where
    "pop_refresh s n = Inr (if mq_total s = 0 then None else Some (min n (mq_total s)), s')"
    "mq_ok s'" "mq_queues s' = mq_queues s" "mq_capacity s' = mq_capacity s"
    "mq_contents s' = mq_contents s" "mq_fullFailure s' = mq_fullFailure s"
    "mq_used s' = mq_used s" "min n (mq_total s) \<le> mq_totalRemaining s'"
    "mq_current s' = mq_current s"
    "\<And>i. i < mq_queues s \<Longrightarrow> mq_remaining s' ! i =
       (if mq_totalRemaining s < n then mq_used s i else mq_remaining s ! i)"
proof (cases "mq_totalRemaining s < n")
  case True
  have wf: "mq_wf s" using ok by (simp add: mq_ok_def)
  let ?s = "s\<lparr>mq_remaining := map (mq_used s) [0..<mq_queues s], mq_totalRemaining := mq_total s\<rparr>"
  have "pop_refresh s n = Inr (if mq_total s = 0 then None else Some (min n (mq_total s)), ?s)"
    using True updateRemaining_used [OF wf] by (simp add: pop_refresh_def mq_total_def Let_def)
  moreover have "mq_ok ?s"
    using wf by (auto simp: mq_ok_def mq_wf_def mq_used_def mq_total_def)
  ultimately show thesis
    using True by (intro that [of ?s]) (auto simp: mq_contents_def mq_used_def)
next
  case False
  with ok n mq_ok_total_le [OF ok] show thesis
    by (intro that [of s]) (auto simp: pop_refresh_def min_def)
qed

section \<open>Sharing the pop among the queues\<close>

text \<open>
  The inner loop of the cyclic policy: no queue gives more than it has, what is missing decreases
  by what the queues give, and \<open>missing -= avail\<close> never goes below zero.
\<close>

lemma rr_for_step:
  assumes "missing > 0"
  shows "rr_for (Suc k) nq per rem missing cur =
    rr_for k nq per (rem[cur := rem ! cur - min (rem ! cur) per])
      (missing - min (rem ! cur) per) ((cur + 1) mod nq)"
proof (cases "min (rem ! cur) per = 0")
  case True
  then have "rem[cur := rem ! cur - min (rem ! cur) per] = rem" by simp
  with True assms show ?thesis by (simp only: rr_for.simps Let_def) simp
next
  case False
  with assms show ?thesis by (simp add: Let_def)
qed

lemma rr_for_shares:
  assumes "rr_for k nq per rem missing cur = (rem', missing', cur')"
    and "length rem = nq" "cur < nq" "per = 1 \<or> k * per \<le> missing"
  shows "length rem' = nq \<and> cur' < nq \<and> (\<forall>i < nq. rem' ! i \<le> rem ! i) \<and>
    missing' \<le> missing \<and> sum_list rem' + missing = sum_list rem + missing'"
  using assms
proof (induction k arbitrary: rem missing cur)
  case (Suc k)
  show ?case
  proof (cases "missing > 0")
    case True
    define avail where "avail = min (rem ! cur) per"
    define r where "r = rem[cur := rem ! cur - avail]"
    have le: "avail \<le> missing" using Suc.prems(4) True by (auto simp: avail_def)
    have step: "rr_for k nq per r (missing - avail) ((cur + 1) mod nq) = (rem', missing', cur')"
      using Suc.prems(1) True rr_for_step by (metis avail_def r_def)
    have sum: "sum_list r + avail = sum_list rem"
      using sum_list_update_nat [of cur rem "rem ! cur - avail"] Suc.prems(2,3)
      by (auto simp: r_def avail_def)
    have per: "per = 1 \<or> k * per \<le> missing - avail" using Suc.prems(4) by (auto simp: avail_def)
    have len: "length r = nq" "(cur + 1) mod nq < nq" using Suc.prems(2,3) by (auto simp: r_def)
    have "r ! i \<le> rem ! i" for i
      using Suc.prems(2,3) by (cases "i = cur") (auto simp: r_def)
    with Suc.IH [OF step len per] show ?thesis using le sum by (auto intro: order_trans)
  next
    case False
    with Suc.prems show ?thesis by simp
  qed
qed auto

lemma rr_for_progress:
  assumes "rr_for k nq per rem missing cur = (rem', missing', cur')"
    and "length rem = nq" "cur < nq" "per = 1 \<or> k * per \<le> missing"
    and "0 < missing" "0 < per" "j < k" "0 < rem ! ((cur + j) mod nq)"
  shows "missing' < missing"
  using assms
proof (induction k arbitrary: rem missing cur j)
  case (Suc k)
  define avail where "avail = min (rem ! cur) per"
  define r where "r = rem[cur := rem ! cur - avail]"
  have step: "rr_for k nq per r (missing - avail) ((cur + 1) mod nq) = (rem', missing', cur')"
    using Suc.prems(1,5) rr_for_step by (metis avail_def r_def)
  have per: "per = 1 \<or> k * per \<le> missing - avail" using Suc.prems(4) by (auto simp: avail_def)
  have len: "length r = nq" "(cur + 1) mod nq < nq" using Suc.prems(2,3) by (auto simp: r_def)
  have le: "missing' \<le> missing - avail"
    using rr_for_shares [OF step len per] by simp
  show ?case
  proof (cases "avail = 0")
    case False
    with le Suc.prems(5) show ?thesis by linarith
  next
    case True
    then have zero: "rem ! cur = 0" and same: "r = rem"
      using Suc.prems(6) by (auto simp: avail_def r_def)
    have "j \<noteq> 0" using zero Suc.prems(3,8) by (cases j) auto
    then obtain j' where j': "j = Suc j'" by (cases j) auto
    have "((cur + 1) mod nq + j') mod nq = (cur + j) mod nq"
      by (simp add: j' mod_simps)
    with Suc.prems(8) have "0 < r ! (((cur + 1) mod nq + j') mod nq)" by (simp add: same)
    from Suc.IH [OF step len per _ Suc.prems(6) _ this] show ?thesis
      using Suc.prems(5,7) True j' by simp
  qed
qed auto

text \<open>
  The outer loop returns: as long as something is missing, some queue can give it, and one round
  visits them all.
\<close>

lemma rr_while_total:
  assumes "0 < nq" "length rem = nq" "cur < nq" "missing \<le> sum_list rem"
  shows "\<exists>rem' cur'. rr_while nq rem missing cur = Some (rem', cur') \<and> length rem' = nq \<and>
    cur' < nq \<and> (\<forall>i < nq. rem' ! i \<le> rem ! i) \<and> sum_list rem' + missing = sum_list rem"
  using assms
proof (induction missing arbitrary: rem cur rule: less_induct)
  case (less missing)
  show ?case
  proof (cases "missing = 0")
    case True
    with less.prems show ?thesis by (simp add: rr_while.simps)
  next
    case False
    let ?per = "max (missing div nq) 1"
    obtain r m c where rf: "rr_for nq nq ?per rem missing cur = (r, m, c)"
      by (cases "rr_for nq nq ?per rem missing cur") auto
    have per: "?per = 1 \<or> nq * ?per \<le> missing"
      by (auto simp: max_def)
    have sh: "length r = nq" "c < nq" "\<forall>i < nq. r ! i \<le> rem ! i" "m \<le> missing"
        "sum_list r + missing = sum_list rem + m"
      using rr_for_shares [OF rf less.prems(2,3) per] by auto
    have "sum_list rem \<noteq> 0" using False less.prems(4) by linarith
    then obtain i where i: "i < nq" "0 < rem ! i"
      using less.prems(2) by (metis in_set_conv_nth not_gr_zero sum_list_eq_0_iff)
    let ?j = "(i + nq - cur) mod nq"
    have "(cur + ?j) mod nq = i"
      using i less.prems(3) by (simp add: mod_simps)
    then have "m < missing"
      using rr_for_progress [OF rf less.prems(2,3) per, of ?j] i False less.prems(1) by auto
    then obtain r' c' where "rr_while nq r m c = Some (r', c')" "length r' = nq" "c' < nq"
        "\<forall>i < nq. r' ! i \<le> r ! i" "sum_list r' + m = sum_list r"
      using less.IH [of m r c] less.prems(1,4) sh by auto
    with rf sh False show ?thesis
      by (subst rr_while.simps) (auto intro: order_trans)
  qed
qed

text \<open>
  Fairness: one round visits every queue, so each gives its share of the elements or all it has.
\<close>

lemma rr_for_gives:
  assumes "rr_for k nq per rem missing cur = (rem', missing', cur')"
    and "length rem = nq" "cur < nq" "k \<le> nq" "0 < per" "k * per \<le> missing" "j < k"
  shows "rem' ! ((cur + j) mod nq) + min (rem ! ((cur + j) mod nq)) per \<le> rem ! ((cur + j) mod nq)"
  using assms
proof (induction k arbitrary: rem missing cur j)
  case (Suc k)
  define avail where "avail = min (rem ! cur) per"
  define r where "r = rem[cur := rem ! cur - avail]"
  have "0 < Suc k * per" using Suc.prems(5) by simp
  then have pos: "0 < missing" using Suc.prems(6) by linarith
  have step: "rr_for k nq per r (missing - avail) ((cur + 1) mod nq) = (rem', missing', cur')"
    using Suc.prems(1) pos rr_for_step by (metis avail_def r_def)
  have per: "k * per \<le> missing - avail" using Suc.prems(6) by (auto simp: avail_def)
  have len: "length r = nq" "(cur + 1) mod nq < nq" using Suc.prems(2,3) by (auto simp: r_def)
  show ?case
  proof (cases j)
    case 0
    have "rem' ! cur \<le> r ! cur" using rr_for_shares [OF step len] per Suc.prems(3) by blast
    with 0 Suc.prems(2,3) show ?thesis by (simp add: r_def avail_def)
  next
    case (Suc j')
    have idx: "((cur + 1) mod nq + j') mod nq = (cur + j) mod nq" by (simp add: Suc mod_simps)
    have "(cur + j) mod nq \<noteq> cur"
      using Suc Suc.prems(3,4,7) by (auto simp: mod_less_twice)
    then have "r ! ((cur + j) mod nq) = rem ! ((cur + j) mod nq)" by (simp add: r_def)
    with Suc.IH [OF step len _ Suc.prems(5) per, of j'] idx Suc Suc.prems(4,7) show ?thesis by simp
  qed
qed auto

lemma rr_while_fair:
  assumes "rr_while nq rem missing cur = Some (rem', cur')"
    and "0 < nq" "length rem = nq" "cur < nq" "missing \<le> sum_list rem" "i < nq"
  shows "rem' ! i + min (rem ! i) (missing div nq) \<le> rem ! i"
proof (cases "missing div nq = 0")
  case True
  with rr_while_total [OF assms(2-5)] assms(1,6) show ?thesis by auto
next
  case False
  let ?per = "max (missing div nq) 1"
  have per: "?per = missing div nq" "nq * ?per \<le> missing" "missing \<noteq> 0" using False by (cases "missing = 0", auto)+
  obtain r m c where rf: "rr_for nq nq ?per rem missing cur = (r, m, c)"
    by (cases "rr_for nq nq ?per rem missing cur") auto
  have sh: "length r = nq" "c < nq" "m \<le> missing" "sum_list r + missing = sum_list rem + m"
    using rr_for_shares [OF rf assms(3,4)] per by auto
  have w: "rr_while nq r m c = Some (rem', cur')"
    using assms(1) rf per(3) by (subst (asm) rr_while.simps) simp
  have "rem' ! i \<le> r ! i"
    using rr_while_total [OF assms(2) sh(1,2), of m] w sh(4) assms(5,6) by auto
  moreover have "(cur + (i + nq - cur) mod nq) mod nq = i"
    using assms(4,6) by (simp add: mod_simps)
  then have "r ! i + min (rem ! i) ?per \<le> rem ! i"
    using rr_for_gives [OF rf assms(3,4), of "(i + nq - cur) mod nq"] per assms(2) by simp
  ultimately show ?thesis using per(1) by simp
qed

section \<open>Popping from the queues\<close>

text \<open>What queue \<open>i\<close> still has to give, the local array \<open>remaining\<close> being \<open>rem\<close>.\<close>

definition assigned :: "nat list \<Rightarrow> 'a mlfq \<Rightarrow> nat \<Rightarrow> nat" where
  "assigned rem s i = mq_remaining s ! i - rem ! i"

text \<open>
  The loop invariant of \<open>pop_while\<close>: the queues with something to give are among the next \<open>k\<close>
  ones from \<open>q\<close>, and together they complete the \<open>n\<close> values.
\<close>

definition pop_pre :: "nat \<Rightarrow> nat list \<Rightarrow> 'a mlfq \<Rightarrow> nat \<Rightarrow> nat \<Rightarrow> nat \<Rightarrow> nat \<Rightarrow> bool" where
  "pop_pre nq rem s q k have n \<longleftrightarrow>
     mq_wf s \<and> mq_queues s = nq \<and> q < nq \<and> length rem = nq \<and> k \<le> nq \<and>
     (\<forall>i < nq. rem ! i \<le> mq_remaining s ! i) \<and>
     (\<forall>i < nq. i \<notin> (\<lambda>j. (q + j) mod nq) ` {..<k} \<longrightarrow> assigned rem s i = 0) \<and>
     have + sum_list (map (\<lambda>j. assigned rem s ((q + j) mod nq)) [0..<k]) = n"

definition pop_post :: "nat list \<Rightarrow> 'a mlfq \<Rightarrow> 'a mlfq \<Rightarrow> bool" where
  "pop_post rem s s' \<longleftrightarrow> mq_wf s' \<and> mq_queues s' = mq_queues s \<and>
     mq_capacity s' = mq_capacity s \<and> mq_fullFailure s' = mq_fullFailure s \<and>
     mq_current s' = mq_current s \<and> mq_totalRemaining s' = mq_totalRemaining s \<and>
     mq_remaining s' = rem \<and>
     (\<forall>i < mq_queues s. mq_contents s' i = drop (assigned rem s i) (mq_contents s i))"

abbreviation cyclic_takes :: "nat list \<Rightarrow> 'a mlfq \<Rightarrow> nat \<Rightarrow> nat \<Rightarrow> 'a list list" where
  "cyclic_takes rem s q k \<equiv>
     map (\<lambda>j. take (assigned rem s ((q + j) mod mq_queues s))
                    (mq_contents s ((q + j) mod mq_queues s))) [0..<k]"

lemma cyclic_index_neq:
  fixes q j nq :: nat
  assumes "q < nq" "Suc j < nq"
  shows "(q + Suc j) mod nq \<noteq> q"
  using assms by (cases "q + Suc j < nq") (auto simp: mod_less_twice)

lemma cyclic_index_Suc: "(Suc q mod nq + j) mod nq = Suc (q + j) mod nq" for q j nq :: nat
  by (simp add: mod_simps)

lemma cyclic_image_Suc:
  assumes "q < nq"
  shows "(\<lambda>j. (q + j) mod nq) ` {..<Suc k} =
    insert q ((\<lambda>j. ((q + 1) mod nq + j) mod nq) ` {..<k})"
  using assms by (auto simp: cyclic_index_Suc lessThan_Suc_eq_insert_0 image_image)

lemma pop_pre_zero_remaining:
  assumes "pop_pre nq rem s q k have n" "\<forall>i < nq. assigned rem s i = 0"
  shows "mq_remaining s = rem"
  using assms mq_wfD(7) [of s]
  by (intro nth_equalityI) (auto simp: pop_pre_def assigned_def le_antisym)

text \<open>The loop ends when the \<open>n\<close> values are there: then no queue has anything left to give.\<close>

lemma pop_while_done:
  assumes pre: "pop_pre nq rem s q k (length vals) n" and "\<not> length vals < n"
  shows "pop_while n rem s q vals = ret (vals @ concat (cyclic_takes rem s q k), s) \<and>
    pop_post rem s s"
proof -
  have z: "\<forall>j < k. assigned rem s ((q + j) mod nq) = 0"
    using assms by (auto simp: pop_pre_def)
  with pre have az: "\<forall>i < nq. assigned rem s i = 0"
    by (auto simp: pop_pre_def image_iff)
  moreover have "concat (cyclic_takes rem s q k) = []"
    using pre z by (simp add: pop_pre_def)
  ultimately show ?thesis
    using assms pop_pre_zero_remaining [OF pre az]
    by (simp add: pop_while.simps pop_post_def pop_pre_def)
qed

lemma pop_while_skip:
  assumes pre: "pop_pre nq rem s q (Suc k) (length vals) n" and "length vals < n"
    and zero: "assigned rem s q = 0"
  shows "pop_while n rem s q vals = pop_while n rem s ((q + 1) mod nq) vals"
    and "pop_pre nq rem s ((q + 1) mod nq) k (length vals) n"
    and "concat (cyclic_takes rem s q (Suc k)) = concat (cyclic_takes rem s ((q + 1) mod nq) k)"
proof -
  have q: "q < nq" "mq_queues s = nq" using pre by (auto simp: pop_pre_def)
  show "pop_while n rem s q vals = pop_while n rem s ((q + 1) mod nq) vals"
    using assms q by (subst pop_while.simps) (simp add: assigned_def)
  show "pop_pre nq rem s ((q + 1) mod nq) k (length vals) n"
    using pre zero q
    by (auto simp: pop_pre_def map_upt_Suc cyclic_index_Suc cyclic_image_Suc simp del: upt_Suc)
  show "concat (cyclic_takes rem s q (Suc k)) = concat (cyclic_takes rem s ((q + 1) mod nq) k)"
    using q zero by (simp add: map_upt_Suc cyclic_index_Suc del: upt_Suc)
qed

lemma pop_while_take:
  assumes pre: "pop_pre nq rem s q (Suc k) (length vals) n" and more: "length vals < n"
    and pos: "0 < assigned rem s q"
  obtains s1 where
    "pop_while n rem s q vals = pop_while n rem s1 ((q + 1) mod nq)
       (vals @ take (assigned rem s q) (mq_contents s q))"
    "pop_pre nq rem s1 ((q + 1) mod nq) k
       (length (vals @ take (assigned rem s q) (mq_contents s q))) n"
    "concat (cyclic_takes rem s q (Suc k)) =
       take (assigned rem s q) (mq_contents s q) @ concat (cyclic_takes rem s1 ((q + 1) mod nq) k)"
    "\<And>s'. pop_post rem s1 s' \<Longrightarrow> pop_post rem s s'"
proof -
  let ?a = "assigned rem s q" and ?q = "(q + 1) mod nq"
  have q: "q < nq" "mq_queues s = nq" and wf: "mq_wf s" and k: "Suc k \<le> nq"
    and rem: "length rem = nq" "\<forall>i < nq. rem ! i \<le> mq_remaining s ! i"
    using pre by (auto simp: pop_pre_def)
  have len: "length (mq_remaining s) = nq" using mq_wfD(7) [OF wf] q by simp
  obtain s1 where s1: "unsafePop s q ?a = Inr (take ?a (mq_contents s q), s1)" "mq_wf s1"
    "mq_queues s1 = nq" "mq_capacity s1 = mq_capacity s"
    "mq_fullFailure s1 = mq_fullFailure s" "mq_totalRemaining s1 = mq_totalRemaining s"
    "mq_current s1 = mq_current s"
    "mq_remaining s1 = (mq_remaining s)[q := mq_remaining s ! q - ?a]"
    "\<And>i. i < nq \<Longrightarrow> mq_contents s1 i = (if i = q then drop ?a (mq_contents s q) else mq_contents s i)"
    using unsafePop_contents [OF wf _ pos, of q] q by (metis assigned_def diff_le_self)
  have asg: "assigned rem s1 i = (if i = q then 0 else assigned rem s i)" if "i < nq" for i
    using that q rem len s1(8) by (auto simp: assigned_def)
  have neq: "(q + Suc j) mod nq \<noteq> q" "(q + Suc j) mod nq < nq" if "j < k" for j
    using cyclic_index_neq [OF q(1)] that k q(1) by auto
  have alen: "length (take ?a (mq_contents s q)) = ?a"
    using mq_wf_queueD(4) [OF wf, of q] q by (simp add: assigned_def)
  have "pop_while n rem s q vals = pop_while n rem s1 ?q (vals @ take ?a (mq_contents s q))"
    using more pos q s1(1,3) by (subst pop_while.simps) (simp add: assigned_def)
  moreover have "pop_pre nq rem s1 ?q k (length (vals @ take ?a (mq_contents s q))) n"
  proof -
    have sum: "length (vals @ take ?a (mq_contents s q)) +
        sum_list (map (\<lambda>j. assigned rem s1 ((?q + j) mod nq)) [0..<k]) = n"
    proof -
      have "map (\<lambda>j. assigned rem s1 ((?q + j) mod nq)) [0..<k] =
          map (\<lambda>j. assigned rem s ((q + Suc j) mod nq)) [0..<k]"
        using neq asg by (simp add: cyclic_index_Suc)
      moreover have "length vals + (?a + sum_list (map (\<lambda>j. assigned rem s ((q + Suc j) mod nq)) [0..<k])) = n"
        using pre q by (simp add: pop_pre_def map_upt_Suc del: upt_Suc)
      ultimately show ?thesis using alen by (simp only: length_append add.assoc)
    qed
    moreover have "rem ! i \<le> mq_remaining s1 ! i" if "i < nq" for i
      using that q rem len s1(8) by (cases "i = q") (auto simp: assigned_def)
    moreover have "assigned rem s1 i = 0"
      if "i < nq" "i \<notin> (\<lambda>j. (?q + j) mod nq) ` {..<k}" for i
      using pre that asg q(1) by (auto simp: pop_pre_def cyclic_image_Suc)
    ultimately show ?thesis
      using pre s1(2,3) q by (simp add: pop_pre_def)
  qed
  moreover have "concat (cyclic_takes rem s q (Suc k)) =
      take ?a (mq_contents s q) @ concat (cyclic_takes rem s1 ?q k)"
  proof -
    have "cyclic_takes rem s1 ?q k = map (\<lambda>j. take (assigned rem s ((q + Suc j) mod nq))
        (mq_contents s ((q + Suc j) mod nq))) [0..<k]"
      using q s1(3,9) neq asg by (intro map_cong) (auto simp: cyclic_index_Suc)
    then show ?thesis using q by (simp only: map_upt_Suc concat.simps) simp
  qed
  moreover have "pop_post rem s s'" if "pop_post rem s1 s'" for s'
    using that s1 q asg by (auto simp: pop_post_def)
  ultimately show thesis by (rule that)
qed

lemma pop_while_takes:
  assumes "pop_pre nq rem s q k (length vals) n"
  shows "\<exists>s'. pop_while n rem s q vals = ret (vals @ concat (cyclic_takes rem s q k), s') \<and>
    pop_post rem s s'"
  using assms
proof (induction k arbitrary: s q vals)
  case 0
  then have "\<not> length vals < n" by (simp add: pop_pre_def)
  with "0" show ?case using pop_while_done by blast
next
  case (Suc k)
  consider "\<not> length vals < n" | "length vals < n" "assigned rem s q = 0"
    | "length vals < n" "0 < assigned rem s q" by linarith
  then show ?case
  proof cases
    case 1
    with Suc.prems show ?thesis using pop_while_done by blast
  next
    case 2
    note skip = pop_while_skip [OF Suc.prems 2]
    from Suc.IH [OF skip(2)] show ?thesis by (simp only: skip(1,3))
  next
    case 3
    let ?v = "vals @ take (assigned rem s q) (mq_contents s q)"
    obtain s1 where s1: "pop_while n rem s q vals = pop_while n rem s1 ((q + 1) mod nq) ?v"
        "pop_pre nq rem s1 ((q + 1) mod nq) k (length ?v) n"
        "concat (cyclic_takes rem s q (Suc k)) =
           take (assigned rem s q) (mq_contents s q) @
           concat (cyclic_takes rem s1 ((q + 1) mod nq) k)"
        "\<And>s'. pop_post rem s1 s' \<Longrightarrow> pop_post rem s s'"
      by (rule pop_while_take [OF Suc.prems 3]) (rule that)
    from Suc.IH [OF s1(2)] obtain s' where
        "pop_while n rem s1 ((q + 1) mod nq) ?v =
           ret (?v @ concat (cyclic_takes rem s1 ((q + 1) mod nq) k), s')" "pop_post rem s1 s'"
      by blast
    with s1(1,4) show ?thesis by (intro exI [of _ s']) (simp only: s1(3) append.assoc simp_thms)
  qed
qed

lemma mq_lists_conv:
  "length (mq_lists s) = mq_queues s" "i < mq_queues s \<Longrightarrow> mq_lists s ! i = mq_contents s i"
  by (auto simp: mq_lists_def)

lemma mq_total_lists: "mq_total s = sum_list (map length (mq_lists s))"
  by (simp add: mq_total_def mq_lists_def comp_def)

lemma sum_assigned:
  assumes "length rem = nq" "length (mq_remaining s) = nq" "\<forall>i < nq. rem ! i \<le> mq_remaining s ! i"
  shows "sum_list (map (\<lambda>j. assigned rem s ((q + j) mod nq)) [0..<nq]) + sum_list rem =
    sum_list (mq_remaining s)"
proof -
  have "sum_list (map (assigned rem s) [0..<nq]) + sum_list (map ((!) rem) [0..<nq]) =
      sum_list (map (\<lambda>i. assigned rem s i + rem ! i) [0..<nq])"
    by (simp add: sum_list_addf)
  also have "map (\<lambda>i. assigned rem s i + rem ! i) [0..<nq] = map ((!) (mq_remaining s)) [0..<nq]"
    using assms(3) by (auto simp: assigned_def)
  finally show ?thesis
    using assms(1,2) by (simp add: map_cyclic_rotate map_nth [of rem, unfolded assms(1)]
        map_nth [of "mq_remaining s", unfolded assms(2)])
qed

text \<open>The effect of a pop on the queues: each gives a prefix of its elements.\<close>

definition pop_effect :: "'a mlfq \<Rightarrow> 'a list list \<Rightarrow> 'a mlfq \<Rightarrow> bool" where
  "pop_effect s taken s' \<longleftrightarrow> mq_ok s' \<and> mq_capacity s' = mq_capacity s \<and>
     mq_queues s' = mq_queues s \<and> mq_fullFailure s' = mq_fullFailure s \<and>
     length taken = mq_queues s \<and> mq_lists s = map2 (@) taken (mq_lists s')"

lemma pop_effect_none:
  assumes "mq_ok s'" "mq_capacity s' = mq_capacity s" "mq_queues s' = mq_queues s"
    "mq_fullFailure s' = mq_fullFailure s" "mq_contents s' = mq_contents s"
  shows "pop_effect s (replicate (mq_queues s) []) s'"
  using assms by (auto intro!: nth_equalityI simp: pop_effect_def mq_lists_conv)

lemma concat_rotate_nils [simp]: "concat (rotate i (replicate n [])) = []"
  by auto

lemma length_concat_rotate [simp]:
  "length (concat (rotate i xss)) = length (concat xss)"
  by (metis length_concat mset_map mset_rotate sum_mset_sum_list)

lemma cyclic_pop_core:
  assumes ok: "mq_ok s" and m: "m \<le> mq_totalRemaining s"
  obtains rem cur s' where
    "rr_while (mq_queues s) (mq_remaining s) m (mq_current s) = Some (rem, cur)"
    "pop_while m rem (s\<lparr>mq_current := cur, mq_totalRemaining := mq_totalRemaining s - m\<rparr>)
       (mq_current s) [] =
     ret (concat (rotate (mq_current s)
            (map (\<lambda>i. take (assigned rem s i) (mq_contents s i)) [0..<mq_queues s])), s')"
    "pop_effect s (map (\<lambda>i. take (assigned rem s i) (mq_contents s i)) [0..<mq_queues s]) s'"
    "sum_list (map (assigned rem s) [0..<mq_queues s]) = m"
    "\<forall>i < mq_queues s. min (mq_remaining s ! i) (m div mq_queues s) \<le> assigned rem s i"
proof -
  have wf: "mq_wf s" and tot: "mq_totalRemaining s = sum_list (mq_remaining s)"
    using ok by (auto simp: mq_ok_def)
  note W = mq_wfD [OF wf]
  obtain rem cur where rr: "rr_while (mq_queues s) (mq_remaining s) m (mq_current s) = Some (rem, cur)"
    and rem: "length rem = mq_queues s" "cur < mq_queues s"
      "\<forall>i < mq_queues s. rem ! i \<le> mq_remaining s ! i" "sum_list rem + m = sum_list (mq_remaining s)"
    using rr_while_total [of "mq_queues s" "mq_remaining s" "mq_current s" m] W m tot by auto
  let ?s = "s\<lparr>mq_current := cur, mq_totalRemaining := mq_totalRemaining s - m\<rparr>"
  have same: "assigned rem ?s = assigned rem s" "mq_contents ?s = mq_contents s"
    by (auto simp: assigned_def mq_contents_def)
  have wf': "mq_wf ?s" using wf rem(2) by (auto simp: mq_wf_def mq_used_def)
  have sum: "sum_list (map (\<lambda>j. assigned rem s ((mq_current s + j) mod mq_queues s)) [0..<mq_queues s]) = m"
    using sum_assigned [of rem "mq_queues s" s "mq_current s"] rem W by simp
  have cover: "\<forall>i < mq_queues s. i \<in> (\<lambda>j. (mq_current s + j) mod mq_queues s) ` {..<mq_queues s}"
  proof (intro allI impI)
    fix i assume i: "i < mq_queues s"
    have "(mq_current s + (i + mq_queues s - mq_current s) mod mq_queues s) mod mq_queues s = i"
      using i W by (simp add: mod_simps)
    then show "i \<in> (\<lambda>j. (mq_current s + j) mod mq_queues s) ` {..<mq_queues s}"
      using W by (intro image_eqI [where x = "(i + mq_queues s - mq_current s) mod mq_queues s"]) auto
  qed
  have "pop_pre (mq_queues s) rem ?s (mq_current s) (mq_queues s) (length []) m"
    using wf' rem W sum cover by (auto simp: pop_pre_def same)
  from pop_while_takes [OF this] obtain s' where
    s': "pop_while m rem ?s (mq_current s) [] =
           ret (concat (cyclic_takes rem ?s (mq_current s) (mq_queues s)), s')" "pop_post rem ?s s'"
    by auto
  have takes: "cyclic_takes rem ?s (mq_current s) (mq_queues s) = rotate (mq_current s)
      (map (\<lambda>i. take (assigned rem s i) (mq_contents s i)) [0..<mq_queues s])"
    unfolding same by (simp add: map_cyclic_rotate [symmetric])
  have "pop_effect s (map (\<lambda>i. take (assigned rem s i) (mq_contents s i)) [0..<mq_queues s]) s'"
  proof -
    have "mq_contents s' i = drop (assigned rem s i) (mq_contents s i)" if "i < mq_queues s" for i
      using s'(2) that by (simp add: pop_post_def same)
    moreover have "mq_queues s' = mq_queues s" using s'(2) by (simp add: pop_post_def)
    ultimately have "mq_lists s =
        map2 (@) (map (\<lambda>i. take (assigned rem s i) (mq_contents s i)) [0..<mq_queues s]) (mq_lists s')"
      by (intro list_eq_iff_nth_eq [THEN iffD2]) (simp add: mq_lists_conv)
    then show ?thesis
      using s'(2) rem(4) tot by (simp add: pop_effect_def pop_post_def mq_ok_def)
  qed
  moreover have "sum_list (map (assigned rem s) [0..<mq_queues s]) = m"
    using sum by (simp add: map_cyclic_rotate)
  moreover have "min (mq_remaining s ! i) (m div mq_queues s) \<le> assigned rem s i"
    if "i < mq_queues s" for i
    using rr_while_fair [OF rr W(1,7,9) _ that] m tot by (simp add: assigned_def)
  ultimately show thesis
    by (intro that [OF rr s'(1) [unfolded takes]]) auto
qed

text \<open>
  The pop of the cyclic policy, as the ticket manager uses it: it always returns, with as many
  elements as asked for or as there are; from every queue they are its oldest ones, in order, and
  they come queue after queue from the current one on. Every queue gives at least its share of
  the elements, or all that the consumer sees in it (\<open>mq_visible\<close>).
\<close>

definition mq_visible :: "'a mlfq \<Rightarrow> nat \<Rightarrow> nat \<Rightarrow> nat" where
  "mq_visible s n i = (if mq_totalRemaining s < n then mq_used s i else mq_remaining s ! i)"


lemma cyclicRoundRobinPop_takes:
  assumes ok: "mq_ok s"
  obtains taken s' where
    "cyclicRoundRobinPop s n = ret (concat (rotate (mq_current s) taken), s')"
    "pop_effect s taken s'" "length (concat taken) = min n (mq_total s)"
    "\<forall>i < mq_queues s. min (mq_visible s n i) (min n (mq_total s) div mq_queues s) \<le> length (taken ! i)"
proof (cases "n = 0")
  case True
  with ok show thesis
    by (intro that [of "replicate (mq_queues s) []" s])
       (auto simp: cyclicRoundRobinPop_def pop_effect_none)
next
  case False
  obtain s1 where s1:
    "pop_refresh s n = Inr (if mq_total s = 0 then None else Some (min n (mq_total s)), s1)"
    "mq_ok s1" "mq_queues s1 = mq_queues s" "mq_capacity s1 = mq_capacity s"
    "mq_contents s1 = mq_contents s" "mq_fullFailure s1 = mq_fullFailure s"
    "min n (mq_total s) \<le> mq_totalRemaining s1" "mq_current s1 = mq_current s"
    "\<And>i. i < mq_queues s \<Longrightarrow> mq_remaining s1 ! i = mq_visible s n i"
    by (rule pop_refresh_ok [OF ok, of n]) (use False in \<open>auto simp: mq_visible_def intro: that\<close>)
  show thesis
  proof (cases "mq_total s = 0")
    case True
    with s1 False show thesis
      by (intro that [of "replicate (mq_queues s) []" s1])
         (auto simp: cyclicRoundRobinPop_def pop_effect_none)
  next
    case nz: False
    obtain rem cur s' where c:
      "rr_while (mq_queues s1) (mq_remaining s1) (min n (mq_total s)) (mq_current s1) = Some (rem, cur)"
      "pop_while (min n (mq_total s)) rem
         (s1\<lparr>mq_current := cur, mq_totalRemaining := mq_totalRemaining s1 - min n (mq_total s)\<rparr>)
         (mq_current s1) [] =
       ret (concat (rotate (mq_current s1)
            (map (\<lambda>i. take (assigned rem s1 i) (mq_contents s1 i)) [0..<mq_queues s1])), s')"
      "pop_effect s1 (map (\<lambda>i. take (assigned rem s1 i) (mq_contents s1 i)) [0..<mq_queues s1]) s'"
      "sum_list (map (assigned rem s1) [0..<mq_queues s1]) = min n (mq_total s)"
      "\<forall>i < mq_queues s1. min (mq_remaining s1 ! i) (min n (mq_total s) div mq_queues s1) \<le> assigned rem s1 i"
      using cyclic_pop_core [OF s1(2,7)] by blast
    let ?taken = "map (\<lambda>i. take (assigned rem s1 i) (mq_contents s1 i)) [0..<mq_queues s1]"
    have le: "assigned rem s1 i \<le> mq_used s1 i" if "i < mq_queues s1" for i
      using mq_wf_queueD(4) [of s1 i] s1(2) that by (auto simp: assigned_def mq_ok_def)
    have "length (concat ?taken) = min n (mq_total s)"
    proof -
      from le have "map length ?taken = map (assigned rem s1) [0..<mq_queues s1]"
        by (auto simp: comp_def)
      with c(4) show ?thesis by (simp only: length_concat)
    qed
    moreover have "pop_effect s ?taken s'"
      using c(3) s1 by (simp add: pop_effect_def mq_lists_def)
    moreover have "\<forall>i < mq_queues s.
        min (mq_visible s n i) (min n (mq_total s) div mq_queues s) \<le> length (?taken ! i)"
      using c(5) le s1(3,9) by auto
    ultimately show thesis
      using c(1,2) s1 False nz
      by (intro that [of ?taken s']) (simp_all add: cyclicRoundRobinPop_def)
  qed
qed

end
