(* ===== verification/Multi_Queue_Spec.thy ===== *)
theory Multi_Queue_Spec
  imports Multi_Queue Prequeue
begin

text \<open>
  The contract of \<open>MultiLockFreeQueue\<close> for its users: the block policy also returns and loses nothing,
  both policies meet the contract of a pre-queue, pushes are first-in first-out for each CPU, and a
  push that spins ends once the consumer makes room.
\<close>

section \<open>The block policy\<close>

definition mq_takes :: "'a mlfq \<Rightarrow> 'a list list \<Rightarrow> 'a mlfq \<Rightarrow> bool" where
  "mq_takes s taken s' \<longleftrightarrow> mq_wf s' \<and> mq_capacity s' = mq_capacity s \<and>
     mq_queues s' = mq_queues s \<and> mq_fullFailure s' = mq_fullFailure s \<and>
     length taken = mq_queues s \<and> mq_lists s = map2 (@) taken (mq_lists s')"

lemma map2_append_assoc:
  "length a = length b \<Longrightarrow> length b = length c \<Longrightarrow>
     map2 (@) a (map2 (@) b c) = map2 (@) (map2 (@) a b) c"
  by (induction a b c rule: list_induct3) auto

lemma mset_concat_map2:
  "length a = length b \<Longrightarrow> mset (concat (map2 (@) a b)) = mset (concat a) + mset (concat b)"
  by (induction a b rule: list_induct2) auto

lemma map2_nils: "length c = n \<Longrightarrow> map2 (@) (replicate n []) c = c"
  by (induction c arbitrary: n) auto

lemma mq_takes_none:
  assumes "mq_wf s'" "mq_capacity s' = mq_capacity s" "mq_queues s' = mq_queues s"
    "mq_fullFailure s' = mq_fullFailure s" "mq_contents s' = mq_contents s"
  shows "mq_takes s (replicate (mq_queues s) []) s'"
  using assms by (auto simp: mq_takes_def mq_lists_def map2_nils)

lemma mq_takes_trans:
  assumes "mq_takes s a s1" "mq_takes s1 b s2"
  shows "mq_takes s (map2 (@) a b) s2"
  using assms by (auto simp: mq_takes_def map2_append_assoc mq_lists_conv)

lemma mq_takes_one:
  assumes "mq_wf s'" "mq_capacity s' = mq_capacity s" "mq_queues s' = mq_queues s"
    "mq_fullFailure s' = mq_fullFailure s" "q < mq_queues s"
    "\<And>i. i < mq_queues s \<Longrightarrow>
        mq_contents s' i = (if i = q then drop n (mq_contents s q) else mq_contents s i)"
  shows "mq_takes s ((replicate (mq_queues s) [])[q := take n (mq_contents s q)]) s'"
    and "concat ((replicate (mq_queues s) [])[q := take n (mq_contents s q)]) = take n (mq_contents s q)"
proof -
  have "mq_lists s ! i = map2 (@) ((replicate (mq_queues s) [])[q := take n (mq_contents s q)]) (mq_lists s') ! i"
    if "i < mq_queues s" for i
    using assms that by (cases "i = q") (auto simp: mq_lists_conv)
  then have "mq_lists s = map2 (@) ((replicate (mq_queues s) [])[q := take n (mq_contents s q)]) (mq_lists s')"
    using assms by (intro nth_equalityI) (auto simp: mq_lists_conv)
  with assms show "mq_takes s ((replicate (mq_queues s) [])[q := take n (mq_contents s q)]) s'"
    by (simp add: mq_takes_def)
  show "concat ((replicate (mq_queues s) [])[q := take n (mq_contents s q)]) = take n (mq_contents s q)"
    using assms(5) by (simp add: upd_conv_take_nth_drop)
qed

text \<open>The loop moves on over queues without elements.\<close>

lemma block_while_skip:
  assumes "mq_wf s" "length vals < n" "0 < mq_remaining s ! ((mq_current s + j) mod mq_queues s)"
  obtains i where "0 < mq_remaining s ! i" "i < mq_queues s"
    "block_while n s vals = block_while n (s\<lparr>mq_current := i\<rparr>) vals"
  using assms
proof (induction j arbitrary: s thesis)
  case 0
  then show ?case using mq_wfD(9) [of s] by (intro "0.prems"(1) [of "mq_current s"]) auto
next
  case (Suc j)
  have c: "mq_current s < mq_queues s" using Suc.prems(2) by (rule mq_wfD(9))
  show ?case
  proof (cases "mq_remaining s ! mq_current s = 0")
    case False
    then show thesis using c by (intro Suc.prems(1) [of "mq_current s"]) auto
  next
    case True
    let ?s = "s\<lparr>mq_current := (mq_current s + 1) mod mq_queues s\<rparr>"
    have "block_while n s vals = block_while n ?s vals"
      using Suc.prems(3) c True by (subst block_while.simps) simp
    moreover have "mq_wf ?s" using Suc.prems(2) by (auto simp: mq_wf_def mq_used_def)
    moreover have "0 < mq_remaining ?s ! ((mq_current ?s + j) mod mq_queues ?s)"
      using Suc.prems(4) by (simp add: mod_simps)
    ultimately show thesis
      using Suc.IH [of ?s] Suc.prems(1,3) by (metis (no_types, lifting) mlfq.select_convs(2,6)
        mlfq.surjective mlfq.update_convs(10))
  qed
qed

lemma block_while_step:
  assumes wf: "mq_wf s" and len: "length vals < n" and q: "q < mq_queues s"
    and pos: "0 < mq_remaining s ! q"
  obtains k s' where "0 < k" "k \<le> n - length vals" "k \<le> mq_used s q"
    "block_while n (s\<lparr>mq_current := q\<rparr>) vals = block_while n s' (vals @ take k (mq_contents s q))"
    "mq_takes s ((replicate (mq_queues s) [])[q := take k (mq_contents s q)]) s'"
    "sum_list (mq_remaining s') + k = sum_list (mq_remaining s)"
    "mq_totalRemaining s' = mq_totalRemaining s"
proof -
  let ?s = "s\<lparr>mq_current := q\<rparr>" and ?k = "min (mq_remaining s ! q) (n - length vals)"
  have wf': "mq_wf ?s" using wf q by (auto simp: mq_wf_def mq_used_def)
  have same: "mq_contents ?s = mq_contents s" by (auto simp: mq_contents_def)
  have k: "0 < ?k" "?k \<le> mq_remaining ?s ! q" using pos len by auto
  obtain s' where s': "unsafePop ?s q ?k = Inr (take ?k (mq_contents ?s q), s')" "mq_wf s'"
    "mq_queues s' = mq_queues ?s" "mq_capacity s' = mq_capacity ?s"
    "mq_fullFailure s' = mq_fullFailure ?s" "mq_totalRemaining s' = mq_totalRemaining ?s"
    "mq_remaining s' = (mq_remaining ?s)[q := mq_remaining ?s ! q - ?k]"
    "\<And>i. i < mq_queues ?s \<Longrightarrow>
        mq_contents s' i = (if i = q then drop ?k (mq_contents ?s q) else mq_contents ?s i)"
    by (rule unsafePop_contents [OF wf' _ k]) (use q in \<open>auto simp: mq_used_def\<close>)
  have "block_while n ?s vals = block_while n s' (vals @ take ?k (mq_contents s q))"
    using len q k(1) s'(1) by (subst block_while.simps) (auto simp: same Let_def min_def split: if_splits)
  moreover have "mq_takes s ((replicate (mq_queues s) [])[q := take ?k (mq_contents s q)]) s'"
    by (rule mq_takes_one(1)) (use s' q same in auto)
  moreover have "sum_list (mq_remaining s') + ?k = sum_list (mq_remaining s)"
    using sum_list_update_nat [of q "mq_remaining s" "mq_remaining s ! q - ?k"] s'(7) q mq_wfD(7) [OF wf]
      member_le_sum_list_nat [of q "mq_remaining s"]
    by (simp add: min_def split: if_splits)
  moreover have "?k \<le> mq_used s q" using mq_wf_queueD(4) [OF wf q] by simp
  ultimately show thesis using s'(6) k(1) by (intro that [of ?k s']) auto
qed

lemma sum_list_pos_nat: "0 < sum_list xs \<Longrightarrow> \<exists>i < length xs. 0 < xs ! i" for xs :: "nat list"
  by (metis gr0I in_set_conv_nth sum_list_eq_0_iff)

text \<open>It ends with the number of elements asked for, each from the front of its queue.\<close>

lemma block_while_takes:
  assumes "mq_wf s" "length vals \<le> n" "n \<le> length vals + sum_list (mq_remaining s)"
  shows "\<exists>xs taken s'. block_while n s vals = ret (vals @ xs, s') \<and> mq_takes s taken s' \<and>
    mset xs = mset (concat taken) \<and> length xs = n - length vals \<and>
    sum_list (mq_remaining s') + length xs = sum_list (mq_remaining s) \<and>
    mq_totalRemaining s' = mq_totalRemaining s"
  using assms
proof (induction "n - length vals" arbitrary: s vals rule: less_induct)
  case less
  show ?case
  proof (cases "length vals < n")
    case False
    then have "block_while n s vals = ret (vals @ [], s)"
      by (subst block_while.simps) simp
    then show ?thesis
      using less.prems False
      by (intro exI [of _ "[]"] exI [of _ "replicate (mq_queues s) []"] exI [of _ s])
        (simp add: mq_takes_none)
  next
    case True
    note W = mq_wfD [OF less.prems(1)]
    obtain i0 where i0: "i0 < mq_queues s" "0 < mq_remaining s ! i0"
      using sum_list_pos_nat [of "mq_remaining s"] less.prems True W by auto
    have "(mq_current s + (i0 + mq_queues s - mq_current s)) mod mq_queues s = i0"
      using i0 W by simp
    then obtain q where q: "0 < mq_remaining s ! q" "q < mq_queues s"
      "block_while n s vals = block_while n (s\<lparr>mq_current := q\<rparr>) vals"
      using block_while_skip [OF less.prems(1) True, of "i0 + mq_queues s - mq_current s"] i0 by metis
    obtain k s1 where k: "0 < k" "k \<le> n - length vals" "k \<le> mq_used s q"
      and s1: "block_while n (s\<lparr>mq_current := q\<rparr>) vals = block_while n s1 (vals @ take k (mq_contents s q))"
        "mq_takes s ((replicate (mq_queues s) [])[q := take k (mq_contents s q)]) s1"
        "sum_list (mq_remaining s1) + k = sum_list (mq_remaining s)"
        "mq_totalRemaining s1 = mq_totalRemaining s"
      by (rule block_while_step [OF less.prems(1) True q(2,1)]) (rule that)
    let ?first = "take k (mq_contents s q)"
    have len: "length ?first = k" using k by simp
    have "\<exists>xs taken s'. block_while n s1 (vals @ ?first) = ret ((vals @ ?first) @ xs, s') \<and>
      mq_takes s1 taken s' \<and> mset xs = mset (concat taken) \<and> length xs = n - length (vals @ ?first) \<and>
      sum_list (mq_remaining s') + length xs = sum_list (mq_remaining s1) \<and>
      mq_totalRemaining s' = mq_totalRemaining s1"
      by (rule less.hyps) (use less.prems k s1 len in \<open>auto simp: mq_takes_def\<close>)
    then obtain xs taken s' where r: "block_while n s1 (vals @ ?first) = ret ((vals @ ?first) @ xs, s')"
      "mq_takes s1 taken s'" "mset xs = mset (concat taken)" "length xs = n - length (vals @ ?first)"
      "sum_list (mq_remaining s') + length xs = sum_list (mq_remaining s1)"
      "mq_totalRemaining s' = mq_totalRemaining s1"
      by blast
    let ?t = "(replicate (mq_queues s) [])[q := ?first]"
    have "mset (concat (map2 (@) ?t taken)) = mset (?first @ xs)"
      using r(2,3) s1(2) q(2)
      by (simp add: mset_concat_map2 mq_takes_def upd_conv_take_nth_drop)
    with r s1 q(3) k len mq_takes_trans [OF s1(2) r(2)] show ?thesis
      by (intro exI [of _ "?first @ xs"] exI [of _ "map2 (@) ?t taken"] exI [of _ s']) auto
  qed
qed

lemma blockRoundRobinPop_takes:
  fixes s :: "'a mlfq"
  assumes ok: "mq_ok s"
  obtains xs taken s' where "blockRoundRobinPop s n = ret (xs, s')" "pop_effect s taken s'"
    "mset xs = mset (concat taken)" "length xs = min n (mq_total s)"
proof (cases "n = 0 \<or> mq_total s = 0")
  case True
  then obtain s1 where "blockRoundRobinPop s n = ret ([], s1)" "pop_effect s (replicate (mq_queues s) []) s1"
  proof (cases "n = 0")
    case True
    with ok show thesis
      by (intro that [of s]) (auto simp: blockRoundRobinPop_def pop_effect_none)
  next
    case False
    with True obtain s1 where "pop_refresh s n = Inr (None, s1)" "mq_ok s1" "mq_queues s1 = mq_queues s"
      "mq_capacity s1 = mq_capacity s" "mq_contents s1 = mq_contents s" "mq_fullFailure s1 = mq_fullFailure s"
      using pop_refresh_ok [OF ok, of n] by auto
    with False show thesis
      by (intro that [of s1]) (auto simp: blockRoundRobinPop_def pop_effect_none)
  qed
  with True show thesis
    by (intro that [of "[]" s1 "replicate (mq_queues s) []"]) auto
next
  case False
  let ?m = "min n (mq_total s)"
  obtain s1 where s1: "pop_refresh s n = Inr (Some ?m, s1)" "mq_ok s1" "mq_queues s1 = mq_queues s"
    "mq_capacity s1 = mq_capacity s" "mq_contents s1 = mq_contents s"
    "mq_fullFailure s1 = mq_fullFailure s" "?m \<le> mq_totalRemaining s1"
    using pop_refresh_ok [OF ok, of n] False by auto
  let ?s = "s1\<lparr>mq_totalRemaining := mq_totalRemaining s1 - ?m\<rparr>"
  have wf: "mq_wf ?s" using s1(2) by (auto simp: mq_ok_def mq_wf_def mq_used_def)
  have "?m \<le> length ([] :: 'a list) + sum_list (mq_remaining ?s)" using s1 by (auto simp: mq_ok_def)
  then obtain xs taken s' where r: "block_while ?m ?s [] = ret (xs, s')" "mq_takes ?s taken s'"
    "mset xs = mset (concat taken)" "length xs = ?m"
    "sum_list (mq_remaining s') + length xs = sum_list (mq_remaining ?s)"
    "mq_totalRemaining s' = mq_totalRemaining ?s"
    using block_while_takes [OF wf, of "[]" ?m] by auto
  have "blockRoundRobinPop s n = ret (xs, s')"
    using False s1(1) r(1) by (simp add: blockRoundRobinPop_def Let_def)
  moreover have "mq_contents ?s = mq_contents s"
    using s1(5) by (auto simp: mq_contents_def fun_eq_iff)
  then have "mq_lists ?s = mq_lists s" using s1(3) by (simp add: mq_lists_def)
  then have "pop_effect s taken s'"
    using r s1 by (auto simp: mq_takes_def pop_effect_def mq_ok_def)
  ultimately show thesis using r(3,4) by (intro that [of xs s' taken]) auto
qed

section \<open>The contract of a pre-queue\<close>

definition mq_elems :: "'a mlfq \<Rightarrow> 'a multiset" where
  "mq_elems s = mset (concat (mq_lists s))"

lemma size_mq_elems: "size (mq_elems s) = mq_total s"
  by (simp add: mq_elems_def mq_total_lists length_concat)

lemma mset_concat_rotate [simp]: "mset (concat (rotate n xss)) = mset (concat xss)"
  unfolding rotate_drop_take by (metis append_take_drop_id concat_append mset_append union_commute)

lemma pop_effect_elems:
  "pop_effect s taken s' \<Longrightarrow> mset (concat taken) + mq_elems s' = mq_elems s"
  by (simp add: pop_effect_def mq_elems_def mset_concat_map2 mq_lists_conv)

lemma mq_pop_returns:
  assumes "mq_ok s"
  shows "\<exists>xs s'. mq_pop policy s n = ret (xs, s') \<and> mq_ok s' \<and> mset xs + mq_elems s' = mq_elems s \<and>
    length xs = min n (size (mq_elems s))"
proof (cases policy)
  case CyclicRoundRobin
  obtain taken s' where "cyclicRoundRobinPop s n = ret (concat (rotate (mq_current s) taken), s')"
    "pop_effect s taken s'" "length (concat taken) = min n (mq_total s)"
    using cyclicRoundRobinPop_takes [OF assms] .
  with CyclicRoundRobin pop_effect_elems show ?thesis
    by (auto simp: mq_pop_def size_mq_elems pop_effect_def intro!: exI)
next
  case BlockRoundRobin
  obtain xs taken s' where "blockRoundRobinPop s n = ret (xs, s')" "pop_effect s taken s'"
    "mset xs = mset (concat taken)" "length xs = min n (mq_total s)"
    using blockRoundRobinPop_takes [OF assms] .
  with BlockRoundRobin pop_effect_elems show ?thesis
    by (auto simp: mq_pop_def size_mq_elems pop_effect_def intro!: exI)
qed

interpretation mlq: prequeue mq_ok mq_elems "mq_pop policy" for policy
  by unfold_locales (rule mq_pop_returns)

text \<open>The queues as the constructor leaves them.\<close>

lemma MultiLockFreeQueue_fresh:
  assumes "MultiLockFreeQueue maxQueues cap n mem ff = Inr q" "0 < n" "0 < cap" "cap < 2 ^ 63"
    and "length mem = n" "\<forall>d \<in> set mem. length d = cap"
  shows "mq_ok q" "mq_elems q = {#}" "mq_queues q = n" "mq_capacity q = cap" "\<And>i. i < n \<Longrightarrow> mq_used q i = 0"
proof -
  have q: "q = \<lparr> mq_capacity = cap, mq_queues = n, mq_data = mem, mq_fullFailure = ff,
      mq_tail = replicate n 0, mq_remaining = replicate n 0, mq_head = replicate n 0, mq_available = replicate n 0,
      mq_totalRemaining = 0, mq_current = 0 \<rparr>"
    using assms(1) by (auto simp: MultiLockFreeQueue_def fail_def split: if_splits)
  show u: "mq_used q i = 0" if "i < n" for i using that by (simp add: q mq_used_def ring_used_def)
  show "mq_queues q = n" "mq_capacity q = cap" by (simp_all add: q)
  show "mq_ok q" using assms(2-6) u by (auto simp: mq_ok_def mq_wf_def q sum_list_replicate)
  have "mq_contents q i = []" if "i < n" for i
    using u [OF that] by (simp add: mq_contents_def mq_used_def ring_list_def)
  then show "mq_elems q = {#}" by (auto simp: mq_elems_def mq_lists_def q)
qed

section \<open>Pushing\<close>

lemma mq_lists_upd:
  assumes "mq_queues s' = mq_queues s" "q < mq_queues s"
    "\<And>i. i < mq_queues s \<Longrightarrow> mq_contents s' i = (if i = q then c else mq_contents s i)"
  shows "mq_lists s' = (mq_lists s)[q := c]"
  using assms by (intro nth_equalityI) (auto simp: mq_lists_conv nth_list_update)

text \<open>
  What may happen to the queue while a push spins: the consumer takes elements from the front, the
  producers of the other CPUs push to their own queues.
\<close>

definition push_env_ok :: "(nat \<Rightarrow> 'a mlfq \<Rightarrow> 'a mlfq) \<Rightarrow> nat \<Rightarrow> bool" where
  "push_env_ok env cpu \<longleftrightarrow> (\<forall>k s. mq_ok s \<and> cpu < mq_queues s \<longrightarrow>
     mq_ok (env k s) \<and> mq_queues (env k s) = mq_queues s \<and> mq_capacity (env k s) = mq_capacity s \<and>
     (\<exists>m. mq_contents (env k s) cpu = drop m (mq_contents s cpu)))"

lemma push_spin_returns:
  assumes env: "push_env_ok env cpu"
    and room: "\<And>s. mq_ok s \<Longrightarrow> cpu < mq_queues s \<Longrightarrow> mq_capacity s = C \<Longrightarrow> mq_used (env K s) cpu + 1 < C"
    and "mq_ok s" "cpu < mq_queues s" "mq_capacity s = C" "k \<le> K"
  shows "\<exists>s' m. push_spin env k s x cpu = ret s' \<and> mq_ok s' \<and>
    mq_contents s' cpu = drop m (mq_contents s cpu) @ [x]"
  using assms(3-6)
proof (induction "K - k" arbitrary: k s)
  case 0
  then have "k = K" by simp
  let ?s = "env k s"
  obtain m where e: "mq_ok ?s" "mq_queues ?s = mq_queues s" "mq_capacity ?s = mq_capacity s"
    "mq_contents ?s cpu = drop m (mq_contents s cpu)"
    using env "0.prems"(1,2) unfolding push_env_ok_def by blast
  obtain s' where "push_queue ?s x cpu = Inr (True, s')" "mq_ok s'"
    "mq_contents s' cpu = mq_contents ?s cpu @ [x]"
    using push_queue_room [OF e(1), of cpu x] room [OF "0.prems"(1-3)] e "0.prems"(3) "0.prems"(2) \<open>k = K\<close>
    by metis
  then show ?case using e(4) by (subst push_spin.simps) auto
next
  case (Suc d)
  let ?s = "env k s"
  obtain m where e: "mq_ok ?s" "mq_queues ?s = mq_queues s" "mq_capacity ?s = mq_capacity s"
    "mq_contents ?s cpu = drop m (mq_contents s cpu)"
    using env Suc.prems(1,2) unfolding push_env_ok_def by blast
  have cpu: "cpu < mq_queues ?s" using e(2) Suc.prems(2) by simp
  show ?case
  proof (cases "mq_used ?s cpu + 1 < mq_capacity ?s")
    case True
    obtain s' where "push_queue ?s x cpu = Inr (True, s')" "mq_ok s'"
      "mq_contents s' cpu = mq_contents ?s cpu @ [x]"
      using push_queue_room [OF e(1) cpu True, of x] cpu by metis
    then show ?thesis using e(4) by (subst push_spin.simps) auto
  next
    case False
    then have "mq_used ?s cpu + 1 = mq_capacity ?s"
      using mq_wf_queueD(6) [OF _ cpu] e(1) by (simp add: mq_ok_def)
    then have "push_queue ?s x cpu = Inr (False, ?s)" by (rule push_queue_full [OF e(1) cpu])
    then have step: "push_spin env k s x cpu = push_spin env (k + 1) ?s x cpu"
      by (subst push_spin.simps) simp
    have "\<exists>s' m. push_spin env (k + 1) ?s x cpu = ret s' \<and> mq_ok s' \<and>
        mq_contents s' cpu = drop m (mq_contents ?s cpu) @ [x]"
      using Suc.hyps(1) [of "k + 1" ?s] Suc.hyps(2) e(1,3) cpu Suc.prems(3) by simp
    with step e(4) show ?thesis by auto
  qed
qed

lemma mq_push_room:
  assumes "mq_ok s" "cpu < mq_queues s" "mq_used s cpu + 1 < mq_capacity s"
  shows "\<exists>s'. mq_push env s x cpu = ret s' \<and> mq_ok s' \<and>
    mq_lists s' = (mq_lists s)[cpu := mq_lists s ! cpu @ [x]]"
proof -
  obtain s' where s': "push_queue s x cpu = Inr (True, s')" "mq_ok s'" "mq_queues s' = mq_queues s"
    "\<And>i. i < mq_queues s \<Longrightarrow>
        mq_contents s' i = (if i = cpu then mq_contents s cpu @ [x] else mq_contents s i)"
    using push_queue_room [OF assms] by metis
  have "mq_lists s' = (mq_lists s)[cpu := mq_lists s ! cpu @ [x]]"
    using mq_lists_upd [OF s'(3) assms(2) s'(4)] assms(2) by (simp add: mq_lists_conv)
  with s'(1,2) assms(2) show ?thesis by (auto simp: mq_push_def)
qed

lemma mq_push_elems:
  assumes "mq_ok s" "cpu < mq_queues s" "mq_used s cpu + 1 < mq_capacity s"
  obtains s' where "mq_push env s x cpu = ret s'" "mq_ok s'" "mq_elems s' = add_mset x (mq_elems s)"
proof -
  obtain s' where s': "mq_push env s x cpu = ret s'" "mq_ok s'"
    "mq_lists s' = (mq_lists s)[cpu := mq_lists s ! cpu @ [x]]"
    using mq_push_room [OF assms] by blast
  have "cpu < length (mq_lists s)" using assms(2) by (simp add: mq_lists_conv)
  then have "mset (concat (mq_lists s)) = mset (concat (take cpu (mq_lists s) @ mq_lists s ! cpu # drop (Suc cpu) (mq_lists s)))"
    "mq_lists s' = take cpu (mq_lists s) @ (mq_lists s ! cpu @ [x]) # drop (Suc cpu) (mq_lists s)"
    using id_take_nth_drop s'(3) by (metis, simp add: upd_conv_take_nth_drop)
  then have "mq_elems s' = add_mset x (mq_elems s)" by (simp add: mq_elems_def)
  with s' that show thesis by blast
qed

section \<open>Properties\<close>

text \<open>A state with two queues of four slots: the first is full, the second wraps around.\<close>

definition sample_mq :: "bool \<Rightarrow> nat mlfq" where
  "sample_mq fullFailure = \<lparr> mq_capacity = 4, mq_queues = 2, mq_data = [[1, 2, 3, 0], [5, 0, 0, 4]],
     mq_fullFailure = fullFailure, mq_tail = [0, 3], mq_remaining = [0, 0], mq_head = [3, 1],
     mq_available = [0, 0], mq_totalRemaining = 0, mq_current = 1 \<rparr>"

lemma sample_mq_ok [simp]: "mq_ok (sample_mq b)"
  by (auto simp: mq_ok_def mq_wf_def sample_mq_def mq_used_def ring_used_def less_2_cases_iff)

lemma sample_mq_sizes [simp]: "mq_queues (sample_mq b) = 2" "mq_capacity (sample_mq b) = 4"
    "mq_used (sample_mq b) 0 = 3" "mq_used (sample_mq b) 1 = 2" "mq_used (sample_mq b) (Suc 0) = 2"
    "mq_total (sample_mq b) = 5" "mq_current (sample_mq b) = 1"
    "mq_fullFailure (sample_mq b) = b" "mq_lists (sample_mq b) = [[1, 2, 3], [4, 5]]"
  by (simp_all add: sample_mq_def mq_used_def ring_used_def mq_total_def mq_lists_def
      mq_contents_def ring_list_def upt_rec)

text \<open>
  (C14) Pushing into the pre-queue of a CPU that is full: when \<open>TAMPI_QUEUES_FULL_FAILURE\<close> is set the
  process ends with the message of the source; otherwise the push spins, and it returns as soon as
  the consumer has made room, with the new operation behind all those of the same CPU that are
  still queued.
\<close>

theorem mq_push_full:
  assumes "mq_ok s" "cpu < mq_queues s" "mq_used s cpu + 1 = mq_capacity s"
    and "push_env_ok env cpu"
    and "\<forall>s'. mq_ok s' \<and> cpu < mq_queues s' \<and> mq_capacity s' = mq_capacity s \<longrightarrow>
           mq_used (env K s') cpu + 1 < mq_capacity s"
  shows "if mq_fullFailure s
    then mq_push env s x cpu = Some (fail [Str ''MultiLockFreeQueue is full''])
    else \<exists>s' m. mq_push env s x cpu = ret s' \<and> mq_ok s' \<and>
           mq_contents s' cpu = drop m (mq_contents s cpu) @ [x]"
  using push_queue_full [OF assms(1-3), of x] assms(2)
    push_spin_returns [OF assms(4), of "mq_capacity s" K s 0 x] assms(1,5)
  by (simp add: mq_push_def)

text \<open>While the push spins, the polling task pops everything that is queued.\<close>

definition drain_env :: "nat \<Rightarrow> 'a mlfq \<Rightarrow> 'a mlfq" where
  "drain_env k s = (case mq_pop CyclicRoundRobin s (mq_total s) of Some (Inr (_, s')) \<Rightarrow> s' | _ \<Rightarrow> s)"

lemma drain_env_ok:
  assumes "mq_ok s"
  obtains taken where "mq_ok (drain_env k s)" "mq_queues (drain_env k s) = mq_queues s"
    "mq_capacity (drain_env k s) = mq_capacity s"
    "\<And>i. i < mq_queues s \<Longrightarrow> mq_contents s i = taken ! i @ mq_contents (drain_env k s) i"
    "mq_elems (drain_env k s) = {#}"
proof -
  obtain taken s' where p: "cyclicRoundRobinPop s (mq_total s) = ret (concat (rotate (mq_current s) taken), s')"
    "pop_effect s taken s'" "length (concat taken) = min (mq_total s) (mq_total s)"
    using cyclicRoundRobinPop_takes [OF assms] .
  have eq: "drain_env k s = s'" using p(1) by (simp add: drain_env_def mq_pop_def)
  have "size (mset (concat taken)) = size (mq_elems s)" using p(3) by (simp add: size_mq_elems)
  then have "mq_elems s' = {#}"
    using arg_cong [OF pop_effect_elems [OF p(2)], of size] by simp
  moreover have "mq_contents s i = taken ! i @ mq_contents s' i" if "i < mq_queues s" for i
  proof -
    have "mq_contents s i = mq_lists s ! i" using that by (simp add: mq_lists_conv)
    also have "\<dots> = map2 (@) taken (mq_lists s') ! i" using p(2) by (simp add: pop_effect_def)
    also have "\<dots> = taken ! i @ mq_contents s' i"
      using that p(2) by (simp add: pop_effect_def mq_lists_conv)
    finally show ?thesis .
  qed
  ultimately show thesis using p(2) by (intro that [of taken]) (auto simp: eq pop_effect_def)
qed

lemma drain_env_push_env: "push_env_ok drain_env cpu"
  unfolding push_env_ok_def
proof (intro allI impI)
  fix k and s :: "'a mlfq"
  assume s: "mq_ok s \<and> cpu < mq_queues s"
  then have "mq_ok s" by simp
  then obtain taken where t: "mq_ok (drain_env k s)" "mq_queues (drain_env k s) = mq_queues s"
    "mq_capacity (drain_env k s) = mq_capacity s"
    "\<And>i. i < mq_queues s \<Longrightarrow> mq_contents s i = taken ! i @ mq_contents (drain_env k s) i"
    by (rule drain_env_ok [where k = k]) (rule that)
  then have "mq_contents (drain_env k s) cpu = drop (length (taken ! cpu)) (mq_contents s cpu)"
    using s by simp
  with t show "mq_ok (drain_env k s) \<and> mq_queues (drain_env k s) = mq_queues s \<and>
      mq_capacity (drain_env k s) = mq_capacity s \<and>
      (\<exists>m. mq_contents (drain_env k s) cpu = drop m (mq_contents s cpu))" by blast
qed

lemma drain_env_used:
  assumes "mq_ok s" "cpu < mq_queues s"
  shows "mq_used (drain_env k s) cpu = 0"
proof -
  obtain taken where t: "mq_queues (drain_env k s) = mq_queues s" "mq_elems (drain_env k s) = {#}"
    using drain_env_ok [OF assms(1)] by metis
  then have "mq_contents (drain_env k s) cpu = []"
    using assms(2) by (auto simp: mq_elems_def mq_lists_def)
  then show ?thesis by (metis length_mq_contents list.size(3))
qed

theorem mq_push_full_witness:
  "mq_push drain_env (sample_mq True) 7 0 = Some (fail [Str ''MultiLockFreeQueue is full'']) \<and>
   (\<exists>s' m. mq_push drain_env (sample_mq False) 7 0 = ret s' \<and> mq_ok s' \<and>
      mq_contents s' 0 = drop m (mq_contents (sample_mq False) 0) @ [7])"
  using mq_push_full [of "sample_mq True" 0 drain_env 0 7]
    mq_push_full [of "sample_mq False" 0 drain_env 0 7]
  by (simp add: drain_env_push_env drain_env_used)

text \<open>
  (C12) A pop of the cyclic policy always returns and keeps the queues well-formed. It returns as many
  operations as asked for, or all of them when there are fewer. What it takes from a CPU's queue
  are its oldest operations, in their order, and what it leaves are the others; the results come
  queue after queue, from the current queue on.
\<close>

theorem cyclic_pop_fifo:
  assumes "mq_ok s"
  shows "\<exists>taken s'. mq_pop CyclicRoundRobin s n = ret (concat (rotate (mq_current s) taken), s') \<and>
    mq_ok s' \<and> length taken = mq_queues s \<and> mq_lists s = map2 (@) taken (mq_lists s') \<and>
    length (concat taken) = min n (mq_total s)"
proof -
  obtain taken s' where "cyclicRoundRobinPop s n = ret (concat (rotate (mq_current s) taken), s')"
    "pop_effect s taken s'" "length (concat taken) = min n (mq_total s)"
    using cyclicRoundRobinPop_takes [OF assms] .
  then show ?thesis by (auto simp: mq_pop_def pop_effect_def)
qed

theorem cyclic_pop_fifo_witness:
  "\<exists>taken s'. mq_pop CyclicRoundRobin (sample_mq True) 3 = ret (concat (rotate 1 taken), s') \<and>
    mq_ok s' \<and> length taken = 2 \<and> [[1, 2, 3], [4, 5]] = map2 (@) taken (mq_lists s') \<and>
    length (concat taken) = 3"
  using cyclic_pop_fifo [of "sample_mq True" 3] by simp



text \<open>
  A pop of either policy returns, and moves operations without losing or duplicating any:
  what it returns together with what stays queued is what was queued, and it returns nothing only
  when nothing is queued or nothing was asked for.
\<close>

lemma pop_conserves:
  assumes "mq_ok s"
  shows "\<exists>xs s'. mq_pop policy s n = ret (xs, s') \<and> mq_ok s' \<and> mset xs + mq_elems s' = mq_elems s \<and>
    length xs = min n (size (mq_elems s)) \<and> (xs = [] \<longleftrightarrow> n = 0 \<or> mq_elems s = {#})"
proof -
  obtain xs s' where p: "mq_pop policy s n = ret (xs, s')" "mq_ok s'"
    "mset xs + mq_elems s' = mq_elems s" "length xs = min n (size (mq_elems s))"
    using mlq.pop_cases [OF assms] by metis
  moreover have "xs = [] \<longleftrightarrow> n = 0 \<or> mq_elems s = {#}"
    using mlq.pop_empty_iff [OF assms p(1)] p(4) by (cases "n = 0") auto
  ultimately show ?thesis by blast
qed

end
