(* ===== verification/Boost_Queue.thy ===== *)
theory Boost_Queue
  imports Prequeue
begin

text \<open>
  \<open>BoostLockFreeQueue\<close> (src/src/common/util/BoostLockFreeQueue.hpp): the pre-queue of the collective
  operations, a wrapper of \<open>boost::lockfree::spsc_queue\<close>, which is the parameter \<open>B\<close>. Its producers
  exclude each other with \<open>_adderMutex\<close>, so a push is one step here; while it spins on a full queue
  the consumer runs, and \<open>env k\<close> is what happened before the \<open>k\<close>-th new attempt.
\<close>

record 'q blfq =
  bq_multipleProducers :: bool
  bq_fullFailure :: bool
  bq_queue :: 'q

definition BoostLockFreeQueue :: "bool \<Rightarrow> bool \<Rightarrow> 'q \<Rightarrow> 'q blfq" where
  "BoostLockFreeQueue multipleProducers fullFailure q0 =
     \<lparr>bq_multipleProducers = multipleProducers, bq_fullFailure = fullFailure, bq_queue = q0\<rparr>"

definition pushOrFail :: "('q, 'a) spsc \<Rightarrow> 'q \<Rightarrow> 'a list \<Rightarrow> 'q result" where
  "pushOrFail B q elements =
     (let (pushed, q') = spsc_push B elements q in
      if pushed \<noteq> length elements then fail [Str ''BoostLockFreeQueue is full''] else Inr q')"

partial_function (option) pushCont_loop ::
    "('q, 'a) spsc \<Rightarrow> (nat \<Rightarrow> 'q \<Rightarrow> 'q) \<Rightarrow> nat \<Rightarrow> 'q \<Rightarrow> 'a list \<Rightarrow> nat \<Rightarrow> 'q run" where
  "pushCont_loop B env k q elements pushed =
     (let (p, q') = spsc_push B (drop pushed elements) (env k q) in
      if pushed + p < length elements then pushCont_loop B env (k + 1) q' elements (pushed + p)
      else ret q')"

definition pushCont :: "('q, 'a) spsc \<Rightarrow> (nat \<Rightarrow> 'q \<Rightarrow> 'q) \<Rightarrow> 'q \<Rightarrow> 'a list \<Rightarrow> 'q run" where
  "pushCont B env q elements =
     (let (pushed, q') = spsc_push B elements q in
      if pushed = length elements then ret q'
      else pushCont_loop B env 0 q' elements pushed)"

definition bq_push :: "('q, 'a) spsc \<Rightarrow> (nat \<Rightarrow> 'q \<Rightarrow> 'q) \<Rightarrow> 'q blfq \<Rightarrow> 'a list \<Rightarrow> 'q blfq run" where
  "bq_push B env s elements =
     run_bind (if bq_fullFailure s then Some (pushOrFail B (bq_queue s) elements)
               else pushCont B env (bq_queue s) elements) (\<lambda>q. ret (s\<lparr>bq_queue := q\<rparr>))"

definition bq_pop :: "('q, 'a) spsc \<Rightarrow> 'q blfq \<Rightarrow> nat \<Rightarrow> 'a list \<times> 'q blfq" where
  "bq_pop B s n = (let (xs, q) = spsc_pop B n (bq_queue s) in (xs, s\<lparr>bq_queue := q\<rparr>))"

section \<open>Contract\<close>

definition bq_contents :: "('q, 'a) spsc \<Rightarrow> 'q blfq \<Rightarrow> 'a list" where
  "bq_contents B s = spsc_contents B (bq_queue s)"

definition bq_elems :: "('q, 'a) spsc \<Rightarrow> 'q blfq \<Rightarrow> 'a multiset" where
  "bq_elems B s = mset (bq_contents B s)"

lemma bq_pop_takes:
  assumes "spsc_ok B"
  obtains s' where "bq_pop B s n = (take n (bq_contents B s), s')"
    "bq_contents B s' = drop n (bq_contents B s)"
    "spsc_capacity B (bq_queue s') = spsc_capacity B (bq_queue s)"
    "bq_fullFailure s' = bq_fullFailure s"
proof -
  obtain q where "spsc_pop B n (bq_queue s) = (take n (spsc_contents B (bq_queue s)), q)"
    "spsc_contents B q = drop n (spsc_contents B (bq_queue s))"
    "spsc_capacity B q = spsc_capacity B (bq_queue s)"
    by (rule spsc_pop_ok [OF assms])
  then show thesis
    by (intro that [of "s\<lparr>bq_queue := q\<rparr>"]) (simp_all add: bq_pop_def bq_contents_def)
qed

text \<open>On any queue that keeps the contract of Boost, the wrapper is a pre-queue.\<close>

interpretation blq: prequeue "\<lambda>_. spsc_ok B" "bq_elems B" "\<lambda>s n. ret (bq_pop B s n)" for B
proof
  fix s n
  assume B: "spsc_ok B"
  obtain s' where "bq_pop B s n = (take n (bq_contents B s), s')"
    "bq_contents B s' = drop n (bq_contents B s)"
    using bq_pop_takes [OF B] .
  then show "\<exists>xs s'. ret (bq_pop B s n) = ret (xs, s') \<and> spsc_ok B \<and>
      mset xs + bq_elems B s' = bq_elems B s \<and> length xs = min n (size (bq_elems B s))"
    using B by (auto simp: bq_elems_def min.commute simp flip: mset_append)
qed

text \<open>
  The environment of a push: the consumer takes elements from the front. Once it has left room for
  what is still to be pushed, the push returns with the elements at the end, in order.
\<close>

definition spsc_env_ok :: "('q, 'a) spsc \<Rightarrow> (nat \<Rightarrow> 'q \<Rightarrow> 'q) \<Rightarrow> bool" where
  "spsc_env_ok B env \<longleftrightarrow> (\<forall>k q. spsc_capacity B (env k q) = spsc_capacity B q \<and>
     (\<exists>m. spsc_contents B (env k q) = drop m (spsc_contents B q)))"

lemma drop_append_min: "drop m xs @ ys = drop (min m (length xs)) (xs @ ys)"
  by (cases "m \<le> length xs") (auto simp: min_def)

lemma pushCont_attempt:
  assumes B: "spsc_ok B" and env: "spsc_env_ok B env"
    and "spsc_capacity B q = C" "spsc_contents B q = drop m (old @ take pushed elements)"
  obtains p q' m' where "spsc_push B (drop pushed elements) (env k q) = (p, q')"
    "spsc_capacity B q' = C" "spsc_contents B q' = drop m' (old @ take (pushed + p) elements)"
    "p = min (length elements - pushed) (C - length (spsc_contents B (env k q)))"
proof -
  obtain d where e: "spsc_capacity B (env k q) = C"
    "spsc_contents B (env k q) = drop d (drop m (old @ take pushed elements))"
    using env assms(3,4) unfolding spsc_env_ok_def by metis
  obtain p q' where p: "spsc_push B (drop pushed elements) (env k q) = (p, q')" by fastforce
  let ?X = "old @ take pushed elements" and ?Y = "take p (drop pushed elements)"
  have "spsc_contents B q' = drop (d + m) ?X @ ?Y"
    using spsc_push_ok(2) [OF B p] e(2) by (simp only: drop_drop)
  also have "\<dots> = drop (min (d + m) (length ?X)) (?X @ ?Y)" by (rule drop_append_min)
  also have "?X @ ?Y = old @ take (pushed + p) elements" by (simp add: take_add)
  finally have "spsc_contents B q' = drop (min (d + m) (length ?X)) (old @ take (pushed + p) elements)" .
  moreover have "spsc_capacity B q' = C" using spsc_push_ok(3) [OF B p] e(1) by simp
  moreover have "p = min (length elements - pushed) (C - length (spsc_contents B (env k q)))"
    using spsc_push_ok(1) [OF B p] e(1) by simp
  ultimately show thesis using that [OF p] by blast
qed

lemma pushCont_loop_returns:
  assumes B: "spsc_ok B" and env: "spsc_env_ok B env"
    and room: "\<And>q. spsc_capacity B q = C \<Longrightarrow> length (spsc_contents B (env K q)) + length elements \<le> C"
    and "spsc_capacity B q = C" "k \<le> K" "spsc_contents B q = drop m (old @ take pushed elements)"
  shows "\<exists>q' m. pushCont_loop B env k q elements pushed = ret q' \<and>
    spsc_contents B q' = drop m (old @ elements)"
  using assms(4-6)
proof (induction "K - k" arbitrary: k q pushed m)
  case 0
  then have k: "k = K" by simp
  obtain p q' m' where a: "spsc_push B (drop pushed elements) (env k q) = (p, q')"
    "spsc_contents B q' = drop m' (old @ take (pushed + p) elements)"
    "p = min (length elements - pushed) (C - length (spsc_contents B (env k q)))"
    by (rule pushCont_attempt [OF B env "0.prems"(1,3)])
  have "\<not> pushed + p < length elements" using a(3) room [OF "0.prems"(1)] k by simp
  then show ?case using a(1,2) by (subst pushCont_loop.simps) auto
next
  case (Suc d)
  obtain p q' m' where a: "spsc_push B (drop pushed elements) (env k q) = (p, q')"
    "spsc_capacity B q' = C" "spsc_contents B q' = drop m' (old @ take (pushed + p) elements)"
    by (rule pushCont_attempt [OF B env Suc.prems(1,3)])
  show ?case
  proof (cases "pushed + p < length elements")
    case True
    then have "pushCont_loop B env k q elements pushed = pushCont_loop B env (k + 1) q' elements (pushed + p)"
      using a(1) by (subst pushCont_loop.simps) simp
    with Suc.hyps(1) [OF _ a(2) _ a(3), of "k + 1"] Suc.hyps(2) show ?thesis by auto
  next
    case False
    then show ?thesis using a(1,3) by (subst pushCont_loop.simps) auto
  qed
qed

lemma bq_push_room:
  assumes "spsc_ok B" "length (bq_contents B s) + length xs \<le> spsc_capacity B (bq_queue s)"
  obtains s' where "bq_push B env s xs = ret s'" "bq_contents B s' = bq_contents B s @ xs"
proof -
  obtain q' where "spsc_push B xs (bq_queue s) = (length xs, q')"
    "spsc_contents B q' = spsc_contents B (bq_queue s) @ xs"
    using spsc_push_room [OF assms(1), of "bq_queue s" xs] assms(2) by (auto simp: bq_contents_def)
  then show thesis
    by (intro that [of "s\<lparr>bq_queue := q'\<rparr>"])
      (simp_all add: bq_push_def pushOrFail_def pushCont_def bq_contents_def)
qed

section \<open>Properties\<close>

text \<open>
  (C19) Pushing elements into the queue of collective operations, on any Boost queue that keeps its
  contract: with room for all of them they are appended in order. Without room, the process ends
  with the message of the source when \<open>TAMPI_QUEUES_FULL_FAILURE\<close> is set; otherwise the push returns
  once the consumer has made room, and the queue holds a suffix of the old elements followed by the
  new ones, none lost from the end and none out of order.
\<close>

theorem bq_push_appends:
  assumes "spsc_ok B" "spsc_env_ok B env"
    and "\<forall>q. spsc_capacity B q = spsc_capacity B (bq_queue s) \<longrightarrow>
           length (spsc_contents B (env K q)) + length xs \<le> spsc_capacity B (bq_queue s)"
  shows "if length (bq_contents B s) + length xs \<le> spsc_capacity B (bq_queue s)
    then \<exists>s'. bq_push B env s xs = ret s' \<and> bq_contents B s' = bq_contents B s @ xs
    else if bq_fullFailure s
    then bq_push B env s xs = Some (fail [Str ''BoostLockFreeQueue is full''])
    else \<exists>s' m. bq_push B env s xs = ret s' \<and> bq_contents B s' = drop m (bq_contents B s @ xs)"
proof -
  obtain k q' where p: "spsc_push B xs (bq_queue s) = (k, q')" by fastforce
  note P = spsc_push_ok [OF assms(1) p]
  show ?thesis
  proof (cases "length (bq_contents B s) + length xs \<le> spsc_capacity B (bq_queue s)")
    case True
    then have "k = length xs" using P(1) by (simp add: bq_contents_def)
    with True p P(2) show ?thesis
      by (simp add: bq_push_def pushOrFail_def pushCont_def bq_contents_def)
  next
    case False
    then have k: "k \<noteq> length xs" using P(1) spsc_bound [OF assms(1), of "bq_queue s"]
      by (auto simp: bq_contents_def)
    have "spsc_contents B q' = drop 0 (bq_contents B s @ take k xs)"
      using P(2) by (simp add: bq_contents_def)
    then have "\<exists>q'' m. pushCont_loop B env 0 q' xs k = ret q'' \<and>
        spsc_contents B q'' = drop m (bq_contents B s @ xs)"
      by (rule pushCont_loop_returns [OF assms(1,2), where K = K, rotated 3]) (use assms(3) P(3) in auto)
    then obtain q'' m where "pushCont_loop B env 0 q' xs k = ret q''"
      "spsc_contents B q'' = drop m (bq_contents B s @ xs)" by blast
    with False k p show ?thesis
      by (auto simp: bq_push_def pushOrFail_def pushCont_def bq_contents_def)
  qed
qed

theorem bq_push_appends_witness:
  "\<exists>s' m. bq_push (list_spsc 2) (\<lambda>_ _. []) (BoostLockFreeQueue True False [1, 2]) [3 :: nat] = ret s' \<and>
     bq_contents (list_spsc 2) s' = drop m [1, 2, 3]"
proof -
  have "spsc_env_ok (list_spsc 2) (\<lambda>_ _. [])"
    by (auto simp: spsc_env_ok_def list_spsc_def)
  then show ?thesis
    using bq_push_appends [OF list_spsc_ok [of 2], where env = "\<lambda>_ _. []" and
        s = "BoostLockFreeQueue True False [1, 2]" and xs = "[3 :: nat]" and K = 0]
    by (simp add: BoostLockFreeQueue_def bq_contents_def list_spsc_def)
qed

end
