(* ===== verification/Fixed_Stack.thy ===== *)
theory Fixed_Stack
  imports Tampi_Prelude
begin

text \<open>
  \<open>FixedSizeStack\<close> (src/src/common/util/FixedSizeStack.hpp): a stack in an array of \<open>Capacity\<close> elements,
  the cache of objects that the allocator keeps for each CPU.
\<close>

record 'a fstack =
  fs_array :: "'a list"
  fs_size :: nat

definition FixedSizeStack :: "'a list \<Rightarrow> 'a fstack" where
  "FixedSizeStack initial = \<lparr>fs_array = initial, fs_size = 0\<rparr>"

definition fs_capacity :: "'a fstack \<Rightarrow> nat" where
  "fs_capacity s = length (fs_array s)"

definition fs_empty :: "'a fstack \<Rightarrow> bool" where
  "fs_empty s \<longleftrightarrow> fs_size s = 0"

definition fs_push :: "'a fstack \<Rightarrow> 'a \<Rightarrow> 'a fstack result" where
  "fs_push s element =
     rbind (rassert (fs_size s < fs_capacity s) ''_size < Capacity'') (\<lambda>_.
     rbind (awrite (fs_array s) (fs_size s) element ''_array'') (\<lambda>arr.
     Inr \<lparr>fs_array = arr, fs_size = fs_size s + 1\<rparr>))"

text \<open>\<open>std::copy\<close> of the elements from the position \<open>p\<close> on.\<close>

fun fs_copy :: "'a list \<Rightarrow> nat \<Rightarrow> 'a list \<Rightarrow> 'a list result" where
  "fs_copy arr p [] = Inr arr"
| "fs_copy arr p (x # xs) = rbind (awrite arr p x ''_array'') (\<lambda>arr. fs_copy arr (p + 1) xs)"

definition fs_push_n :: "'a fstack \<Rightarrow> 'a list \<Rightarrow> 'a fstack result" where
  "fs_push_n s elements =
     rbind (rassert (fs_size s + length elements \<le> fs_capacity s) ''_size + n <= Capacity'') (\<lambda>_.
     rbind (fs_copy (fs_array s) (fs_size s) elements) (\<lambda>arr.
     Inr \<lparr>fs_array = arr, fs_size = fs_size s + length elements\<rparr>))"

definition fs_pop :: "'a fstack \<Rightarrow> ('a option \<times> 'a fstack) result" where
  "fs_pop s =
     (if fs_size s = 0 then Inr (None, s)
      else let size = fs_size s - 1 in
        rbind (aread (fs_array s) size ''_array'') (\<lambda>element.
        Inr (Some element, s\<lparr>fs_size := size\<rparr>)))"

section \<open>Contents\<close>

definition fs_list :: "'a fstack \<Rightarrow> 'a list" where
  "fs_list s = take (fs_size s) (fs_array s)"

definition fs_ok :: "'a fstack \<Rightarrow> bool" where
  "fs_ok s \<longleftrightarrow> fs_size s \<le> length (fs_array s)"

lemma length_fs_list: "fs_ok s \<Longrightarrow> length (fs_list s) = fs_size s"
  by (simp add: fs_list_def fs_ok_def)

lemma fs_copy_appends:
  assumes "p + length xs \<le> length arr"
  shows "\<exists>arr'. fs_copy arr p xs = Inr arr' \<and> length arr' = length arr \<and>
    take (p + length xs) arr' = take p arr @ xs"
  using assms
proof (induction xs arbitrary: arr p)
  case (Cons x xs)
  obtain arr' where "fs_copy (arr[p := x]) (p + 1) xs = Inr arr'" "length arr' = length arr"
    "take (p + 1 + length xs) arr' = take (p + 1) (arr[p := x]) @ xs"
    using Cons.IH [of "p + 1" "arr[p := x]"] Cons.prems by auto
  moreover have "take (p + 1) (arr[p := x]) = take p arr @ [x]"
    using Cons.prems by (simp add: take_Suc_conv_app_nth)
  ultimately show ?case using Cons.prems by simp
qed auto

lemma fs_push_n_appends:
  assumes "fs_ok s" "fs_size s + length xs \<le> fs_capacity s"
  obtains s' where "fs_push_n s xs = Inr s'" "fs_ok s'" "fs_list s' = fs_list s @ xs"
    "fs_capacity s' = fs_capacity s"
proof -
  obtain arr where "fs_copy (fs_array s) (fs_size s) xs = Inr arr" "length arr = length (fs_array s)"
    "take (fs_size s + length xs) arr = take (fs_size s) (fs_array s) @ xs"
    using fs_copy_appends [of "fs_size s" xs "fs_array s"] assms(2) by (auto simp: fs_capacity_def)
  with assms show thesis
    by (intro that [of "\<lparr>fs_array = arr, fs_size = fs_size s + length xs\<rparr>"])
       (auto simp: fs_push_n_def fs_ok_def fs_list_def fs_capacity_def)
qed

lemma fs_pop_last:
  assumes "fs_ok s" "fs_list s \<noteq> []"
  obtains s' where "fs_pop s = Inr (Some (last (fs_list s)), s')" "fs_ok s'"
    "fs_list s' = butlast (fs_list s)" "fs_capacity s' = fs_capacity s"
proof -
  have pos: "fs_size s \<noteq> 0" "fs_size s - 1 < length (fs_array s)"
    using assms by (auto simp: fs_list_def fs_ok_def)
  have "last (fs_list s) = fs_array s ! (fs_size s - 1)"
    using assms length_fs_list [OF assms(1)] pos by (simp add: last_conv_nth fs_list_def)
  with pos assms show thesis
    by (intro that [of "s\<lparr>fs_size := fs_size s - 1\<rparr>"])
       (auto simp: fs_pop_def fs_ok_def fs_list_def fs_capacity_def butlast_take Let_def)
qed

lemma fs_pop_empty: "fs_ok s \<Longrightarrow> fs_list s = [] \<Longrightarrow> fs_pop s = Inr (None, s)"
  using length_fs_list [of s] by (simp add: fs_pop_def)

end
