(* ===== verification/Allocator.thy ===== *)
theory Allocator
  imports Fixed_Stack Prequeue Task_Context
begin

text \<open>
  \<open>ObjAllocator\<close> and \<open>Allocator\<close> (src/src/common/Allocator.hpp and .cpp), and the aligned memory they
  get (\<open>Memory\<close> in src/src/common/util/Utils.hpp). An allocator owns a fixed number of objects: a
  central queue, a cache for each CPU, and the objects that are in use.

  A pointer to the object at index \<open>i\<close> of \<open>_data\<close> is the number \<open>i + 1\<close>, and the null pointer is 0. The
  central queue is a \<open>boost::lockfree::spsc_queue\<close>, the parameter \<open>B\<close>; its consumers exclude each other
  with \<open>_mutex\<close>.
\<close>

section \<open>Memory\<close>

abbreviation CacheAlignment :: nat where "CacheAlignment \<equiv> 128"
abbreviation MaxSystemCPUs :: nat where "MaxSystemCPUs \<equiv> 64"

text \<open>The result of \<open>mmap\<close> is an argument: an address, or \<open>None\<close> for \<open>MAP_FAILED\<close>.\<close>

definition alignedAlloc :: "nat option \<Rightarrow> nat result" where
  "alignedAlloc mmap =
     (case mmap of
        None \<Rightarrow> fail [Str ''Failed to allocate aligned memory'']
      | Some p \<Rightarrow> if p mod CacheAlignment \<noteq> 0
                then fail [Str ''Aligned memory is not aligned to '', Num (int CacheAlignment)]
                else Inr p)"

section \<open>Allocator of one type\<close>

abbreviation ObjBatchSize :: nat where "ObjBatchSize \<equiv> 64"

record 'q objalloc =
  oa_capacity :: nat
  oa_ncaches :: nat
  oa_caches :: "nat fstack list"
  oa_central :: 'q

text \<open>
  The constructor; \<open>q0\<close> is the queue as Boost constructs it for the capacity. The loop ignores the
  result of each push.
\<close>

fun push_objects :: "('q, nat) spsc \<Rightarrow> 'q \<Rightarrow> nat list \<Rightarrow> 'q" where
  "push_objects B q [] = q"
| "push_objects B q (o1 # os) = push_objects B (snd (spsc_push B [o1] q)) os"

definition ObjAllocator ::
    "('q, nat) spsc \<Rightarrow> alpi \<Rightarrow> alpi_log \<Rightarrow> nat option \<Rightarrow> 'q \<Rightarrow> nat \<Rightarrow> ('q objalloc \<times> alpi_log) result" where
  "ObjAllocator B rt h mmap q0 cap =
     rbind (getNumLogicalCPUs rt h) (\<lambda>(ncaches, h).
     rbind (alignedAlloc mmap) (\<lambda>_.
     if ncaches > MaxSystemCPUs
     then fail [Str ''ObjAllocator'', Str '': Maximum number of queues exceeded. Runtime got: '',
            Num (int ncaches), Str '', TAMPI was compiled with maximum: '', Num (int MaxSystemCPUs)]
     else Inr (\<lparr> oa_capacity = cap, oa_ncaches = ncaches,
                oa_caches = replicate MaxSystemCPUs (FixedSizeStack (replicate ObjBatchSize 0)),
                oa_central = push_objects B q0 [1..<cap + 1] \<rparr>, h)))"

text \<open>\<open>alloc\<close>: the pointer to the object; the caller constructs the object there.\<close>

definition objalloc_alloc ::
    "('q, nat) spsc \<Rightarrow> alpi \<Rightarrow> alpi_log \<Rightarrow> 'q objalloc \<Rightarrow> (nat \<times> 'q objalloc \<times> alpi_log) result" where
  "objalloc_alloc B rt h A =
     rbind (getCurrentLogicalCPU rt h) (\<lambda>(cache, h).
     rbind (rassert (cache < oa_ncaches A) ''cache < _ncaches'') (\<lambda>_.
     rbind (aread (oa_caches A) cache ''i < Capacity'') (\<lambda>stack.
     rbind (fs_pop stack) (\<lambda>(popped, stack).
     rbind (case popped of
              Some object \<Rightarrow> Inr (object, A\<lparr>oa_caches := (oa_caches A)[cache := stack]\<rparr>)
            | None \<Rightarrow>
                let (objects, central) = spsc_pop B ObjBatchSize (oa_central A); n = length objects in
                if n = 0 then fail [Str ''Unavailable allocator objects'']
                else rbind (if n > 1 then fs_push_n stack (tl objects) else Inr stack) (\<lambda>stack.
                  Inr (hd objects,
                       A\<lparr>oa_caches := (oa_caches A)[cache := stack], oa_central := central\<rparr>)))
     (\<lambda>(object, A).
     rbind (rassert (object \<noteq> 0) ''object != nullptr'') (\<lambda>_. Inr (object, A, h)))))))"

definition objalloc_free :: "('q, nat) spsc \<Rightarrow> 'q objalloc \<Rightarrow> nat list \<Rightarrow> 'q objalloc result" where
  "objalloc_free B A objects =
     (let (pushed, central) = spsc_push B objects (oa_central A) in
      rbind (rassert (pushed = length objects) ''pushed == n'') (\<lambda>_. Inr (A\<lparr>oa_central := central\<rparr>)))"

definition objalloc_localFree ::
    "alpi \<Rightarrow> alpi_log \<Rightarrow> 'q objalloc \<Rightarrow> nat list \<Rightarrow> ('q objalloc \<times> alpi_log) result" where
  "objalloc_localFree rt h A objects =
     rbind (getCurrentLogicalCPU rt h) (\<lambda>(cache, h).
     rbind (rassert (cache < oa_ncaches A) ''cache < _ncaches'') (\<lambda>_.
     rbind (aread (oa_caches A) cache ''i < Capacity'') (\<lambda>stack.
     rbind (fs_push_n stack objects) (\<lambda>stack.
     Inr (A\<lparr>oa_caches := (oa_caches A)[cache := stack]\<rparr>, h)))))"

section \<open>All allocators\<close>

abbreviation OperationCapacity :: nat where "OperationCapacity \<equiv> 64 * 1000"
abbreviation CollOperationCapacity :: nat where "CollOperationCapacity \<equiv> 8 * 1000"

record 'q allocators =
  al_operation :: "'q objalloc option"
  al_coll :: "'q objalloc option"

definition Allocator_initialize ::
    "('q, nat) spsc \<Rightarrow> alpi \<Rightarrow> alpi_log \<Rightarrow> nat option \<Rightarrow> nat option \<Rightarrow> (nat \<Rightarrow> 'q) \<Rightarrow>
     ('q allocators \<times> alpi_log) result" where
  "Allocator_initialize B rt h mmap1 mmap2 newq =
     rbind (ObjAllocator B rt h mmap1 (newq OperationCapacity) OperationCapacity) (\<lambda>(a1, h).
     rbind (ObjAllocator B rt h mmap2 (newq CollOperationCapacity) CollOperationCapacity) (\<lambda>(a2, h).
     Inr (\<lparr>al_operation = Some a1, al_coll = Some a2\<rparr>, h)))"

definition Allocator_finalize :: "'q allocators \<Rightarrow> 'q allocators" where
  "Allocator_finalize als = als\<lparr>al_operation := None, al_coll := None\<rparr>"

section \<open>Invariant\<close>

text \<open>
  Every object of the allocator is in exactly one place: in the central queue, in one cache, or in
  use (\<open>live\<close>).
\<close>

definition oa_all :: "('q, nat) spsc \<Rightarrow> 'q objalloc \<Rightarrow> nat list \<Rightarrow> nat multiset" where
  "oa_all B A live =
     mset (spsc_contents B (oa_central A)) + mset (concat (map fs_list (oa_caches A))) + mset live"

definition oa_inv :: "('q, nat) spsc \<Rightarrow> 'q objalloc \<Rightarrow> nat list \<Rightarrow> bool" where
  "oa_inv B A live \<longleftrightarrow>
     oa_all B A live = mset [1..<oa_capacity A + 1] \<and>
     spsc_capacity B (oa_central A) = oa_capacity A \<and>
     oa_ncaches A \<le> length (oa_caches A) \<and>
     (\<forall>c \<in> set (oa_caches A). fs_ok c \<and> fs_capacity c = ObjBatchSize)"

lemma oa_inv_distinct: "oa_inv B A live \<Longrightarrow> distinct live" "oa_inv B A live \<Longrightarrow> set live \<subseteq> {1..oa_capacity A}"
proof -
  assume inv: "oa_inv B A live"
  then have sub: "mset live \<subseteq># mset [1..<oa_capacity A + 1]"
    by (metis mset_subset_eq_add_right oa_all_def oa_inv_def)
  then show "distinct live"
    by (metis distinct_upt distinct_count_atmost_1 mset_subset_eq_count le_antisym order_trans
        set_mset_mset count_greater_eq_one_iff count_eq_zero_iff nat_le_linear le_numeral_extra(4) not_one_le_zero)
  show "set live \<subseteq> {1..oa_capacity A}"
    using set_mset_mono [OF sub] by auto
qed

lemma mset_concat_map_upd:
  assumes "i < length xs" "mset (f y) + add = mset (f (xs ! i)) + sub"
  shows "mset (concat (map f (xs[i := y]))) + add = mset (concat (map f xs)) + sub"
proof -
  let ?a = "mset (concat (map f (take i xs)))" and ?b = "mset (concat (map f (drop (Suc i) xs)))"
  have "mset (concat (map f (xs[i := y]))) = ?a + mset (f y) + ?b"
    using assms(1) by (simp add: upd_conv_take_nth_drop)
  moreover have "mset (concat (map f xs)) = ?a + mset (f (xs ! i)) + ?b"
    using assms(1) by (subst id_take_nth_drop [OF assms(1)]) simp
  ultimately show ?thesis using assms(2) by (metis (no_types, lifting) add.assoc add.commute)
qed

lemma oa_inv_cache:
  assumes "oa_inv B A live" "c < oa_ncaches A"
  shows "c < length (oa_caches A)" "fs_ok (oa_caches A ! c)" "fs_capacity (oa_caches A ! c) = ObjBatchSize"
  using assms nth_mem [of c "oa_caches A"] by (auto simp: oa_inv_def)

lemma oa_inv_update:
  assumes "oa_inv B A live" "c < oa_ncaches A" "fs_ok st" "fs_capacity st = ObjBatchSize"
    "spsc_capacity B q = spsc_capacity B (oa_central A)"
    "mset (spsc_contents B q) + mset (fs_list st) + mset live' =
     mset (spsc_contents B (oa_central A)) + mset (fs_list (oa_caches A ! c)) + mset live"
  shows "oa_inv B (A\<lparr>oa_caches := (oa_caches A)[c := st], oa_central := q\<rparr>) live'"
proof -
  let ?rest = "mset (concat (map fs_list ((oa_caches A)[c := st])))"
  have c: "c < length (oa_caches A)" using oa_inv_cache(1) [OF assms(1,2)] .
  have "?rest + mset (fs_list (oa_caches A ! c)) = mset (concat (map fs_list (oa_caches A))) + mset (fs_list st)"
    by (rule mset_concat_map_upd [OF c]) (rule add.commute)
  then have "mset (spsc_contents B q) + ?rest + mset live' + mset (fs_list (oa_caches A ! c)) =
      mset (spsc_contents B q) + mset (concat (map fs_list (oa_caches A))) + mset (fs_list st) + mset live'"
    by (metis (no_types, lifting) add.assoc add.commute)
  also have "\<dots> = oa_all B A live + mset (fs_list (oa_caches A ! c))"
    using assms(6) unfolding oa_all_def by (metis (no_types, lifting) add.assoc add.commute)
  finally have "mset (spsc_contents B q) + ?rest + mset live' = oa_all B A live" by simp
  moreover have "\<forall>s \<in> set ((oa_caches A)[c := st]). fs_ok s \<and> fs_capacity s = ObjBatchSize"
    using assms(1,3,4) set_update_subset_insert [of "oa_caches A" c st] by (auto simp: oa_inv_def)
  ultimately show ?thesis using assms(1,5) by (simp add: oa_inv_def oa_all_def)
qed

lemma alloc_from_cache:
  assumes "oa_inv B A live" "c < oa_ncaches A" "fs_list (oa_caches A ! c) \<noteq> []"
  obtains st where "fs_pop (oa_caches A ! c) = Inr (Some (last (fs_list (oa_caches A ! c))), st)"
    "oa_inv B (A\<lparr>oa_caches := (oa_caches A)[c := st]\<rparr>) (last (fs_list (oa_caches A ! c)) # live)"
proof -
  let ?st = "oa_caches A ! c"
  obtain st where st: "fs_pop ?st = Inr (Some (last (fs_list ?st)), st)" "fs_ok st"
    "fs_list st = butlast (fs_list ?st)" "fs_capacity st = fs_capacity ?st"
    using fs_pop_last [OF oa_inv_cache(2) [OF assms(1,2)] assms(3)] by blast
  have "mset (fs_list ?st) = add_mset (last (fs_list ?st)) (mset (fs_list st))"
    using assms(3) st(3) by (metis append_butlast_last_id mset_append mset.simps union_mset_add_mset_right add.right_neutral)
  then have "oa_inv B (A\<lparr>oa_caches := (oa_caches A)[c := st], oa_central := oa_central A\<rparr>) (last (fs_list ?st) # live)"
    using oa_inv_cache(3) [OF assms(1,2)] st by (intro oa_inv_update [OF assms(1,2)]) auto
  with st(1) show thesis by (intro that) auto
qed

lemma alloc_from_central:
  assumes "spsc_ok B" "oa_inv B A live" "c < oa_ncaches A" "fs_list (oa_caches A ! c) = []"
    and "spsc_contents B (oa_central A) \<noteq> []"
  obtains st q objs where "spsc_pop B ObjBatchSize (oa_central A) = (objs, q)" "objs \<noteq> []"
    "(if length objs > 1 then fs_push_n (oa_caches A ! c) (tl objs) else Inr (oa_caches A ! c)) = Inr st"
    "oa_inv B (A\<lparr>oa_caches := (oa_caches A)[c := st], oa_central := q\<rparr>) (hd objs # live)"
    "hd objs = hd (spsc_contents B (oa_central A))"
proof -
  let ?st = "oa_caches A ! c" and ?objs = "take ObjBatchSize (spsc_contents B (oa_central A))"
  note C = oa_inv_cache [OF assms(2,3)]
  obtain q where q: "spsc_pop B ObjBatchSize (oa_central A) = (?objs, q)"
    "spsc_contents B q = drop ObjBatchSize (spsc_contents B (oa_central A))"
    "spsc_capacity B q = spsc_capacity B (oa_central A)"
    by (rule spsc_pop_ok [OF assms(1)])
  have ne: "?objs \<noteq> []" using assms(5) by simp
  have "fs_size ?st = 0" using length_fs_list [OF C(2)] assms(4) by simp
  moreover have "length (tl ?objs) \<le> ObjBatchSize" by simp
  ultimately have "fs_size ?st + length (tl ?objs) \<le> fs_capacity ?st" using C(3) by linarith
  then obtain st where st: "fs_push_n ?st (tl ?objs) = Inr st" "fs_ok st"
    "fs_list st = fs_list ?st @ tl ?objs" "fs_capacity st = fs_capacity ?st"
    by (rule fs_push_n_appends [OF C(2)])
  obtain st' where st': "(if length ?objs > 1 then fs_push_n ?st (tl ?objs) else Inr ?st) = Inr st'"
    "fs_ok st'" "fs_list st' = tl ?objs" "fs_capacity st' = ObjBatchSize"
  proof (cases "length ?objs > 1")
    case True
    with st C(3) assms(4) show thesis by (intro that [of st]) auto
  next
    case False
    then have "tl ?objs = []" by (cases "spsc_contents B (oa_central A)") auto
    with False C assms(4) show thesis by (intro that [of ?st]) auto
  qed
  have "mset (spsc_contents B (oa_central A)) = mset ?objs + mset (spsc_contents B q)"
    by (metis append_take_drop_id mset_append q(2))
  moreover have "mset ?objs = add_mset (hd ?objs) (mset (tl ?objs))"
    using ne by (cases ?objs) auto
  ultimately have "oa_inv B (A\<lparr>oa_caches := (oa_caches A)[c := st'], oa_central := q\<rparr>) (hd ?objs # live)"
    using st' assms(4) q(3) by (intro oa_inv_update [OF assms(2,3)]) auto
  moreover have "hd ?objs = hd (spsc_contents B (oa_central A))" by (simp add: hd_take)
  ultimately show thesis by (intro that [OF q(1) ne st'(1)])
qed

lemma push_objects_contents:
  assumes "spsc_ok B" "length (spsc_contents B q) + length os \<le> spsc_capacity B q"
  shows "spsc_contents B (push_objects B q os) = spsc_contents B q @ os \<and>
    spsc_capacity B (push_objects B q os) = spsc_capacity B q"
  using assms(2)
proof (induction os arbitrary: q)
  case (Cons o1 os)
  obtain q' where q': "spsc_push B [o1] q = (length [o1], q')"
    "spsc_contents B q' = spsc_contents B q @ [o1]" "spsc_capacity B q' = spsc_capacity B q"
    by (rule spsc_push_room [OF assms(1), of q "[o1]"]) (use Cons.prems in auto)
  then show ?case using Cons.IH [of q'] Cons.prems by simp
qed simp

lemma getCurrentLogicalCPU_ok:
  "rt_ok rt \<Longrightarrow> getCurrentLogicalCPU rt h =
     Inr (snd (alpi_ret rt h alpi_cpu_logical_id) 0, h @ [alpi_cpu_logical_id])"
  by (simp add: getCurrentLogicalCPU_def alpi_checked_ok)

lemma objalloc_free_inv:
  assumes "spsc_ok B" "oa_inv B A (objs @ live)"
  shows "\<exists>A'. objalloc_free B A objs = Inr A' \<and> oa_inv B A' live \<and> oa_capacity A' = oa_capacity A"
proof -
  have "size (oa_all B A (objs @ live)) = oa_capacity A"
    using assms(2) by (simp add: oa_inv_def del: upt_Suc)
  then have "length (spsc_contents B (oa_central A)) + length objs \<le> spsc_capacity B (oa_central A)"
    using assms(2) by (simp add: oa_all_def oa_inv_def)
  then obtain q where q: "spsc_push B objs (oa_central A) = (length objs, q)"
    "spsc_contents B q = spsc_contents B (oa_central A) @ objs"
    "spsc_capacity B q = spsc_capacity B (oa_central A)"
    by (rule spsc_push_room [OF assms(1)])
  then have "objalloc_free B A objs = Inr (A\<lparr>oa_central := q\<rparr>)" by (simp add: objalloc_free_def)
  moreover have "oa_all B (A\<lparr>oa_central := q\<rparr>) live = oa_all B A (objs @ live)"
    using q(2) by (simp add: oa_all_def)
  ultimately show ?thesis using assms(2) q(3) by (auto simp: oa_inv_def)
qed

lemma objalloc_alloc_inv:
  assumes "spsc_ok B" "rt_ok rt" "oa_inv B A live"
    and "snd (alpi_ret rt h alpi_cpu_logical_id) 0 = cpu" "cpu < oa_ncaches A"
  shows "if fs_list (oa_caches A ! cpu) = [] \<and> spsc_contents B (oa_central A) = []
    then objalloc_alloc B rt h A = fail [Str ''Unavailable allocator objects'']
    else \<exists>p A'. objalloc_alloc B rt h A = Inr (p, A', h @ [alpi_cpu_logical_id]) \<and>
           p \<noteq> 0 \<and> p \<notin> set live \<and> oa_inv B A' (p # live) \<and> oa_capacity A' = oa_capacity A"
proof -
  note C = oa_inv_cache [OF assms(3,5)]
  note start = getCurrentLogicalCPU_ok [OF assms(2)] assms(4,5) C(1)
  have use: "p \<noteq> 0" "p \<notin> set live" if "oa_inv B A' (p # live)" for p A'
    using oa_inv_distinct [OF that] by auto
  show ?thesis
  proof (cases "fs_list (oa_caches A ! cpu) = []")
    case False
    then obtain st where st: "fs_pop (oa_caches A ! cpu) = Inr (Some (last (fs_list (oa_caches A ! cpu))), st)"
      "oa_inv B (A\<lparr>oa_caches := (oa_caches A)[cpu := st]\<rparr>) (last (fs_list (oa_caches A ! cpu)) # live)"
      by (rule alloc_from_cache [OF assms(3,5)])
    with use [OF st(2)] start False show ?thesis by (simp add: objalloc_alloc_def)
  next
    case empty: True
    have pop: "fs_pop (oa_caches A ! cpu) = Inr (None, oa_caches A ! cpu)"
      by (rule fs_pop_empty [OF C(2) empty])
    show ?thesis
    proof (cases "spsc_contents B (oa_central A) = []")
      case True
      obtain q where "spsc_pop B ObjBatchSize (oa_central A) = ([], q)"
        by (rule spsc_pop_ok [OF assms(1), of ObjBatchSize "oa_central A"]) (use True in auto)
      with pop start empty True show ?thesis by (simp add: objalloc_alloc_def)
    next
      case False
      obtain st q objs where s: "spsc_pop B ObjBatchSize (oa_central A) = (objs, q)" "objs \<noteq> []"
        "(if length objs > 1 then fs_push_n (oa_caches A ! cpu) (tl objs) else Inr (oa_caches A ! cpu)) = Inr st"
        "oa_inv B (A\<lparr>oa_caches := (oa_caches A)[cpu := st], oa_central := q\<rparr>) (hd objs # live)"
        by (rule alloc_from_central [OF assms(1,3,5) empty False])
      with pop use [OF s(4)] start False show ?thesis
        by (simp add: objalloc_alloc_def Let_def)
    qed
  qed
qed

text \<open>
  Construction: on a runtime with at most 64 CPUs and aligned memory, the new allocator owns as many
  objects as its capacity, all of them in the central queue, and none in use.
\<close>

lemma ObjAllocator_new:
  assumes "spsc_ok B" "rt_ok rt" "spsc_contents B q0 = []" "spsc_capacity B q0 = cap"
    and "snd (alpi_ret rt h alpi_cpu_count) 0 \<le> MaxSystemCPUs" "p mod CacheAlignment = 0"
  shows "\<exists>A. ObjAllocator B rt h (Some p) q0 cap = Inr (A, h @ [alpi_cpu_count]) \<and>
    oa_inv B A [] \<and> oa_capacity A = cap \<and>
    oa_ncaches A = snd (alpi_ret rt h alpi_cpu_count) 0 \<and> spsc_contents B (oa_central A) = [1..<cap + 1]"
proof -
  have "spsc_contents B (push_objects B q0 [1..<cap + 1]) = [1..<cap + 1]"
    "spsc_capacity B (push_objects B q0 [1..<cap + 1]) = cap"
    using push_objects_contents [OF assms(1), of q0 "[1..<cap + 1]"] assms(3,4) by (auto simp del: upt_Suc)
  then show ?thesis
    using assms(2,5,6)
    by (auto simp: ObjAllocator_def alignedAlloc_def getNumLogicalCPUs_def alpi_checked_ok oa_inv_def
        oa_all_def FixedSizeStack_def fs_list_def fs_ok_def fs_capacity_def simp del: upt_Suc)
qed

section \<open>Properties\<close>

text \<open>
  (C16) Allocation of an object from a CPU: when the cache of the CPU and the central queue are both
  empty the process ends with the message of the source. Otherwise it returns a pointer that is not
  null and not in use, and afterwards every object is again in exactly one place, the new one among
  those in use. No assertion of the source fails on the way.
\<close>

theorem objalloc_alloc_fresh:
  assumes "spsc_ok B" "rt_ok rt" "oa_inv B A live"
    and "snd (alpi_ret rt h alpi_cpu_logical_id) 0 = cpu" "cpu < oa_ncaches A"
  shows "if fs_list (oa_caches A ! cpu) = [] \<and> spsc_contents B (oa_central A) = []
    then objalloc_alloc B rt h A = fail [Str ''Unavailable allocator objects'']
    else \<exists>p A'. objalloc_alloc B rt h A = Inr (p, A', h @ [alpi_cpu_logical_id]) \<and>
           p \<noteq> 0 \<and> p \<notin> set live \<and> oa_inv B A' (p # live) \<and> oa_capacity A' = oa_capacity A"
  by (rule objalloc_alloc_inv [OF assms])

text \<open>
  (C17) Freeing objects that are in use: the central queue always has room for them, so the assertion
  \<open>pushed == n\<close> of the source holds, and every object is again in exactly one place.
\<close>

theorem objalloc_free_ok:
  assumes "spsc_ok B" "oa_inv B A (objs @ live)"
  shows "\<exists>A'. objalloc_free B A objs = Inr A' \<and> oa_inv B A' live \<and> oa_capacity A' = oa_capacity A"
  using objalloc_free_inv [OF assms] .

text \<open>An allocator of three objects for one CPU; object 3 is in use, object 2 is in the cache.\<close>

definition sample_alloc :: "nat list objalloc" where
  "sample_alloc = \<lparr> oa_capacity = 3, oa_ncaches = 1,
     oa_caches = [\<lparr>fs_array = 2 # replicate 63 0, fs_size = 1\<rparr>], oa_central = [1] \<rparr>"

lemma sample_alloc_inv [simp]: "oa_inv (list_spsc 3) sample_alloc [3]"
  by (simp add: oa_inv_def oa_all_def sample_alloc_def list_spsc_def fs_list_def fs_ok_def
      fs_capacity_def upt_rec numeral_2_eq_2 numeral_3_eq_3)

theorem objalloc_alloc_fresh_witness:
  "\<exists>p A'. objalloc_alloc (list_spsc 3) (const_rt 0) [] sample_alloc = Inr (p, A', [alpi_cpu_logical_id]) \<and>
     p \<noteq> 0 \<and> p \<noteq> 3 \<and> oa_inv (list_spsc 3) A' [p, 3]"
  using objalloc_alloc_fresh [OF list_spsc_ok const_rt_ok sample_alloc_inv, of 0 "[]" 0]
  by (auto simp: sample_alloc_def fs_list_def)

theorem objalloc_free_ok_witness:
  "\<exists>A'. objalloc_free (list_spsc 3) sample_alloc [3] = Inr A' \<and> oa_inv (list_spsc 3) A' []"
  using objalloc_free_ok [OF list_spsc_ok, of 3 sample_alloc "[3]" "[]"] by auto

end
