(* ===== verification/Ticket_Manager.thy ===== *)
theory Ticket_Manager
  imports Ticket_Arrays Request_Testing Completion_Manager Capacity_Ctrl Multi_Queue_Spec Boost_Queue
    Allocator
begin

text \<open>
  \<open>TicketManager\<close> (src/src/common/TicketManager.hpp): the operations taken from the pre-queues are
  issued and tested at once; those that are not complete are kept, with their tickets, in the
  arrays of requests in flight, which are tested in batches until they complete. A completion is
  notified to the task, directly or through the completion manager.

  The mutex \<open>_mutex\<close> makes \<open>checkRequests\<close> one step of the polling task. The instrumentation does not
  change the state and is left out. The pointers to operations are those of the allocators, and
  the operations they point to are in a store.
\<close>

section \<open>Platform and state\<close>

text \<open>
  What the sources take from outside: the MPI library, the tasking runtime, the Boost queues (\<open>pf_B\<close>
  for pointers, \<open>pf_C\<close> for task contexts), and whether the completion manager is enabled
  (\<open>CompletionManager::isEnabled\<close>).
\<close>

record ('m, 'q, 'c) platform =
  pf_mpi :: "'m mpi"
  pf_rt :: alpi
  pf_B :: "('q, nat) spsc"
  pf_C :: "('c, TaskContext) spsc"
  pf_cm :: bool

text \<open>
  What the ticket manager changes outside of its own state: the calls to the runtime, the state of
  MPI, the statuses of the application and the queue of the completion manager.
\<close>

record ('m, 'c) world =
  w_log :: alpi_log
  w_mpi :: 'm
  w_mem :: status_mem
  w_cq :: 'c

record 'q ticket_manager =
  tm_generalTesting :: TestingApproach
  tm_immediateTesting :: TestingApproach
  tm_capacityCtrl :: capacity_ctrl
  tm_pending :: nat
  tm_arrays :: arrays
  tm_p2pOperations :: "nat mlfq"
  tm_collOperations :: "'q blfq"

abbreviation BatchSize :: nat where "BatchSize \<equiv> 64"

text \<open>The constructor; the arrays and the queues are as their own constructors leave them.\<close>

definition TicketManager ::
    "(string \<Rightarrow> string option) \<Rightarrow> (capacity_ctrl \<times> warnings) result \<Rightarrow> arrays \<Rightarrow> nat mlfq result \<Rightarrow> 'q blfq \<Rightarrow>
     'q ticket_manager result" where
  "TicketManager getenv ctrl arrs p2p coll =
     rbind (parseTestingOption getenv ''TAMPI_REQUESTS_TESTING'' Approach_TestSome) (\<lambda>generalTesting.
     rbind (parseTestingOption getenv ''TAMPI_REQUESTS_IMMEDIATE_TESTING'' generalTesting) (\<lambda>immediateTesting.
     rbind ctrl (\<lambda>(c, _).
     rbind p2p (\<lambda>q.
     if generalTesting = Approach_None then fail [Str ''Invalid approach for general request testing'']
     else Inr \<lparr>tm_generalTesting = generalTesting, tm_immediateTesting = immediateTesting,
            tm_capacityCtrl = c, tm_pending = 0, tm_arrays = arrs, tm_p2pOperations = q,
            tm_collOperations = coll\<rparr>))))"

section \<open>Checking the requests in flight\<close>

text \<open>
  The completions of one batch: the status is stored, and the context is collected for the
  completion manager or the task is notified at once.
\<close>

fun finish_batch ::
    "('m, 'q, 'c) platform \<Rightarrow> arrays \<Rightarrow> nat \<Rightarrow> (nat \<times> mpi_status) list \<Rightarrow> ('m, 'c) world \<Rightarrow>
     (TaskContext list \<times> ('m, 'c) world) result" where
  "finish_batch P a checked [] w = Inr ([], w)"
| "finish_batch P a checked ((i, st) # cs) w =
     (let index = checked + i in
      rbind (getLocalPositionInTicket a index) (\<lambda>loc.
      rbind (getAssociatedTicket a index) (\<lambda>ticket.
      rbind (if \<not> ignoreStatus (pf_mpi P) ticket then storeStatus ticket st loc (w_mem w)
             else Inr (w_mem w)) (\<lambda>mem.
      let w = w\<lparr>w_mem := mem\<rparr> in
      if pf_cm P then
        rbind (finish_batch P a checked cs w) (\<lambda>(ctxs, w). Inr (tk_taskContext ticket # ctxs, w))
      else
        rbind (ticket_complete (pf_rt P) (w_log w) ticket) (\<lambda>h.
        finish_batch P a checked cs (w\<lparr>w_log := h\<rparr>))))))"

definition transfer_contexts ::
    "('m, 'q, 'c) platform \<Rightarrow> TaskContext list \<Rightarrow> ('m, 'c) world \<Rightarrow> ('m, 'c) world result" where
  "transfer_contexts P ctxs w =
     (if pf_cm P \<and> length ctxs > 0
      then rbind (transfer (pf_C P) (w_cq w) ctxs) (\<lambda>q. Inr (w\<lparr>w_cq := q\<rparr>)) else Inr w)"

text \<open>One iteration of the loop over the batches: the new indices, and the arrays and the world after it.\<close>

definition check_batch ::
    "('m, 'q, 'c) platform \<Rightarrow> TestingApproach \<Rightarrow> arrays \<Rightarrow> nat \<Rightarrow> nat \<Rightarrow> ('m, 'c) world \<Rightarrow>
     (nat list \<times> arrays \<times> ('m, 'c) world) result" where
  "check_batch P approach a checked n w =
     (if checked + n > length (ar_requests a) then Inl (OutOfBounds ''_requests'')
      else
        rbind (internalTestRequests (pf_mpi P) approach (take n (drop checked (ar_requests a))) (w_mpi w))
          (\<lambda>(cs, reqs, m).
        let a = a\<lparr>ar_requests := take checked (ar_requests a) @ reqs @ drop (checked + n) (ar_requests a)\<rparr> in
        rbind (finish_batch P a checked cs (w\<lparr>w_mpi := m\<rparr>)) (\<lambda>(ctxs, w).
        rbind (transfer_contexts P ctxs w) (\<lambda>w.
        Inr (map (\<lambda>(i, _). checked + i) cs, a, w)))))"

function check_batches ::
    "('m, 'q, 'c) platform \<Rightarrow> TestingApproach \<Rightarrow> nat \<Rightarrow> arrays \<Rightarrow> nat \<Rightarrow> ('m, 'c) world \<Rightarrow>
     (nat list \<times> arrays \<times> ('m, 'c) world) result" where
  "check_batches P approach pending a checked w =
     (let n = min (pending - checked) BatchSize in
      rbind (check_batch P approach a checked n w) (\<lambda>(idx, a, w).
      if checked + n < pending then
        rbind (check_batches P approach pending a (checked + n) w) (\<lambda>(idx', a, w).
        Inr (idx @ idx', a, w))
      else Inr (idx, a, w)))"
  by pat_completeness auto
termination
  by (relation "measure (\<lambda>(P, approach, pending, a, checked, w). pending - checked)") auto

declare check_batches.simps [simp del]

definition internalCheckRequests ::
    "('m, 'q, 'c) platform \<Rightarrow> 'q ticket_manager \<Rightarrow> ('m, 'c) world \<Rightarrow>
     (nat \<times> 'q ticket_manager \<times> ('m, 'c) world) result" where
  "internalCheckRequests P tm w =
     rbind (rassert (tm_pending tm > 0) ''_pending > 0'') (\<lambda>_.
     rbind (check_batches P (tm_generalTesting tm) (tm_pending tm) (tm_arrays tm) 0 w) (\<lambda>(indices, a, w).
     let completed = length indices in
     rbind (compact indices indices (int (tm_pending tm) - 1) (int completed - 1) a) (\<lambda>a.
     Inr (completed, tm\<lparr>tm_arrays := a, tm_pending := tm_pending tm - completed\<rparr>, w))))"

section \<open>Transferring operations\<close>

text \<open>
  \<open>transferOperations\<close> is a template in the type of the operations: \<open>mk\<close> constructs the ticket of an
  operation and \<open>issue\<close> issues it. The first loop: the tickets; the requests that were issued, each
  with its entry; and the entries that came back without a request.
\<close>

fun issue_loop ::
    "request \<Rightarrow> ('o \<Rightarrow> Ticket result) \<Rightarrow> ('o \<Rightarrow> 'm \<Rightarrow> (request \<times> 'm) result) \<Rightarrow> nat \<Rightarrow> 'o list \<Rightarrow> 'm \<Rightarrow>
     (Ticket list \<times> (request \<times> nat) list \<times> nat list \<times> 'm) result" where
  "issue_loop null mk issue e [] m = Inr ([], [], [], m)"
| "issue_loop null mk issue e (o1 # os) m =
     rbind (mk o1) (\<lambda>ticket.
     rbind (issue o1 m) (\<lambda>(req, m).
     rbind (issue_loop null mk issue (e + 1) os m) (\<lambda>(tickets, reqs, compl, m).
     Inr (ticket # tickets, if req \<noteq> null then (req, e) # reqs else reqs,
          if req \<noteq> null then compl else e # compl, m))))"

text \<open>The requests that completed at once: their statuses are stored and their entries marked.\<close>

fun filter_completed ::
    "'m mpi \<Rightarrow> Ticket list \<Rightarrow> (nat \<times> mpi_status) list \<Rightarrow> int list \<Rightarrow> status_mem \<Rightarrow>
     (nat list \<times> int list \<times> status_mem) result" where
  "filter_completed mpi tickets [] req2entry mem = Inr ([], req2entry, mem)"
| "filter_completed mpi tickets ((req, st) # cs) req2entry mem =
     rbind (aread req2entry req ''req2entry'') (\<lambda>entry.
     if entry < 0 then Inl (OutOfBounds ''tickets'')
     else
       rbind (aread tickets (nat entry) ''tickets'') (\<lambda>ticket.
       rbind (if \<not> ignoreStatus mpi ticket then storeStatus ticket st 0 mem else Inr mem) (\<lambda>mem.
       rbind (filter_completed mpi tickets cs (req2entry[req := -1]) mem) (\<lambda>(compl, req2entry, mem).
       Inr (nat entry # compl, req2entry, mem)))))"

fun complete_entries ::
    "('m, 'q, 'c) platform \<Rightarrow> Ticket list \<Rightarrow> nat list \<Rightarrow> ('m, 'c) world \<Rightarrow>
     (TaskContext list \<times> ('m, 'c) world) result" where
  "complete_entries P tickets [] w = Inr ([], w)"
| "complete_entries P tickets (entry # es) w =
     rbind (aread tickets entry ''tickets'') (\<lambda>ticket.
     if pf_cm P then
       rbind (complete_entries P tickets es w) (\<lambda>(ctxs, w). Inr (tk_taskContext ticket # ctxs, w))
     else
       rbind (ticket_complete (pf_rt P) (w_log w) ticket) (\<lambda>h.
       complete_entries P tickets es (w\<lparr>w_log := h\<rparr>)))"

fun move_pending ::
    "Ticket list \<Rightarrow> request list \<Rightarrow> int list \<Rightarrow> nat \<Rightarrow> arrays \<Rightarrow> (nat \<times> arrays) result" where
  "move_pending tickets (req # reqs) (entry # entries) pending a =
     (if entry < 0 then move_pending tickets reqs entries pending a
      else
        rbind (aread tickets (nat entry) ''tickets'') (\<lambda>ticket.
        rbind (allocateTicket a pending ticket) (\<lambda>a.
        rbind (associateRequest a pending req pending 0) (\<lambda>a.
        move_pending tickets reqs entries (pending + 1) a))))"
| "move_pending tickets reqs entries pending a = Inr (pending, a)"

definition transfer_core ::
    "('m, 'q, 'c) platform \<Rightarrow> ('o \<Rightarrow> Ticket result) \<Rightarrow> ('o \<Rightarrow> 'm \<Rightarrow> (request \<times> 'm) result) \<Rightarrow> 'o list \<Rightarrow>
     'q ticket_manager \<Rightarrow> ('m, 'c) world \<Rightarrow> ('q ticket_manager \<times> ('m, 'c) world) result" where
  "transfer_core P mk issue ops tm w =
     rbind (rassert (length ops \<le> BatchSize) ''count <= BatchSize'') (\<lambda>_.
     rbind (rassert (int (tm_pending tm) + int (length ops) \<le> cc_get (tm_capacityCtrl tm))
              ''_pending + count <= _capacityCtrl.get()'') (\<lambda>_.
     rbind (issue_loop (MPI_REQUEST_NULL (pf_mpi P)) mk issue 0 ops (w_mpi w)) (\<lambda>(tickets, issued, compl, m).
     rbind (if issued \<noteq> []
            then internalTestRequests (pf_mpi P) (tm_immediateTesting tm) (map fst issued) m
            else Inr ([], map fst issued, m)) (\<lambda>(cs, requests, m).
     rbind (filter_completed (pf_mpi P) tickets cs (map (int \<circ> snd) issued) (w_mem w)) (\<lambda>(testcompl, req2entry, mem).
     rbind (complete_entries P tickets (compl @ testcompl) (w\<lparr>w_mpi := m, w_mem := mem\<rparr>)) (\<lambda>(ctxs, w).
     rbind (transfer_contexts P ctxs w) (\<lambda>w.
     rbind (move_pending tickets requests req2entry (tm_pending tm) (tm_arrays tm)) (\<lambda>(pending, a).
     Inr (tm\<lparr>tm_pending := pending, tm_arrays := a\<rparr>, w)))))))))"

text \<open>With the pointers: the operations are read from the store \<open>heap\<close>, and freed at the end.\<close>

definition transferOperations ::
    "('m, 'q, 'c) platform \<Rightarrow> ('o \<Rightarrow> Ticket result) \<Rightarrow> ('o \<Rightarrow> 'm \<Rightarrow> (request \<times> 'm) result) \<Rightarrow>
     (nat \<Rightarrow> 'o) \<Rightarrow> nat list \<Rightarrow> 'q objalloc option \<Rightarrow> 'q ticket_manager \<Rightarrow> ('m, 'c) world \<Rightarrow>
     ('q objalloc option \<times> 'q ticket_manager \<times> ('m, 'c) world) result" where
  "transferOperations P mk issue heap operations A tm w =
     rbind (transfer_core P mk issue (map heap operations) tm w) (\<lambda>(tm, w).
     case A of
       None \<Rightarrow> Inl (AssertFail ''ObjAllocator<T>::_instance != nullptr'')
     | Some A \<Rightarrow> rbind (objalloc_free (pf_B P) A operations) (\<lambda>A. Inr (Some A, tm, w)))"

section \<open>The polling body\<close>

text \<open>The state of the library that the polling task works on.\<close>

record ('m, 'q, 'c) sys =
  sy_tm :: "'q ticket_manager"
  sy_world :: "('m, 'c) world"
  sy_alloc :: "'q allocators"
  sy_ops :: "nat \<Rightarrow> Operation"
  sy_colls :: "nat \<Rightarrow> CollOperation"

definition transfer_p2p :: "('m, 'q, 'c) platform \<Rightarrow> nat list \<Rightarrow> ('m, 'q, 'c) sys \<Rightarrow> ('m, 'q, 'c) sys result" where
  "transfer_p2p P ptrs s =
     rbind (transferOperations P Ticket_of_op (Operation_issue (pf_mpi P)) (sy_ops s) ptrs
              (al_operation (sy_alloc s)) (sy_tm s) (sy_world s)) (\<lambda>(A, tm, w).
     Inr (s\<lparr>sy_alloc := (sy_alloc s)\<lparr>al_operation := A\<rparr>, sy_tm := tm, sy_world := w\<rparr>))"

definition transfer_coll :: "('m, 'q, 'c) platform \<Rightarrow> nat list \<Rightarrow> ('m, 'q, 'c) sys \<Rightarrow> ('m, 'q, 'c) sys result" where
  "transfer_coll P ptrs s =
     rbind (transferOperations P (Ticket_of_coll (pf_mpi P)) (CollOperation_issue (pf_mpi P)) (sy_colls s) ptrs
              (al_coll (sy_alloc s)) (sy_tm s) (sy_world s)) (\<lambda>(A, tm, w).
     Inr (s\<lparr>sy_alloc := (sy_alloc s)\<lparr>al_coll := A\<rparr>, sy_tm := tm, sy_world := w\<rparr>))"

text \<open>
  \<open>internalCheckOperationQueues\<close>: one iteration of its loop pops and transfers a batch of
  point-to-point and a batch of collective operations; the results are the numbers popped. The
  arguments of the pops are converted from \<open>int\<close> to \<open>size_t\<close>; they are never negative.
\<close>

definition queues_step ::
    "('m, 'q, 'c) platform \<Rightarrow> int \<Rightarrow> int \<Rightarrow> ('m, 'q, 'c) sys \<Rightarrow> (nat \<times> nat \<times> ('m, 'q, 'c) sys) run" where
  "queues_step P navailable ntotal s =
     (let np2p = min (navailable - ntotal) (int BatchSize) in
      run_bind (mq_pop CyclicRoundRobin (tm_p2pOperations (sy_tm s)) (nat np2p)) (\<lambda>(ps, q).
      let s = s\<lparr>sy_tm := (sy_tm s)\<lparr>tm_p2pOperations := q\<rparr>\<rparr>; np2p = length ps in
      run_bind (Some (if np2p > 0 then transfer_p2p P ps s else Inr s)) (\<lambda>s.
      let ntotal = ntotal + int np2p;
          ncoll = min (navailable - ntotal) (int BatchSize);
          (cs, q) = bq_pop (pf_B P) (tm_collOperations (sy_tm s)) (nat ncoll);
          s = s\<lparr>sy_tm := (sy_tm s)\<lparr>tm_collOperations := q\<rparr>\<rparr>; ncoll = length cs in
      run_bind (Some (if ncoll > 0 then transfer_coll P cs s else Inr s)) (\<lambda>s.
      ret (np2p, ncoll, s)))))"

partial_function (option) queues_loop ::
    "('m, 'q, 'c) platform \<Rightarrow> int \<Rightarrow> int \<Rightarrow> ('m, 'q, 'c) sys \<Rightarrow> (int \<times> ('m, 'q, 'c) sys) run" where
  "queues_loop P navailable ntotal s =
     run_bind (queues_step P navailable ntotal s) (\<lambda>(np2p, ncoll, s).
     let ntotal = ntotal + int np2p + int ncoll in
     if ntotal < navailable \<and> (np2p > 0 \<or> ncoll > 0) then queues_loop P navailable ntotal s
     else ret (ntotal, s))"

definition internalCheckOperationQueues ::
    "('m, 'q, 'c) platform \<Rightarrow> int \<Rightarrow> ('m, 'q, 'c) sys \<Rightarrow> (int \<times> ('m, 'q, 'c) sys) run" where
  "internalCheckOperationQueues P mx s =
     (let navailable = min (cc_get (tm_capacityCtrl (sy_tm s)) - int (tm_pending (sy_tm s))) mx in
      queues_loop P navailable 0 s)"

text \<open>One iteration of the loop of \<open>checkRequests\<close>, the loop, and the function.\<close>

definition check_step :: "('m, 'q, 'c) platform \<Rightarrow> ('m, 'q, 'c) sys \<Rightarrow> (int \<times> nat \<times> ('m, 'q, 'c) sys) run" where
  "check_step P s =
     run_bind (if int (tm_pending (sy_tm s)) < cc_get (tm_capacityCtrl (sy_tm s))
               then internalCheckOperationQueues P (int (BatchSize * 2)) s else ret (0, s)) (\<lambda>(inserted, s).
     run_bind (if tm_pending (sy_tm s) \<noteq> 0
               then Some (rbind (internalCheckRequests P (sy_tm s) (sy_world s)) (\<lambda>(completed, tm, w).
                      Inr (completed, s\<lparr>sy_tm := tm, sy_world := w\<rparr>)))
               else ret (0, s)) (\<lambda>(completed, s).
     ret (inserted, completed, s)))"

partial_function (option) check_loop ::
    "('m, 'q, 'c) platform \<Rightarrow> ('m, 'q, 'c) sys \<Rightarrow> nat \<Rightarrow> (nat \<times> ('m, 'q, 'c) sys) run" where
  "check_loop P s totalCompleted =
     run_bind (check_step P s) (\<lambda>(inserted, completed, s).
     let totalCompleted = totalCompleted + completed in
     if completed > 0 \<or> inserted > 0 then check_loop P s totalCompleted else ret (totalCompleted, s))"

definition checkRequests ::
    "('m, 'q, 'c) platform \<Rightarrow> double \<Rightarrow> ('m, 'q, 'c) sys \<Rightarrow> nat \<Rightarrow> (nat \<times> nat \<times> ('m, 'q, 'c) sys \<times> warnings) run" where
  "checkRequests P now s pending =
     run_bind (check_loop P s 0) (\<lambda>(totalCompleted, s).
     let tm = sy_tm s;
         (ctrl, wn) = evaluate (tm_capacityCtrl tm) (of_nat (tm_pending tm)) (of_nat totalCompleted) now in
     ret (totalCompleted, pending + tm_pending tm, s\<lparr>sy_tm := tm\<lparr>tm_capacityCtrl := ctrl\<rparr>\<rparr>, wn))"

text \<open>\<open>addOperation\<close> of both kinds.\<close>

definition addOperation_p2p ::
    "(nat \<Rightarrow> nat mlfq \<Rightarrow> nat mlfq) \<Rightarrow> alpi \<Rightarrow> alpi_log \<Rightarrow> 'q ticket_manager \<Rightarrow> nat \<Rightarrow>
     ('q ticket_manager \<times> alpi_log) run" where
  "addOperation_p2p env rt h tm operation =
     run_bind (Some (rassert (operation \<noteq> 0) ''operation != nullptr'')) (\<lambda>_.
     run_bind (Some (getCurrentLogicalCPU rt h)) (\<lambda>(cpu, h).
     run_bind (mq_push env (tm_p2pOperations tm) operation cpu) (\<lambda>q.
     ret (tm\<lparr>tm_p2pOperations := q\<rparr>, h))))"

definition addOperation_coll ::
    "('q, nat) spsc \<Rightarrow> (nat \<Rightarrow> 'q \<Rightarrow> 'q) \<Rightarrow> 'q ticket_manager \<Rightarrow> nat \<Rightarrow> 'q ticket_manager run" where
  "addOperation_coll B env tm operation =
     run_bind (Some (rassert (operation \<noteq> 0) ''operation != nullptr'')) (\<lambda>_.
     run_bind (bq_push B env (tm_collOperations tm) [operation]) (\<lambda>q.
     ret (tm\<lparr>tm_collOperations := q\<rparr>)))"

end
