(* ===== verification/Ticket_Flight.thy ===== *)
theory Ticket_Flight
  imports Ticket_Manager
begin

text \<open>
  Correctness of \<open>TicketManager::internalCheckRequests\<close>: what a completion delivers to the task and
  stores for the application, the loop over the batches of the arrays, and the state of the arrays
  after the compaction.
\<close>

section \<open>Deliveries\<close>

text \<open>
  \<open>delivers P tcs w w'\<close>: from \<open>w\<close> to \<open>w'\<close> the completions of exactly the contexts \<open>tcs\<close> were notified, in
  this order: to the runtime, or to the queue of the completion manager when that is enabled.
\<close>

definition delivers ::
    "('m, 'q, 'c) platform \<Rightarrow> TaskContext list \<Rightarrow> ('m, 'c) world \<Rightarrow> ('m, 'c) world \<Rightarrow> bool" where
  "delivers P tcs w w' \<longleftrightarrow>
     (if pf_cm P then w_log w' = w_log w \<and>
        spsc_contents (pf_C P) (w_cq w') = spsc_contents (pf_C P) (w_cq w) @ tcs \<and>
        spsc_capacity (pf_C P) (w_cq w') = spsc_capacity (pf_C P) (w_cq w)
      else w_log w' = w_log w @ map completion_call tcs \<and> w_cq w' = w_cq w)"

text \<open>The queue of the completion manager, when it is enabled, has room for \<open>n\<close> contexts.\<close>

definition cq_room :: "('m, 'q, 'c) platform \<Rightarrow> ('m, 'c) world \<Rightarrow> nat \<Rightarrow> bool" where
  "cq_room P w n \<longleftrightarrow> (pf_cm P \<longrightarrow>
     length (spsc_contents (pf_C P) (w_cq w)) + n \<le> spsc_capacity (pf_C P) (w_cq w))"

text \<open>The statuses that the completions store for the application.\<close>

definition store_all :: "'m mpi \<Rightarrow> (Ticket \<times> mpi_status) list \<Rightarrow> status_mem \<Rightarrow> status_mem" where
  "store_all mpi dn mem =
     foldl (\<lambda>mem (t, st). if ignoreStatus mpi t then mem else mem(tk_firstStatus t := st)) mem dn"

definition ticket_ok :: "'m mpi \<Rightarrow> Ticket \<Rightarrow> bool" where
  "ticket_ok mpi t \<longleftrightarrow> ignoreStatus mpi t \<or> tk_firstStatus t \<noteq> 0"

lemma delivers_trans:
  "delivers P xs w w1 \<Longrightarrow> delivers P ys w1 w2 \<Longrightarrow> delivers P (xs @ ys) w w2"
  by (auto simp: delivers_def split: if_splits)

lemma delivers_refl [simp]: "delivers P [] w w"
  by (simp add: delivers_def)

lemma delivers_same:
  "w_log w1 = w_log w \<Longrightarrow> w_cq w1 = w_cq w \<Longrightarrow> delivers P xs w1 w' = delivers P xs w w'"
  by (simp add: delivers_def)

lemma cq_room_same: "w_cq w1 = w_cq w \<Longrightarrow> cq_room P w1 n = cq_room P w n"
  by (simp add: cq_room_def)

lemma cq_room_le: "cq_room P w n \<Longrightarrow> m \<le> n \<Longrightarrow> cq_room P w m"
  by (auto simp: cq_room_def)

lemma cq_room_delivers:
  "delivers P xs w w' \<Longrightarrow> cq_room P w n \<Longrightarrow> m + length xs \<le> n \<Longrightarrow> cq_room P w' m"
  by (auto simp: cq_room_def delivers_def split: if_splits)

lemma store_all_simps [simp]:
  "store_all mpi [] mem = mem"
  "store_all mpi ((t, st) # dn) mem =
     store_all mpi dn (if ignoreStatus mpi t then mem else mem(tk_firstStatus t := st))"
  by (simp_all add: store_all_def)

lemma store_all_append: "store_all mpi (xs @ ys) mem = store_all mpi ys (store_all mpi xs mem)"
  by (simp add: store_all_def)

lemma store_ticket_ok:
  "ticket_ok mpi t \<Longrightarrow>
     (if \<not> ignoreStatus mpi t then storeStatus t st 0 mem else Inr mem) = Inr (store_all mpi [(t, st)] mem)"
  by (auto simp: ticket_ok_def storeStatus_def)

text \<open>The world after the tasks of \<open>tcs\<close> were notified directly, if they are.\<close>

definition notify :: "('m, 'q, 'c) platform \<Rightarrow> TaskContext list \<Rightarrow> ('m, 'c) world \<Rightarrow> ('m, 'c) world" where
  "notify P tcs w = w\<lparr>w_log := if pf_cm P then w_log w else w_log w @ map completion_call tcs\<rparr>"

lemma transfer_contexts_ok:
  assumes "spsc_ok (pf_C P)" "cq_room P w (length tcs)"
  obtains w' where "transfer_contexts P (if pf_cm P then tcs else []) (notify P tcs w) = Inr w'"
    "delivers P tcs w w'" "w_mem w' = w_mem w" "w_mpi w' = w_mpi w"
proof (cases "pf_cm P")
  case True
  with assms(2) obtain q' where "transfer (pf_C P) (w_cq w) tcs = Inr q'"
    "spsc_contents (pf_C P) q' = spsc_contents (pf_C P) (w_cq w) @ tcs"
    "spsc_capacity (pf_C P) q' = spsc_capacity (pf_C P) (w_cq w)"
    using transfer_room [OF assms(1), of "w_cq w" tcs] by (auto simp: cq_room_def)
  with True show thesis
    by (intro that [of "if tcs = [] then w else w\<lparr>w_cq := q'\<rparr>"])
      (auto simp: transfer_contexts_def notify_def delivers_def)
next
  case False
  then show thesis
    by (intro that [of "notify P tcs w"]) (auto simp: transfer_contexts_def notify_def delivers_def)
qed

section \<open>One batch\<close>

lemma finish_batch_ok:
  assumes "rt_ok (pf_rt P)" "ar_ok cap a n"
    and "\<forall>(i, _) \<in> set cs. checked + i < n \<and> ticket_ok (pf_mpi P) (ar_tickets a ! (checked + i))"
  shows "finish_batch P a checked cs w =
    Inr (if pf_cm P then map (\<lambda>(i, _). tk_taskContext (ar_tickets a ! (checked + i))) cs else [],
         notify P (map (\<lambda>(i, _). tk_taskContext (ar_tickets a ! (checked + i))) cs)
           (w\<lparr>w_mem := store_all (pf_mpi P) (map (\<lambda>(i, st). (ar_tickets a ! (checked + i), st)) cs) (w_mem w)\<rparr>))"
  using assms(3)
proof (induction cs arbitrary: w)
  case Nil
  then show ?case by (simp add: notify_def)
next
  case (Cons c cs)
  obtain i st where c: "c = (i, st)" by fastforce
  have i: "checked + i < n" "ticket_ok (pf_mpi P) (ar_tickets a ! (checked + i))" using Cons.prems c by auto
  show ?case
    using ar_reads [OF assms(2) i(1)] store_ticket_ok [OF i(2)] Cons.IH Cons.prems
      completeEvents_ok [OF assms(1)]
    by (auto simp: c notify_def ticket_complete_def Let_def)
qed

text \<open>
  What the batches up to now did: \<open>cs\<close> are the positions of the completed requests, with the
  statuses, between \<open>lo\<close> and \<open>hi\<close>.
\<close>

definition check_post ::
    "('m, 'q, 'c) platform \<Rightarrow> nat \<Rightarrow> nat \<Rightarrow> (nat \<times> mpi_status) list \<Rightarrow> arrays \<Rightarrow> arrays \<Rightarrow>
     ('m, 'c) world \<Rightarrow> ('m, 'c) world \<Rightarrow> bool" where
  "check_post P lo hi cs a a' w w' \<longleftrightarrow>
     sorted_wrt (<) (map fst cs) \<and> (\<forall>i \<in> set (map fst cs). lo \<le> i \<and> i < hi) \<and>
     ar_tickets a' = ar_tickets a \<and> ar_mappings a' = ar_mappings a \<and>
     unchanged_except (set (map fst cs)) (ar_requests a) (ar_requests a') \<and>
     delivers P (map (\<lambda>(i, _). tk_taskContext (ar_tickets a ! i)) cs) w w' \<and>
     w_mem w' = store_all (pf_mpi P) (map (\<lambda>(i, st). (ar_tickets a ! i, st)) cs) (w_mem w)"

lemma check_post_trans:
  assumes "check_post P lo mid cs a a1 w w1" "check_post P mid hi cs' a1 a2 w1 w2" "lo \<le> mid" "mid \<le> hi"
  shows "check_post P lo hi (cs @ cs') a a2 w w2"
proof -
  have "sorted_wrt (<) (map fst (cs @ cs'))"
    using assms(1,2) by (fastforce simp: check_post_def sorted_wrt_append)
  moreover have "unchanged_except (set (map fst (cs @ cs'))) (ar_requests a) (ar_requests a2)"
    using assms(1,2) unchanged_except_trans by (fastforce simp: check_post_def)
  moreover have "delivers P (map (\<lambda>(i, _). tk_taskContext (ar_tickets a ! i)) (cs @ cs')) w w2"
    using assms(1,2) delivers_trans [of P _ w w1 _ w2] by (auto simp: check_post_def)
  moreover have "\<forall>i \<in> set (map fst (cs @ cs')). lo \<le> i \<and> i < hi"
    using assms by (fastforce simp: check_post_def)
  ultimately show ?thesis using assms(1,2) by (simp add: check_post_def store_all_append)
qed

lemma check_post_count: "check_post P lo hi cs a a' w w' \<Longrightarrow> length cs \<le> hi - lo"
proof -
  assume "check_post P lo hi cs a a' w w'"
  then have "distinct (map fst cs)" "set (map fst cs) \<subseteq> {lo..<hi}"
    by (auto simp: check_post_def strict_sorted_iff)
  then show ?thesis
    by (metis card_atLeastLessThan card_mono distinct_card finite_atLeastLessThan length_map)
qed

lemma check_post_ar_ok: "check_post P lo hi cs a a' w w' \<Longrightarrow> ar_ok cap a n \<Longrightarrow> ar_ok cap a' n"
  by (auto simp: check_post_def ar_ok_def unchanged_except_def)

text \<open>The first \<open>n\<close> entries of the arrays from \<open>lo\<close> on: active requests, with tickets that can be completed.\<close>

definition flight_ok :: "'m mpi \<Rightarrow> nat \<Rightarrow> arrays \<Rightarrow> nat \<Rightarrow> nat \<Rightarrow> bool" where
  "flight_ok mpi cap a lo n \<longleftrightarrow> ar_ok cap a n \<and>
     (\<forall>i. lo \<le> i \<and> i < n \<longrightarrow> ar_requests a ! i \<noteq> MPI_REQUEST_NULL mpi \<and> ticket_ok mpi (ar_tickets a ! i))"

lemma flight_ok_post:
  assumes "flight_ok mpi cap a lo n" "check_post P lo mid cs a a' w w'" "lo \<le> mid"
  shows "flight_ok mpi cap a' mid n"
proof -
  have "ar_requests a' ! i = ar_requests a ! i" if "mid \<le> i" "i < n" for i
  proof (rule unchanged_except_nth)
    show "unchanged_except (set (map fst cs)) (ar_requests a) (ar_requests a')"
      using assms(2) by (simp add: check_post_def)
    show "i < length (ar_requests a)" using assms(1) that by (simp add: flight_ok_def ar_ok_def)
    show "i \<notin> set (map fst cs)" using assms(2) that unfolding check_post_def by (meson not_less)
  qed
  then show ?thesis
    using assms check_post_ar_ok [OF assms(2)] by (auto simp: flight_ok_def check_post_def)
qed

lemma unchanged_except_part:
  assumes "unchanged_except S (take k (drop m xs)) ys" "m + k \<le> length xs"
  shows "unchanged_except ((+) m ` S) xs (take m xs @ ys @ drop (m + k) xs)"
proof -
  have len: "length ys = k" using assms by (simp add: unchanged_except_def)
  have "(take m xs @ ys @ drop (m + k) xs) ! i = xs ! i" if "i < length xs" "i \<notin> (+) m ` S" for i
  proof -
    consider "i < m" | j where "i = m + j" "j < k" | "m + k \<le> i" by (metis add.commute le_iff_add not_le nat_add_left_cancel_less)
    then show ?thesis
    proof cases
      case (2 j)
      then have "ys ! j = xs ! (m + j)" using assms that by (auto simp: unchanged_except_def)
      with 2 len assms(2) show ?thesis by (simp add: nth_append)
    next
      case 3
      then have "i = m + (k + (i - (m + k)))" by simp
      then show ?thesis using 3 len assms(2) that(1) by (auto simp: nth_append)
    qed (use assms(2) in \<open>simp add: nth_append\<close>)
  qed
  then show ?thesis using len assms(2) by (simp add: unchanged_except_def)
qed

lemma check_batch_ok:
  assumes "rt_ok (pf_rt P)" "spsc_ok (pf_C P)" "approach_ok (pf_mpi P) approach"
    and "flight_ok (pf_mpi P) cap a checked n" "checked + k \<le> n" "0 < k" "cq_room P w k"
  obtains cs a' w' where "check_batch P approach a checked k w = Inr (map fst cs, a', w')"
    "check_post P checked (checked + k) cs a a' w w'"
proof -
  have ok: "ar_ok cap a n" and len: "checked + k \<le> length (ar_requests a)"
    using assms(4,5) by (auto simp: flight_ok_def ar_ok_def)
  let ?reqs = "take k (drop checked (ar_requests a))"
  have "?reqs \<noteq> []" using len assms(6) by auto
  moreover have "MPI_REQUEST_NULL (pf_mpi P) \<notin> set ?reqs"
    using assms(4,5) len by (fastforce simp: flight_ok_def in_set_conv_nth)
  ultimately obtain cs reqs' m' where
    t: "internalTestRequests (pf_mpi P) approach ?reqs (w_mpi w) = Inr (cs, reqs', m')" "reports cs ?reqs reqs'"
    by (rule internalTestRequests_reports [OF assms(3)])
  define a1 where "a1 = a\<lparr>ar_requests := take checked (ar_requests a) @ reqs' @ drop (checked + k) (ar_requests a)\<rparr>"
  define cs' where "cs' = map (\<lambda>(i, st). (checked + i, st)) cs"
  have fst: "map fst cs' = map ((+) checked) (map fst cs)" by (simp add: cs'_def case_prod_unfold comp_def)
  have len': "length reqs' = k" using reports_length [OF t(2)] len by simp
  have un: "unchanged_except (set (map fst cs')) (ar_requests a) (ar_requests a1)"
    using t(2) unchanged_except_part [OF _ len, of "set (map fst cs)" reqs'] unfolding fst set_map [of "(+) checked"]
    by (simp add: reports_def a1_def)
  have lt: "\<forall>(i, _) \<in> set cs. i < k" using t(2) len by (auto simp: reports_def)
  have ok1: "ar_ok cap a1 n" using ok len len' by (auto simp: ar_ok_def a1_def)
  let ?w = "w\<lparr>w_mpi := m', w_mem := store_all (pf_mpi P) (map (\<lambda>(i, st). (ar_tickets a ! (checked + i), st)) cs) (w_mem w)\<rparr>"
  let ?tcs = "map (\<lambda>(i, _). tk_taskContext (ar_tickets a ! (checked + i))) cs"
  have fin: "finish_batch P a1 checked cs (w\<lparr>w_mpi := m'\<rparr>) = Inr (if pf_cm P then ?tcs else [], notify P ?tcs ?w)"
    using finish_batch_ok [OF assms(1) ok1, of cs checked "w\<lparr>w_mpi := m'\<rparr>"] lt assms(4,5)
    by (fastforce simp: a1_def flight_ok_def)
  have "cq_room P ?w (length ?tcs)"
    using assms(7) reports_bound [OF t(2)] len by (auto simp: cq_room_def)
  then obtain w' where w': "transfer_contexts P (if pf_cm P then ?tcs else []) (notify P ?tcs ?w) = Inr w'"
    "delivers P ?tcs ?w w'" "w_mem w' = w_mem ?w" "w_mpi w' = w_mpi ?w"
    by (rule transfer_contexts_ok [OF assms(2)])
  have "check_batch P approach a checked k w = Inr (map fst cs', a1, w')"
    using len t(1) fin w'(1) by (simp add: check_batch_def a1_def Let_def cs'_def case_prod_unfold comp_def)
  moreover have "check_post P checked (checked + k) cs' a a1 w w'"
    unfolding check_post_def
  proof (intro conjI)
    show "sorted_wrt (<) (map fst cs')" unfolding fst using t(2) by (simp add: reports_def sorted_wrt_map)
    show "\<forall>i \<in> set (map fst cs'). checked \<le> i \<and> i < checked + k" unfolding fst using lt by auto
    show "delivers P (map (\<lambda>(i, _). tk_taskContext (ar_tickets a ! i)) cs') w w'"
      using w'(2) by (simp add: delivers_def cs'_def case_prod_unfold comp_def)
  qed (use un w'(3) in \<open>simp_all add: a1_def cs'_def case_prod_unfold comp_def\<close>)
  ultimately show thesis by (rule that)
qed

section \<open>All batches\<close>

lemma check_batches_ok:
  assumes "rt_ok (pf_rt P)" "spsc_ok (pf_C P)" "approach_ok (pf_mpi P) approach"
    and "flight_ok (pf_mpi P) cap a checked n" "checked < n" "cq_room P w (n - checked)"
  shows "\<exists>cs a' w'. check_batches P approach n a checked w = Inr (map fst cs, a', w') \<and>
    check_post P checked n cs a a' w w'"
  using assms(4-6)
proof (induction "n - checked" arbitrary: checked a w rule: less_induct)
  case less
  define k where "k = min (n - checked) BatchSize"
  have k: "0 < k" "checked + k \<le> n" using less.prems(2) by (auto simp: k_def)
  have "cq_room P w k" using less.prems(3) by (rule cq_room_le) (simp add: k_def)
  then obtain cs a1 w1 where b: "check_batch P approach a checked k w = Inr (map fst cs, a1, w1)"
    "check_post P checked (checked + k) cs a a1 w w1"
    by (rule check_batch_ok [OF assms(1-3) less.prems(1) k(2,1)])
  show ?case
  proof (cases "checked + k < n")
    case True
    have "cq_room P w1 (n - (checked + k))"
      using cq_room_delivers [OF _ less.prems(3)] b(2) check_post_count [OF b(2)] k
      by (force simp: check_post_def)
    moreover have "flight_ok (pf_mpi P) cap a1 (checked + k) n"
      using flight_ok_post [OF less.prems(1) b(2)] by simp
    ultimately obtain cs' a' w' where
      "check_batches P approach n a1 (checked + k) w1 = Inr (map fst cs', a', w')"
      "check_post P (checked + k) n cs' a1 a' w1 w'"
      using less.hyps [of "checked + k" a1 w1] True k by fastforce
    moreover have "check_post P checked n (cs @ cs') a a' w w'"
      using check_post_trans [OF b(2)] calculation(2) k by simp
    ultimately show ?thesis
      using b(1) True by (subst check_batches.simps) (auto simp: Let_def k_def [symmetric] intro!: exI)
  next
    case False
    then have "checked + k = n" using k by simp
    with b show ?thesis by (subst check_batches.simps) (auto simp: Let_def k_def [symmetric] intro!: exI)
  qed
qed

text \<open>The requests in flight after a check, and the completed ones, are those from before.\<close>

lemma ar_live_split:
  assumes "distinct idx" "\<forall>i \<in> set idx. i < n"
  shows "ar_live a n (set idx) + mset (map (ar_entry a) idx) = mset (ar_entries a n)"
proof -
  have "mset_set (set idx) + mset_set ({..<n} - set idx) = mset_set {..<n}"
    using assms(2) by (subst mset_set_Union [symmetric]) (auto intro!: arg_cong [where f = mset_set])
  then have "image_mset (ar_entry a) (mset_set ({..<n} - set idx)) + image_mset (ar_entry a) (mset_set (set idx)) =
      image_mset (ar_entry a) (mset_set {..<n})"
    by (metis add.commute image_mset_union)
  moreover have "mset_set (set idx) = mset idx" using assms(1) by (rule mset_set_set)
  ultimately show ?thesis by (simp add: ar_live_def flip: ar_live_entries)
qed

definition tm_flight :: "'q ticket_manager \<Rightarrow> (request \<times> Ticket) list" where
  "tm_flight tm = ar_entries (tm_arrays tm) (tm_pending tm)"

definition tm_ok :: "'m mpi \<Rightarrow> 'q ticket_manager \<Rightarrow> bool" where
  "tm_ok mpi tm \<longleftrightarrow> ar_ok 32768 (tm_arrays tm) (tm_pending tm) \<and>
     tm_generalTesting tm \<noteq> Approach_None \<and>
     approach_ok mpi (tm_generalTesting tm) \<and> approach_ok mpi (tm_immediateTesting tm) \<and>
     (\<forall>(r, t) \<in> set (tm_flight tm). r \<noteq> MPI_REQUEST_NULL mpi \<and> ticket_ok mpi t)"

lemma tm_ok_flight: "tm_ok mpi tm \<Longrightarrow> flight_ok mpi 32768 (tm_arrays tm) 0 (tm_pending tm)"
  by (auto simp: tm_ok_def flight_ok_def tm_flight_def ar_entries_def ar_entry_def)

lemma length_tm_flight [simp]: "length (tm_flight tm) = tm_pending tm"
  by (simp add: tm_flight_def ar_entries_def)

lemma internalCheckRequests_partition:
  assumes "rt_ok (pf_rt P)" "spsc_ok (pf_C P)" "tm_ok (pf_mpi P) tm" "0 < tm_pending tm"
    and "cq_room P w (tm_pending tm)"
  obtains dn a' w' tm' where
    "internalCheckRequests P tm w = Inr (length dn, tm', w')"
    "tm' = tm\<lparr>tm_arrays := a', tm_pending := tm_pending tm - length dn\<rparr>"
    "tm_ok (pf_mpi P) tm'" "mset (tm_flight tm') + mset (map fst dn) = mset (tm_flight tm)"
    "delivers P (map (tk_taskContext \<circ> snd \<circ> fst) dn) w w'"
    "w_mem w' = store_all (pf_mpi P) (map (\<lambda>((r, t), st). (t, st)) dn) (w_mem w)"
proof -
  let ?n = "tm_pending tm" and ?a = "tm_arrays tm"
  have ap: "approach_ok (pf_mpi P) (tm_generalTesting tm)" and fl: "flight_ok (pf_mpi P) 32768 ?a 0 ?n"
    using assms(3) by (auto simp: tm_ok_def tm_ok_flight)
  have "\<exists>cs a' w'. check_batches P (tm_generalTesting tm) ?n ?a 0 w = Inr (map fst cs, a', w') \<and>
      check_post P 0 ?n cs ?a a' w w'"
    using assms(4,5) by (intro check_batches_ok [OF assms(1,2) ap fl]) simp_all
  then obtain cs a1 w' where b: "check_batches P (tm_generalTesting tm) ?n ?a 0 w = Inr (map fst cs, a1, w')"
    and post: "check_post P 0 ?n cs ?a a1 w w'" by blast
  let ?idx = "map fst cs"
  have idx: "sorted_wrt (<) ?idx" "\<forall>x \<in> set ?idx. x < ?n" and ok1: "ar_ok 32768 a1 ?n"
    using post fl check_post_ar_ok [OF post] by (auto simp: check_post_def flight_ok_def)
  obtain a' where c: "compact ?idx ?idx (int ?n - 1) (int (length ?idx) - 1) a1 = Inr a'"
    "ar_ok 32768 a' (?n - length ?idx)" "mset (ar_entries a' (?n - length ?idx)) = ar_live a1 ?n (set ?idx)"
    by (rule compact_ok [OF ok1 idx])
  have dist: "distinct ?idx" using idx(1) by (simp add: strict_sorted_iff)
  have live: "ar_live a1 ?n (set ?idx) = ar_live ?a ?n (set ?idx)"
    using post fl unchanged_except_nth [of "set ?idx" "ar_requests ?a" "ar_requests a1"]
    by (intro ar_live_cong) (auto simp: check_post_def ar_entry_def flight_ok_def ar_ok_def)
  define dn where "dn = map (\<lambda>(i, st). (ar_entry ?a i, st)) cs"
  define tm' where "tm' = tm\<lparr>tm_arrays := a', tm_pending := ?n - length dn\<rparr>"
  have dn: "map fst dn = map (ar_entry ?a) ?idx" "length dn = length ?idx"
    by (simp_all add: dn_def case_prod_unfold comp_def)
  have part: "mset (tm_flight tm') + mset (map fst dn) = mset (tm_flight tm)"
    using c(3) live ar_live_split [OF dist idx(2), of ?a] by (simp add: tm_flight_def tm'_def dn)
  show thesis
  proof (rule that)
    show "internalCheckRequests P tm w = Inr (length dn, tm', w')"
      using assms(4) b c(1) by (simp add: internalCheckRequests_def tm'_def dn Let_def)
    show "mset (tm_flight tm') + mset (map fst dn) = mset (tm_flight tm)" by (rule part)
    have "set (tm_flight tm') \<subseteq> set (tm_flight tm)"
      using part by (metis set_mset_mset mset_subset_eq_add_left set_mset_mono)
    then show "tm_ok (pf_mpi P) tm'"
      using assms(3) c(2) by (auto simp: tm_ok_def tm'_def dn)
    show "delivers P (map (tk_taskContext \<circ> snd \<circ> fst) dn) w w'"
      using post by (simp add: check_post_def dn_def ar_entry_def case_prod_unfold comp_def)
    show "w_mem w' = store_all (pf_mpi P) (map (\<lambda>((r, t), st). (t, st)) dn) (w_mem w)"
      using post by (simp add: check_post_def dn_def ar_entry_def case_prod_unfold comp_def)
  qed (rule tm'_def)
qed

end
