(* ===== verification/Ticket_Transfer.thy ===== *)
theory Ticket_Transfer
  imports Ticket_Flight
begin

text \<open>
  Correctness of \<open>TicketManager::transferOperations\<close>: every operation is issued once, and is either
  complete afterwards, with its status stored and its task notified, or in flight in the arrays.
\<close>

section \<open>Issuing\<close>

text \<open>
  The operations that the constructor of the ticket and the issue accept: the ticket is then \<open>tk opn\<close>.
\<close>

definition issuable ::
    "('o \<Rightarrow> Ticket result) \<Rightarrow> ('o \<Rightarrow> 'm \<Rightarrow> (request \<times> 'm) result) \<Rightarrow> ('o \<Rightarrow> Ticket) \<Rightarrow> 'o \<Rightarrow> bool" where
  "issuable mk issue tk opn \<longleftrightarrow> mk opn = Inr (tk opn) \<and> (\<forall>m. \<exists>r m'. issue opn m = Inr (r, m'))"

lemma issue_loop_ok:
  assumes "\<forall>opn \<in> set ops. issuable mk issue tk opn"
  shows "\<exists>rs m'. length rs = length ops \<and>
    issue_loop null mk issue e ops m =
      Inr (map tk ops, filter (\<lambda>(r, _). r \<noteq> null) (zip rs [e..<e + length ops]),
           map snd (filter (\<lambda>(r, _). r = null) (zip rs [e..<e + length ops])), m')"
  using assms
proof (induction ops arbitrary: e m)
  case (Cons opn ops)
  obtain r m1 where i: "issue opn m = Inr (r, m1)" and mk: "mk opn = Inr (tk opn)"
    using Cons.prems by (fastforce simp: issuable_def)
  obtain rs m' where ih: "length rs = length ops"
    "issue_loop null mk issue (e + 1) ops m1 =
      Inr (map tk ops, filter (\<lambda>(r, _). r \<noteq> null) (zip rs [e + 1..<e + 1 + length ops]),
           map snd (filter (\<lambda>(r, _). r = null) (zip rs [e + 1..<e + 1 + length ops])), m')"
    using Cons.IH [of "e + 1" m1] Cons.prems by auto
  have "[e..<e + length (opn # ops)] = e # [e + 1..<e + 1 + length ops]" by (simp add: upt_conv_Cons del: upt_Suc)
  then show ?case using i mk ih by (intro exI [of _ "r # rs"] exI [of _ m']) (auto simp del: upt_Suc)
qed simp

section \<open>Immediate completions\<close>

lemma filter_completed_ok:
  assumes "distinct (map fst cs)"
    and "\<forall>(i, _) \<in> set cs. i < length r2e \<and> 0 \<le> r2e ! i \<and> nat (r2e ! i) < length tickets \<and>
      ticket_ok mpi (tickets ! nat (r2e ! i))"
  shows "\<exists>r2e'. filter_completed mpi tickets cs r2e mem =
      Inr (map (\<lambda>(i, _). nat (r2e ! i)) cs, r2e',
           store_all mpi (map (\<lambda>(i, st). (tickets ! nat (r2e ! i), st)) cs) mem) \<and>
    r2e' = map (\<lambda>i. if i \<in> set (map fst cs) then -1 else r2e ! i) [0..<length r2e]"
  using assms
proof (induction cs arbitrary: r2e mem)
  case Nil
  then show ?case by (simp add: map_nth)
next
  case (Cons c cs)
  obtain i st where c: "c = (i, st)" by fastforce
  let ?t = "tickets ! nat (r2e ! i)"
  have i: "i < length r2e" "0 \<le> r2e ! i" "nat (r2e ! i) < length tickets" "ticket_ok mpi ?t"
    using Cons.prems(2) c by auto
  have other: "j \<noteq> i" if "(j, s) \<in> set cs" for j s
    using Cons.prems(1) that c by (force simp: image_iff)
  have "\<exists>r2e'. filter_completed mpi tickets cs (r2e[i := -1]) (store_all mpi [(?t, st)] mem) =
      Inr (map (\<lambda>(j, _). nat (r2e[i := -1] ! j)) cs, r2e',
           store_all mpi (map (\<lambda>(j, st). (tickets ! nat (r2e[i := -1] ! j), st)) cs) (store_all mpi [(?t, st)] mem)) \<and>
    r2e' = map (\<lambda>j. if j \<in> set (map fst cs) then -1 else r2e[i := -1] ! j) [0..<length (r2e[i := -1])]"
    using Cons.prems other c by (intro Cons.IH) fastforce+
  moreover have "map (\<lambda>(j, _). nat (r2e[i := -1] ! j)) cs = map (\<lambda>(j, _). nat (r2e ! j)) cs"
    "map (\<lambda>(j, st). (tickets ! nat (r2e[i := -1] ! j), st)) cs = map (\<lambda>(j, st). (tickets ! nat (r2e ! j), st)) cs"
    using other by (fastforce intro!: map_cong)+
  ultimately have "filter_completed mpi tickets cs (r2e[i := -1]) (store_all mpi [(?t, st)] mem) =
      Inr (map (\<lambda>(j, _). nat (r2e ! j)) cs,
           map (\<lambda>j. if j \<in> set (map fst cs) then -1 else r2e[i := -1] ! j) [0..<length r2e],
           store_all mpi (map (\<lambda>(j, st). (tickets ! nat (r2e ! j), st)) cs) (store_all mpi [(?t, st)] mem))"
    by simp
  moreover have "map (\<lambda>j. if j \<in> set (map fst cs) then -1 else r2e[i := -1] ! j) [0..<length r2e] =
      map (\<lambda>j. if j \<in> set (map fst (c # cs)) then -1 else r2e ! j) [0..<length r2e]"
    using c i(1) by (auto simp: nth_list_update)
  ultimately show ?case using i store_ticket_ok [OF i(4)] by (simp add: c)
qed

lemma complete_entries_ok:
  assumes "rt_ok (pf_rt P)" "\<forall>e \<in> set es. e < length tickets"
  shows "complete_entries P tickets es w =
    Inr (if pf_cm P then map (\<lambda>e. tk_taskContext (tickets ! e)) es else [],
         notify P (map (\<lambda>e. tk_taskContext (tickets ! e)) es) w)"
  using assms(2)
  by (induction es arbitrary: w)
    (auto simp: notify_def ticket_complete_def completeEvents_ok [OF assms(1)])

lemma move_pending_ok:
  assumes "ar_ok cap a n" "length reqs = length es"
    and "\<forall>e \<in> set es. e < int (length tickets)" "n + length (filter (\<lambda>e. 0 \<le> e) es) \<le> cap"
  shows "\<exists>a' n'. move_pending tickets reqs es n a = Inr (n', a') \<and> ar_ok cap a' n' \<and>
    n' = n + length (filter (\<lambda>e. 0 \<le> e) es) \<and>
    ar_entries a' n' = ar_entries a n @
      map (\<lambda>(r, e). (r, tickets ! nat e)) (filter (\<lambda>(_, e). 0 \<le> e) (zip reqs es))"
  using assms(2,1,3,4)
proof (induction reqs es arbitrary: n a rule: list_induct2)
  case (Cons r reqs e es)
  show ?case
  proof (cases "e < 0")
    case True
    with Cons.prems Cons.IH [of a n] show ?thesis by simp
  next
    case False
    then have "n < cap" "nat e < length tickets" using Cons.prems by auto
    then obtain a1 where a1: "rbind (allocateTicket a n (tickets ! nat e)) (\<lambda>a. associateRequest a n r n 0) = Inr a1"
      "ar_ok cap a1 (n + 1)" "ar_entries a1 (n + 1) = ar_entries a n @ [(r, tickets ! nat e)]"
      using add_entry_ok [OF Cons.prems(1)] by blast
    then obtain a0 where a0: "allocateTicket a n (tickets ! nat e) = Inr a0" "associateRequest a0 n r n 0 = Inr a1"
      by (cases "allocateTicket a n (tickets ! nat e)") auto
    obtain a' where "move_pending tickets reqs es (n + 1) a1 = Inr (n + 1 + length (filter (\<lambda>e. 0 \<le> e) es), a')"
      "ar_ok cap a' (n + 1 + length (filter (\<lambda>e. 0 \<le> e) es))"
      "ar_entries a' (n + 1 + length (filter (\<lambda>e. 0 \<le> e) es)) = ar_entries a1 (n + 1) @
        map (\<lambda>(r, e). (r, tickets ! nat e)) (filter (\<lambda>(_, e). 0 \<le> e) (zip reqs es))"
      using Cons.IH [of a1 "n + 1"] a1(2) Cons.prems False by auto
    then show ?thesis using False a0 a1(3) \<open>nat e < length tickets\<close> by simp
  qed
qed simp

section \<open>The partition of the operations\<close>

lemma mset_split_index:
  assumes "distinct idx" "\<forall>i \<in> set idx. i < n"
  shows "mset (map f idx) + mset (map f (filter (\<lambda>i. i \<notin> set idx) [0..<n])) = mset (map f [0..<n])"
proof -
  have "mset (filter (\<lambda>i. i \<in> set idx) [0..<n]) = mset idx"
    using assms by (intro set_eq_iff_mset_eq_distinct [THEN iffD1]) auto
  then have "mset idx + mset (filter (\<lambda>i. i \<notin> set idx) [0..<n]) = mset [0..<n]"
    using multiset_partition [of "mset [0..<n]" "\<lambda>i. i \<in> set idx"] by (simp only: mset_filter)
  from arg_cong [OF this, of "image_mset f"] show ?thesis by (simp only: image_mset_union mset_map)
qed

lemma filter_map_upt:
  "filter (\<lambda>(_, e). 0 \<le> e) (zip rs (map (\<lambda>i. if i \<in> I then - 1 else int (f i)) [0..<length rs])) =
     map (\<lambda>i. (rs ! i, int (f i))) (filter (\<lambda>i. i \<notin> I) [0..<length rs])"
proof -
  have "zip rs (map (\<lambda>i. if i \<in> I then - 1 else int (f i)) [0..<length rs]) =
      map (\<lambda>i. (rs ! i, if i \<in> I then - 1 else int (f i))) [0..<length rs]"
    by (rule nth_equalityI) auto
  then show ?thesis by (auto simp: filter_map comp_def intro!: map_cong filter_cong)
qed

lemma partition_zip:
  assumes "length rs = n"
  shows "mset (map snd (filter (\<lambda>(r, _). r = null) (zip rs [0..<n]))) +
    mset (map snd (filter (\<lambda>(r, _). r \<noteq> null) (zip rs [0..<n]))) = mset [0..<n]"
proof -
  have "mset (filter (\<lambda>(r, _). r = null) (zip rs [0..<n])) + mset (filter (\<lambda>(r, _). r \<noteq> null) (zip rs [0..<n])) =
      mset (zip rs [0..<n])"
    using multiset_partition [of "mset (zip rs [0..<n])" "\<lambda>(r, _). r = null"] by (simp add: case_prod_unfold)
  from arg_cong [OF this, of "image_mset snd"] have
    "mset (map snd (filter (\<lambda>(r, _). r = null) (zip rs [0..<n]))) +
      mset (map snd (filter (\<lambda>(r, _). r \<noteq> null) (zip rs [0..<n]))) = mset (map snd (zip rs [0..<n]))"
    by (simp only: image_mset_union mset_map)
  with assms show ?thesis by simp
qed

section \<open>One transfer\<close>

lemma transfer_issue:
  assumes "approach_ok (pf_mpi P) approach" "\<forall>opn \<in> set ops. issuable mk issue tk opn"
  obtains compl issued cs requests m1 m2 where
    "issue_loop (MPI_REQUEST_NULL (pf_mpi P)) mk issue 0 ops m = Inr (map tk ops, issued, compl, m1)"
    "(if issued \<noteq> [] then internalTestRequests (pf_mpi P) approach (map fst issued) m1
      else Inr ([], map fst issued, m1)) = Inr (cs, requests, m2)"
    "reports cs (map fst issued) requests" "MPI_REQUEST_NULL (pf_mpi P) \<notin> set (map fst issued)"
    "mset compl + mset (map snd issued) = mset [0..<length ops]"
proof -
  let ?null = "MPI_REQUEST_NULL (pf_mpi P)" and ?N = "length ops"
  obtain rs m1 where rs: "length rs = ?N"
    "issue_loop ?null mk issue 0 ops m =
      Inr (map tk ops, filter (\<lambda>(r, _). r \<noteq> ?null) (zip rs [0..<?N]),
           map snd (filter (\<lambda>(r, _). r = ?null) (zip rs [0..<?N])), m1)"
    using issue_loop_ok [of ops mk issue tk ?null 0 m] assms(2) by auto
  define issued where "issued = filter (\<lambda>(r, _). r \<noteq> ?null) (zip rs [0..<?N])"
  have null: "?null \<notin> set (map fst issued)" by (auto simp: issued_def)
  obtain cs requests m2 where "(if issued \<noteq> []
      then internalTestRequests (pf_mpi P) approach (map fst issued) m1
      else Inr ([], map fst issued, m1)) = Inr (cs, requests, m2)" "reports cs (map fst issued) requests"
  proof (cases "issued = []")
    case True
    then show thesis using that [of "[]" "[]" m1] by (simp add: reports_def)
  next
    case False
    then show thesis
      using internalTestRequests_reports [of "pf_mpi P" approach "map fst issued"] assms(1) null that
      by (metis list.map_disc_iff)
  qed
  with rs(2) null partition_zip [OF rs(1), of ?null] show thesis
    unfolding issued_def by (intro that)
qed

lemma filter_completed_issued:
  assumes "reports cs (map fst issued) requests"
    and "\<And>i. i < length issued \<Longrightarrow> snd (issued ! i) < length tickets \<and> ticket_ok mpi (tickets ! snd (issued ! i))"
  shows "filter_completed mpi tickets cs (map (int \<circ> snd) issued) mem =
      Inr (map (\<lambda>i. snd (issued ! i)) (map fst cs),
           map (\<lambda>i. if i \<in> set (map fst cs) then - 1 else int (snd (issued ! i))) [0..<length requests],
           store_all mpi (map (\<lambda>(i, st). (tickets ! snd (issued ! i), st)) cs) mem)"
proof -
  have idx: "distinct (map fst cs)" "\<forall>(i, _) \<in> set cs. i < length issued"
    and len: "length requests = length issued"
    using assms(1) by (auto simp: reports_def strict_sorted_iff unchanged_except_def)
  have 1: "map (\<lambda>(i, _). nat (map (int \<circ> snd) issued ! i)) cs = map (\<lambda>i. snd (issued ! i)) (map fst cs)"
    "map (\<lambda>(i, st). (tickets ! nat (map (int \<circ> snd) issued ! i), st)) cs =
      map (\<lambda>(i, st). (tickets ! snd (issued ! i), st)) cs"
    using idx(2) by auto
  have 2: "map (\<lambda>i. if i \<in> set (map fst cs) then - 1 else map (int \<circ> snd) issued ! i)
      [0..<length (map (int \<circ> snd) issued)] =
      map (\<lambda>i. if i \<in> set (map fst cs) then - 1 else int (snd (issued ! i))) [0..<length requests]"
    using len by auto
  have "\<forall>(i, _) \<in> set cs. i < length (map (int \<circ> snd) issued) \<and> 0 \<le> map (int \<circ> snd) issued ! i \<and>
      nat (map (int \<circ> snd) issued ! i) < length tickets \<and>
      ticket_ok mpi (tickets ! nat (map (int \<circ> snd) issued ! i))"
    using idx(2) assms(2) by auto
  from filter_completed_ok [OF idx(1) this, of mem] show ?thesis unfolding 1 2 by blast
qed

text \<open>
  Of the operations that were issued with a request, those that the test does not report are kept: the ticket of each, by its index
  among the issued requests, and the indices that are kept.
\<close>

definition issued_ticket :: "Ticket list \<Rightarrow> (request \<times> nat) list \<Rightarrow> nat \<Rightarrow> Ticket" where
  "issued_ticket tickets issued i = tickets ! snd (issued ! i)"

definition kept :: "(nat \<times> 'b) list \<Rightarrow> nat \<Rightarrow> nat list" where
  "kept cs n = filter (\<lambda>i. i \<notin> set (map fst cs)) [0..<n]"

lemma tickets_partition:
  assumes "mset compl + mset (map snd issued) = mset [0..<length tickets]"
    and "distinct (map fst cs)" "\<forall>i \<in> set (map fst cs). i < length issued"
  shows "mset (map ((!) tickets) compl) + mset (map (issued_ticket tickets issued) (map fst cs)) +
    mset (map (issued_ticket tickets issued) (kept cs (length issued))) = mset tickets"
proof -
  have "mset (map ((!) tickets) compl) + mset (map ((!) tickets) (map snd issued)) = mset (map ((!) tickets) [0..<length tickets])"
    using arg_cong [OF assms(1), of "image_mset ((!) tickets)"] by (simp only: image_mset_union mset_map)
  moreover have "mset (map (issued_ticket tickets issued) (map fst cs)) +
      mset (map (issued_ticket tickets issued) (kept cs (length issued))) = mset (map (issued_ticket tickets issued) [0..<length issued])"
    using mset_split_index [OF assms(2,3), of "issued_ticket tickets issued"] by (simp add: kept_def)
  moreover have "map (issued_ticket tickets issued) [0..<length issued] = map ((!) tickets) (map snd issued)"
    by (rule nth_equalityI) (simp_all add: issued_ticket_def)
  ultimately show ?thesis by (simp only: add.assoc map_nth)
qed

lemma kept_requests:
  assumes "reports cs (map fst issued) requests" "r0 \<notin> set (map fst issued)" "i \<in> set (kept cs (length issued))"
  shows "requests ! i \<noteq> r0" "i < length issued"
proof -
  show i: "i < length issued" using assms(3) by (simp add: kept_def)
  have "requests ! i = map fst issued ! i"
    using assms(1,3) by (intro unchanged_except_nth) (auto simp: reports_def kept_def)
  moreover have "map fst issued ! i \<in> set (map fst issued)" using i by (intro nth_mem) simp
  ultimately show "requests ! i \<noteq> r0" using assms(2) by metis
qed

lemma move_kept:
  assumes "ar_ok cap a pending" "length requests = length issued" "\<And>i. i < length issued \<Longrightarrow> snd (issued ! i) < length tickets"
    and "pending + length (kept cs (length issued)) \<le> cap"
  obtains a' where "move_pending tickets requests
      (map (\<lambda>i. if i \<in> set (map fst cs) then - 1 else int (snd (issued ! i))) [0..<length requests]) pending a =
      Inr (pending + length (kept cs (length issued)), a')" "ar_ok cap a' (pending + length (kept cs (length issued)))"
    "ar_entries a' (pending + length (kept cs (length issued))) =
      ar_entries a pending @ map (\<lambda>i. (requests ! i, issued_ticket tickets issued i)) (kept cs (length issued))"
proof -
  let ?r2e = "map (\<lambda>i. if i \<in> set (map fst cs) then - 1 else int (snd (issued ! i))) [0..<length requests]"
  have r2e: "\<forall>e \<in> set ?r2e. e < int (length tickets)" "length requests = length ?r2e" using assms(2,3) by auto
  have n: "length (filter (\<lambda>e. 0 \<le> e) ?r2e) = length (kept cs (length issued))"
    using assms(2) by (auto simp: kept_def filter_map comp_def intro!: arg_cong [where f = length] filter_cong)
  have "map (\<lambda>(r, e). (r, tickets ! nat e)) (filter (\<lambda>(_, e). 0 \<le> e) (zip requests ?r2e)) =
      map (\<lambda>i. (requests ! i, issued_ticket tickets issued i)) (kept cs (length issued))"
    unfolding filter_map_upt using assms(2) by (simp add: kept_def issued_ticket_def comp_def)
  then show thesis using move_pending_ok [OF assms(1) r2e(2,1)] assms(4) that unfolding n by auto
qed

lemma transfer_core_partition:
  assumes "rt_ok (pf_rt P)" "spsc_ok (pf_C P)" "tm_ok (pf_mpi P) tm" "cq_room P w (length ops)"
    and "length ops \<le> BatchSize" "int (tm_pending tm) + int (length ops) \<le> cc_get (tm_capacityCtrl tm)"
    and "cc_get (tm_capacityCtrl tm) \<le> 32768"
    and "\<forall>opn \<in> set ops. issuable mk issue tk opn \<and> ticket_ok (pf_mpi P) (tk opn)"
  obtains new nulls dn tm' w' a' where "transfer_core P mk issue ops tm w = Inr (tm', w')"
    "tm' = tm\<lparr>tm_pending := tm_pending tm + length new, tm_arrays := a'\<rparr>" "tm_ok (pf_mpi P) tm'"
    "tm_flight tm' = tm_flight tm @ new"
    "mset nulls + mset (map fst dn) + mset (map snd new) = mset (map tk ops)"
    "delivers P (map tk_taskContext (nulls @ map fst dn)) w w'"
    "w_mem w' = store_all (pf_mpi P) dn (w_mem w)"
proof -
  let ?tickets = "map tk ops" and ?mpi = "pf_mpi P"
  have ap: "approach_ok ?mpi (tm_immediateTesting tm)" and ok: "ar_ok 32768 (tm_arrays tm) (tm_pending tm)"
    using assms(3) by (auto simp: tm_ok_def)
  have ops: "\<forall>opn \<in> set ops. issuable mk issue tk opn" using assms(8) by blast
  obtain compl issued cs requests m1 m2 where
    iss: "issue_loop (MPI_REQUEST_NULL ?mpi) mk issue 0 ops (w_mpi w) = Inr (?tickets, issued, compl, m1)"
    and test: "(if issued \<noteq> [] then internalTestRequests ?mpi (tm_immediateTesting tm) (map fst issued) m1
      else Inr ([], map fst issued, m1)) = Inr (cs, requests, m2)"
    and rep: "reports cs (map fst issued) requests" and null: "MPI_REQUEST_NULL ?mpi \<notin> set (map fst issued)"
    and part: "mset compl + mset (map snd issued) = mset [0..<length ops]"
    by (rule transfer_issue [OF ap ops])
  have lt: "\<forall>e \<in> set compl. e < length ops" "\<And>i. i < length issued \<Longrightarrow> snd (issued ! i) < length ops"
    using arg_cong [OF part, of set_mset] nth_mem by fastforce+
  have idx: "distinct (map fst cs)" "\<forall>i \<in> set (map fst cs). i < length issued"
    using rep by (auto simp: reports_def strict_sorted_iff)
  have len: "length requests = length issued" using reports_length [OF rep] by simp
  let ?T = "issued_ticket ?tickets issued" and ?J = "kept cs (length issued)"
  define dn where "dn = map (\<lambda>(i, st). (?T i, st)) cs"
  define new where "new = map (\<lambda>i. (requests ! i, ?T i)) ?J"
  let ?tcs = "map tk_taskContext (map ((!) ?tickets) compl @ map fst dn)"
  let ?w = "w\<lparr>w_mpi := m2, w_mem := store_all ?mpi dn (w_mem w)\<rparr>"
  have dn: "map fst dn = map ?T (map fst cs)" by (simp add: dn_def case_prod_unfold comp_def)
  have filt: "filter_completed ?mpi ?tickets cs (map (int \<circ> snd) issued) (w_mem w) =
      Inr (map (\<lambda>i. snd (issued ! i)) (map fst cs),
        map (\<lambda>i. if i \<in> set (map fst cs) then - 1 else int (snd (issued ! i))) [0..<length requests], store_all ?mpi dn (w_mem w))"
    unfolding dn_def issued_ticket_def by (rule filter_completed_issued [OF rep]) (use lt(2) assms(8) in simp)
  have all: "\<forall>e \<in> set (compl @ map (\<lambda>i. snd (issued ! i)) (map fst cs)). e < length ?tickets" using lt idx(2) by auto
  have fin: "complete_entries P ?tickets (compl @ map (\<lambda>i. snd (issued ! i)) (map fst cs)) ?w =
      Inr (if pf_cm P then ?tcs else [], notify P ?tcs ?w)"
    using complete_entries_ok [OF assms(1) all, of ?w] by (simp add: dn issued_ticket_def comp_def cong: if_cong)
  have n: "length compl + length issued = length ops" using arg_cong [OF part, of size] by simp
  then have "cq_room P ?w (length ?tcs)" using assms(4) reports_bound [OF rep] by (auto simp: cq_room_def dn_def)
  then obtain w' where w': "transfer_contexts P (if pf_cm P then ?tcs else []) (notify P ?tcs ?w) = Inr w'"
    "delivers P ?tcs ?w w'" "w_mem w' = w_mem ?w"
    by (rule transfer_contexts_ok [OF assms(2)])
  have "length ?J \<le> length issued" unfolding kept_def using length_filter_le [of _ "[0..<length issued]"] by simp
  then have room: "tm_pending tm + length ?J \<le> 32768" using assms(6,7) n by simp
  obtain a' where mv: "move_pending ?tickets requests
      (map (\<lambda>i. if i \<in> set (map fst cs) then - 1 else int (snd (issued ! i))) [0..<length requests]) (tm_pending tm) (tm_arrays tm) =
      Inr (tm_pending tm + length ?J, a')" "ar_ok 32768 a' (tm_pending tm + length ?J)"
    "ar_entries a' (tm_pending tm + length ?J) = ar_entries (tm_arrays tm) (tm_pending tm) @ new"
    unfolding new_def by (rule move_kept [OF ok len _ room, of ?tickets]) (use lt(2) in simp_all)
  let ?tm = "tm\<lparr>tm_pending := tm_pending tm + length new, tm_arrays := a'\<rparr>"
  have flight: "tm_flight ?tm = tm_flight tm @ new" using mv(3) by (simp add: tm_flight_def new_def)
  have new: "\<forall>(r, t) \<in> set new. r \<noteq> MPI_REQUEST_NULL ?mpi \<and> ticket_ok ?mpi t"
    using kept_requests [OF rep null] lt(2) assms(8) by (auto simp: new_def issued_ticket_def)
  show thesis
  proof (rule that)
    show "transfer_core P mk issue ops tm w = Inr (?tm, w')"
      using assms(5,6) iss test filt fin w'(1) mv(1) by (simp add: transfer_core_def new_def)
    show "tm_ok ?mpi ?tm" using assms(3) mv(2) flight new by (auto simp: tm_ok_def new_def)
    show "mset (map ((!) ?tickets) compl) + mset (map fst dn) + mset (map snd new) = mset ?tickets"
      using tickets_partition [of compl issued ?tickets cs] part idx by (simp add: dn new_def comp_def)
    show "delivers P ?tcs w w'" using w'(2) by (simp add: delivers_def)
  qed (use w'(3) flight in simp_all)
qed

end
