(* ===== verification/Check_Requests.thy ===== *)
theory Check_Requests
  imports Ticket_Transfer
begin

text \<open>
  Correctness of \<open>TicketManager::checkRequests\<close>, the body of the polling task: it returns; every
  operation is conserved, from the pre-queues to the arrays to the notification of its task; and
  it stops only when nothing completes and either the pre-queues are empty or the arrays are full.
\<close>

section \<open>Invariant of the system\<close>

definition op_ticket :: "Operation \<Rightarrow> Ticket" where
  "op_ticket opn = \<lparr>tk_taskContext = op_context opn, tk_firstStatus = op_status opn\<rparr>"

definition coll_ticket :: "'m mpi \<Rightarrow> CollOperation \<Rightarrow> Ticket" where
  "coll_ticket mpi opn = \<lparr>tk_taskContext = coll_context opn, tk_firstStatus = MPI_STATUS_IGNORE mpi\<rparr>"

text \<open>What \<open>OperationManager::process\<close> queues: operations of a task, with a code of their kind and a status.\<close>

definition op_ok :: "'m mpi \<Rightarrow> Operation \<Rightarrow> bool" where
  "op_ok mpi opn \<longleftrightarrow> op_task opn \<noteq> 0 \<and> \<not> isl (op_call opn) \<and>
     (op_status opn = MPI_STATUS_IGNORE mpi \<or> op_status opn \<noteq> 0)"

definition coll_ok :: "CollOperation \<Rightarrow> bool" where
  "coll_ok opn \<longleftrightarrow> co_task opn \<noteq> 0 \<and> \<not> isl (coll_call opn)"

text \<open>
  The non-blocking calls of MPI return no error; the default error handler of MPI aborts, and the
  library fails otherwise.
\<close>

definition mpi_issue_ok :: "'m mpi \<Rightarrow> bool" where
  "mpi_issue_ok mpi \<longleftrightarrow> (\<forall>c m. fst (fst (MPI_I mpi c m)) = 0)"

definition plat_ok :: "('m, 'q, 'c) platform \<Rightarrow> bool" where
  "plat_ok P \<longleftrightarrow> rt_ok (pf_rt P) \<and> spsc_ok (pf_B P) \<and> spsc_ok (pf_C P) \<and> mpi_issue_ok (pf_mpi P)"

text \<open>The pointers \<open>ptrs\<close> are objects of the allocator that are in use.\<close>

definition alloc_ok :: "('q, nat) spsc \<Rightarrow> 'q objalloc option \<Rightarrow> nat multiset \<Rightarrow> bool" where
  "alloc_ok B A ptrs \<longleftrightarrow> (\<exists>A' live. A = Some A' \<and> oa_inv B A' live \<and> ptrs \<subseteq># mset live)"

abbreviation sy_p2p :: "('m, 'q, 'c) sys \<Rightarrow> nat multiset" where
  "sy_p2p s \<equiv> mq_elems (tm_p2pOperations (sy_tm s))"

abbreviation sy_coll :: "('m, 'q, 'c) platform \<Rightarrow> ('m, 'q, 'c) sys \<Rightarrow> nat multiset" where
  "sy_coll P s \<equiv> bq_elems (pf_B P) (tm_collOperations (sy_tm s))"

definition sys_ok :: "('m, 'q, 'c) platform \<Rightarrow> ('m, 'q, 'c) sys \<Rightarrow> bool" where
  "sys_ok P s \<longleftrightarrow>
     tm_ok (pf_mpi P) (sy_tm s) \<and> cc_ok (tm_capacityCtrl (sy_tm s)) \<and>
     int (tm_pending (sy_tm s)) \<le> cc_get (tm_capacityCtrl (sy_tm s)) \<and>
     mq_ok (tm_p2pOperations (sy_tm s)) \<and>
     (\<forall>p \<in># sy_p2p s. op_ok (pf_mpi P) (sy_ops s p)) \<and>
     (\<forall>p \<in># sy_coll P s. coll_ok (sy_colls s p)) \<and>
     alloc_ok (pf_B P) (al_operation (sy_alloc s)) (sy_p2p s) \<and>
     alloc_ok (pf_B P) (al_coll (sy_alloc s)) (sy_coll P s)"

text \<open>The task contexts of the operations that are queued and of those in flight.\<close>

definition sys_queued :: "('m, 'q, 'c) platform \<Rightarrow> ('m, 'q, 'c) sys \<Rightarrow> TaskContext multiset" where
  "sys_queued P s =
     image_mset (\<lambda>p. op_context (sy_ops s p)) (sy_p2p s) + image_mset (\<lambda>p. coll_context (sy_colls s p)) (sy_coll P s)"

definition sys_flight :: "('m, 'q, 'c) sys \<Rightarrow> TaskContext multiset" where
  "sys_flight s = image_mset (tk_taskContext \<circ> snd) (mset (tm_flight (sy_tm s)))"

text \<open>
  Tasks hold objects that they allocated and did not push yet. \<open>keeps_held P s s'\<close>: from \<open>s\<close> to \<open>s'\<close> no object was written, and
  what was in use besides the queued operations still is.
\<close>

definition keeps_held :: "('m, 'q, 'c) platform \<Rightarrow> ('m, 'q, 'c) sys \<Rightarrow> ('m, 'q, 'c) sys \<Rightarrow> bool" where
  "keeps_held P s s' \<longleftrightarrow> sy_ops s' = sy_ops s \<and> sy_colls s' = sy_colls s \<and>
     (\<forall>held. alloc_ok (pf_B P) (al_operation (sy_alloc s)) (sy_p2p s + held) \<longrightarrow>
        alloc_ok (pf_B P) (al_operation (sy_alloc s')) (sy_p2p s' + held)) \<and>
     (\<forall>held. alloc_ok (pf_B P) (al_coll (sy_alloc s)) (sy_coll P s + held) \<longrightarrow>
        alloc_ok (pf_B P) (al_coll (sy_alloc s')) (sy_coll P s' + held))"

lemma keeps_held_refl [simp]: "keeps_held P s s"
  by (simp add: keeps_held_def)

lemma keeps_held_trans: "keeps_held P s s1 \<Longrightarrow> keeps_held P s1 s2 \<Longrightarrow> keeps_held P s s2"
  by (simp add: keeps_held_def)

text \<open>
  \<open>serves P tcs s s'\<close>: from \<open>s\<close> to \<open>s'\<close> exactly the operations of the contexts \<open>tcs\<close> were completed and
  notified; all others are still queued or in flight.
\<close>

definition serves ::
    "('m, 'q, 'c) platform \<Rightarrow> TaskContext list \<Rightarrow> ('m, 'q, 'c) sys \<Rightarrow> ('m, 'q, 'c) sys \<Rightarrow> bool" where
  "serves P tcs s s' \<longleftrightarrow> sys_ok P s' \<and> delivers P tcs (sy_world s) (sy_world s') \<and>
     mset tcs + (sys_queued P s' + sys_flight s') = sys_queued P s + sys_flight s \<and>
     tm_capacityCtrl (sy_tm s') = tm_capacityCtrl (sy_tm s) \<and> keeps_held P s s'"

definition sys_room :: "('m, 'q, 'c) platform \<Rightarrow> ('m, 'q, 'c) sys \<Rightarrow> bool" where
  "sys_room P s \<longleftrightarrow> cq_room P (sy_world s) (size (sys_queued P s + sys_flight s))"

lemma size_sys_queued: "size (sys_queued P s) = size (sy_p2p s) + size (sy_coll P s)"
  by (simp add: sys_queued_def)

lemma size_sys_flight [simp]: "size (sys_flight s) = tm_pending (sy_tm s)"
  by (simp add: sys_flight_def)

lemma serves_refl: "sys_ok P s \<Longrightarrow> serves P [] s s"
  by (simp add: serves_def)

lemma serves_trans: "serves P xs s s1 \<Longrightarrow> serves P ys s1 s2 \<Longrightarrow> serves P (xs @ ys) s s2"
  using delivers_trans keeps_held_trans by (auto simp: serves_def add.assoc)

lemma serves_size:
  "serves P tcs s s' \<Longrightarrow> length tcs + size (sys_queued P s' + sys_flight s') = size (sys_queued P s + sys_flight s)"
  unfolding serves_def by (metis size_mset size_union)

lemma serves_room: "serves P tcs s s' \<Longrightarrow> sys_room P s \<Longrightarrow> sys_room P s'"
  using serves_size [of P tcs s s'] cq_room_delivers [of P tcs "sy_world s" "sy_world s'"]
  by (simp add: sys_room_def serves_def)

lemma serves_ok: "serves P tcs s s' \<Longrightarrow> sys_ok P s'"
  by (simp add: serves_def)

section \<open>Transferring a batch\<close>

lemma oa_inv_mset: "mset live = mset live' \<Longrightarrow> oa_inv B A live = oa_inv B A live'"
  by (simp add: oa_inv_def oa_all_def)

lemma alloc_ok_free:
  assumes "spsc_ok B" "alloc_ok B (Some A) (mset ptrs + rest)"
  shows "\<exists>A'. objalloc_free B A ptrs = Inr A' \<and> alloc_ok B (Some A') rest"
proof -
  obtain live where live: "oa_inv B A live" "mset ptrs + rest \<subseteq># mset live"
    using assms(2) by (auto simp: alloc_ok_def)
  obtain l' where l': "mset l' = mset live - mset ptrs" by (metis ex_mset)
  have l: "mset (ptrs @ l') = mset live"
    using l' subset_mset.add_diff_inverse [OF subset_mset.order_trans [OF mset_subset_eq_add_left live(2)]] by simp
  then have "oa_inv B A (ptrs @ l')" using live(1) oa_inv_mset by blast
  then obtain A' where "objalloc_free B A ptrs = Inr A'" "oa_inv B A' l'"
    using objalloc_free_inv [OF assms(1)] by blast
  moreover have "rest \<subseteq># mset l'" using live(2) unfolding l [symmetric] by simp
  ultimately show ?thesis by (auto simp: alloc_ok_def)
qed

lemma transferOperations_partition:
  assumes "plat_ok P" "tm_ok (pf_mpi P) tm" "cq_room P w (length ptrs)" "length ptrs \<le> BatchSize"
    and "int (tm_pending tm) + int (length ptrs) \<le> cc_get (tm_capacityCtrl tm)"
    and "cc_get (tm_capacityCtrl tm) \<le> 32768"
    and "\<forall>p \<in> set ptrs. issuable mk issue tk (heap p) \<and> ticket_ok (pf_mpi P) (tk (heap p))"
    and "alloc_ok (pf_B P) A (mset ptrs + rest)"
  obtains new tcs A' a' w' tm' where
    "transferOperations P mk issue heap ptrs A tm w = Inr (A', tm', w')"
    "tm' = tm\<lparr>tm_pending := tm_pending tm + length new, tm_arrays := a'\<rparr>" "tm_ok (pf_mpi P) tm'"
    "tm_flight tm' = tm_flight tm @ new" "delivers P tcs w w'"
    "\<And>held. alloc_ok (pf_B P) A (mset ptrs + held) \<Longrightarrow> alloc_ok (pf_B P) A' held"
    "mset tcs + mset (map (tk_taskContext \<circ> snd) new) = mset (map (tk_taskContext \<circ> tk \<circ> heap) ptrs)"
proof -
  have P: "rt_ok (pf_rt P)" "spsc_ok (pf_C P)" "spsc_ok (pf_B P)" using assms(1) by (auto simp: plat_ok_def)
  obtain A0 where A0: "A = Some A0" using assms(8) by (auto simp: alloc_ok_def)
  obtain A1 where A1: "objalloc_free (pf_B P) A0 ptrs = Inr A1"
    using alloc_ok_free [OF P(3), of A0 ptrs rest] assms(8) A0 by blast
  then have held: "alloc_ok (pf_B P) (Some A1) held" if "alloc_ok (pf_B P) A (mset ptrs + held)" for held
    using alloc_ok_free [OF P(3), of A0 ptrs held] that A0 by auto
  have ops: "\<forall>opn \<in> set (map heap ptrs). issuable mk issue tk opn \<and> ticket_ok (pf_mpi P) (tk opn)"
    "cq_room P w (length (map heap ptrs))" "length (map heap ptrs) \<le> BatchSize"
    "int (tm_pending tm) + int (length (map heap ptrs)) \<le> cc_get (tm_capacityCtrl tm)"
    using assms(3-5,7) by simp_all
  obtain new nulls dn tm' w' a' where t: "transfer_core P mk issue (map heap ptrs) tm w = Inr (tm', w')"
    "tm' = tm\<lparr>tm_pending := tm_pending tm + length new, tm_arrays := a'\<rparr>" "tm_ok (pf_mpi P) tm'"
    "tm_flight tm' = tm_flight tm @ new"
    "mset nulls + mset (map fst dn) + mset (map snd new) = mset (map tk (map heap ptrs))"
    "delivers P (map tk_taskContext (nulls @ map fst dn)) w w'"
    "w_mem w' = store_all (pf_mpi P) dn (w_mem w)"
    by (rule transfer_core_partition [OF P(1,2) assms(2) ops(2-4) assms(6) ops(1)])
  have "mset (map tk_taskContext (nulls @ map fst dn)) + mset (map (tk_taskContext \<circ> snd) new) =
      mset (map (tk_taskContext \<circ> tk \<circ> heap) ptrs)"
    using arg_cong [OF t(5), of "image_mset tk_taskContext"] by (simp add: multiset.map_comp comp_def)
  then show thesis using that [OF _ t(2-4,6) held] t(1) A0 A1 by (simp add: transferOperations_def)
qed

lemma issue_returns:
  assumes "mpi_issue_ok mpi" "\<not> isl c"
  shows "\<exists>r m'. rbind c (\<lambda>c. let ((err, req), m') = MPI_I mpi c m in
    if err \<noteq> MPI_SUCCESS then fail why else Inr (req, m')) = Inr (r, m')"
proof -
  obtain c' where c': "c = Inr c'" using assms(2) by (cases c) auto
  obtain err req m' where i: "MPI_I mpi c' m = ((err, req), m')" by (metis surj_pair)
  have "err = 0" using assms(1) [unfolded mpi_issue_ok_def, THEN spec [of _ c'], THEN spec [of _ m]] i by simp
  with c' i show ?thesis by simp
qed

lemma issuable_op:
  assumes "mpi_issue_ok mpi" "op_ok mpi opn"
  shows "issuable Ticket_of_op (Operation_issue mpi) op_ticket opn \<and> ticket_ok mpi (op_ticket opn)"
  using assms issue_returns [OF assms(1)]
  by (auto simp: issuable_def Ticket_of_op_def TaskContext_of_def op_ticket_def op_context_def op_ok_def
      Operation_issue_def ticket_ok_def ignoreStatus_def)

lemma issuable_coll:
  assumes "mpi_issue_ok mpi" "coll_ok opn"
  shows "issuable (Ticket_of_coll mpi) (CollOperation_issue mpi) (coll_ticket mpi) opn \<and>
    ticket_ok mpi (coll_ticket mpi opn)"
  using assms issue_returns [OF assms(1)]
  by (auto simp: issuable_def Ticket_of_coll_def TaskContext_of_def coll_ticket_def coll_context_def coll_ok_def
      CollOperation_issue_def ticket_ok_def ignoreStatus_def)

text \<open>
  Each kind of operation: \<open>n\<close> pointers are popped and transferred. \<open>moved\<close> states what a
  transfer of \<open>k\<close> operations changes besides \<open>serves\<close>.
\<close>

definition moved :: "('m, 'q, 'c) sys \<Rightarrow> ('m, 'q, 'c) sys \<Rightarrow> nat \<Rightarrow> bool" where
  "moved s s' k \<longleftrightarrow> tm_pending (sy_tm s') \<le> tm_pending (sy_tm s) + k"

lemma sys_ok_bound: "sys_ok P s \<Longrightarrow> cc_get (tm_capacityCtrl (sy_tm s)) \<le> 32768"
  using cc_get_bounds by (auto simp: sys_ok_def)

lemma sys_room_queued:
  assumes "sys_room P s" "k \<le> size (sys_queued P s)"
  shows "cq_room P (sy_world s) k"
  using assms by (auto simp: sys_room_def intro: cq_room_le)

lemma p2p_batch:
  assumes P: "plat_ok P" and s: "sys_ok P s" "sys_room P s"
    and n: "n \<le> BatchSize" "int (tm_pending (sy_tm s)) + int n \<le> cc_get (tm_capacityCtrl (sy_tm s))"
  obtains ps q s' tcs where "mq_pop CyclicRoundRobin (tm_p2pOperations (sy_tm s)) n = ret (ps, q)"
    "(if length ps > 0 then transfer_p2p P ps (s\<lparr>sy_tm := (sy_tm s)\<lparr>tm_p2pOperations := q\<rparr>\<rparr>)
      else Inr (s\<lparr>sy_tm := (sy_tm s)\<lparr>tm_p2pOperations := q\<rparr>\<rparr>)) = Inr s'"
    "serves P tcs s s'" "moved s s' (length ps)" "length ps = min n (size (sy_p2p s))"
    "size (sy_p2p s') + length ps = size (sy_p2p s)" "sy_coll P s' = sy_coll P s"
proof -
  note S = s(1) [unfolded sys_ok_def]
  obtain ps q where pop: "mq_pop CyclicRoundRobin (tm_p2pOperations (sy_tm s)) n = ret (ps, q)" "mq_ok q"
    "mset ps + mq_elems q = sy_p2p s" "length ps = min n (size (sy_p2p s))"
    using mlq.pop_cases [of "tm_p2pOperations (sy_tm s)" CyclicRoundRobin n] S by metis
  let ?tm = "(sy_tm s)\<lparr>tm_p2pOperations := q\<rparr>" and ?mpi = "pf_mpi P"
  have mem: "\<forall>p \<in># mset ps + mq_elems q. op_ok ?mpi (sy_ops s p)" using S pop(3) by simp
  have size: "size (mq_elems q) + length ps = size (sy_p2p s)" using arg_cong [OF pop(3), of size] by simp
  have tm: "tm_ok ?mpi ?tm" using S by (simp add: tm_ok_def tm_flight_def)
  have room: "cq_room P (sy_world s) (length ps)"
    using s(2) by (rule sys_room_queued) (simp add: size_sys_queued pop(4))
  have iss: "\<forall>p \<in> set ps. issuable Ticket_of_op (Operation_issue ?mpi) op_ticket (sy_ops s p) \<and>
      ticket_ok ?mpi (op_ticket (sy_ops s p))"
    using issuable_op P mem by (auto simp: plat_ok_def)
  have al: "alloc_ok (pf_B P) (al_operation (sy_alloc s)) (mset ps + mq_elems q)" using S pop(3) by simp
  obtain new tcs A' a' w' tm' where t:
    "transferOperations P Ticket_of_op (Operation_issue ?mpi) (sy_ops s) ps (al_operation (sy_alloc s)) ?tm (sy_world s) =
      Inr (A', tm', w')"
    "tm' = ?tm\<lparr>tm_pending := tm_pending ?tm + length new, tm_arrays := a'\<rparr>" "tm_ok ?mpi tm'"
    "tm_flight tm' = tm_flight ?tm @ new" "delivers P tcs (sy_world s) w'"
    "\<And>held. alloc_ok (pf_B P) (al_operation (sy_alloc s)) (mset ps + held) \<Longrightarrow> alloc_ok (pf_B P) A' held"
    "mset tcs + mset (map (tk_taskContext \<circ> snd) new) = mset (map (tk_taskContext \<circ> op_ticket \<circ> sy_ops s) ps)"
    by (rule transferOperations_partition [OF P tm room _ _ _ iss al])
      (use n pop(4) sys_ok_bound [OF s(1)] in auto)
  have new: "length new \<le> length ps" using arg_cong [OF t(7), of size] by simp
  let ?s = "s\<lparr>sy_alloc := (sy_alloc s)\<lparr>al_operation := A'\<rparr>, sy_tm := tm', sy_world := w'\<rparr>"
  show thesis
  proof (cases "ps = []")
    case True
    then have e: "mq_elems q = sy_p2p s" using pop(3) by simp
    have "serves P [] s (s\<lparr>sy_tm := ?tm\<rparr>)"
      using S pop(2) tm by (simp add: serves_def keeps_held_def sys_ok_def sys_queued_def sys_flight_def tm_flight_def e)
    then show thesis using that [OF pop(1), of "s\<lparr>sy_tm := ?tm\<rparr>" "[]"] True pop(4) e by (simp add: moved_def)
  next
    case False
    have "sys_ok P ?s"
      using S pop(2) t(2,3) t(6) [OF al] mem new n pop(4) by (auto simp: sys_ok_def)
    moreover have "mset tcs + (sys_queued P ?s + sys_flight ?s) = sys_queued P s + sys_flight s"
      using t(2,4,7) by (simp add: sys_queued_def sys_flight_def op_ticket_def comp_def tm_flight_def
          pop(3) [symmetric] multiset.map_comp)
    moreover have "keeps_held P s ?s" using t(2,6) by (simp add: keeps_held_def pop(3) [symmetric] add.assoc)
    ultimately have sv: "serves P tcs s ?s" using t(2,5) by (simp add: serves_def)
    have res: "(if length ps > 0 then transfer_p2p P ps (s\<lparr>sy_tm := ?tm\<rparr>) else Inr (s\<lparr>sy_tm := ?tm\<rparr>)) = Inr ?s"
      using False t(1) by (simp add: transfer_p2p_def)
    show thesis
      by (rule that [OF pop(1) res sv _ pop(4)]) (use t(2) new size in \<open>simp_all add: moved_def\<close>)
  qed
qed

lemma coll_batch:
  assumes P: "plat_ok P" and s: "sys_ok P s" "sys_room P s"
    and n: "n \<le> BatchSize" "int (tm_pending (sy_tm s)) + int n \<le> cc_get (tm_capacityCtrl (sy_tm s))"
  obtains ps q s' tcs where "bq_pop (pf_B P) (tm_collOperations (sy_tm s)) n = (ps, q)"
    "(if length ps > 0 then transfer_coll P ps (s\<lparr>sy_tm := (sy_tm s)\<lparr>tm_collOperations := q\<rparr>\<rparr>)
      else Inr (s\<lparr>sy_tm := (sy_tm s)\<lparr>tm_collOperations := q\<rparr>\<rparr>)) = Inr s'"
    "serves P tcs s s'" "moved s s' (length ps)" "length ps = min n (size (sy_coll P s))"
    "size (sy_coll P s') + length ps = size (sy_coll P s)" "sy_p2p s' = sy_p2p s"
proof -
  note S = s(1) [unfolded sys_ok_def]
  have B: "spsc_ok (pf_B P)" using P by (simp add: plat_ok_def)
  obtain ps q where pop: "bq_pop (pf_B P) (tm_collOperations (sy_tm s)) n = (ps, q)" "True"
    "mset ps + bq_elems (pf_B P) q = sy_coll P s" "length ps = min n (size (sy_coll P s))"
    using blq.pop_returns [OF B, of "tm_collOperations (sy_tm s)" n] by auto
  let ?tm = "(sy_tm s)\<lparr>tm_collOperations := q\<rparr>" and ?mpi = "pf_mpi P"
  have mem: "\<forall>p \<in># mset ps + bq_elems (pf_B P) q. coll_ok (sy_colls s p)" using S pop(3) by simp
  have size: "size (bq_elems (pf_B P) q) + length ps = size (sy_coll P s)" using arg_cong [OF pop(3), of size] by simp
  have tm: "tm_ok ?mpi ?tm" using S by (simp add: tm_ok_def tm_flight_def)
  have room: "cq_room P (sy_world s) (length ps)"
    using s(2) by (rule sys_room_queued) (simp add: size_sys_queued pop(4))
  have iss: "\<forall>p \<in> set ps. issuable (Ticket_of_coll ?mpi) (CollOperation_issue ?mpi) (coll_ticket ?mpi) (sy_colls s p) \<and>
      ticket_ok ?mpi (coll_ticket ?mpi (sy_colls s p))"
    using issuable_coll P mem by (auto simp: plat_ok_def)
  have al: "alloc_ok (pf_B P) (al_coll (sy_alloc s)) (mset ps + bq_elems (pf_B P) q)" using S pop(3) by simp
  obtain new tcs A' a' w' tm' where t:
    "transferOperations P (Ticket_of_coll ?mpi) (CollOperation_issue ?mpi) (sy_colls s) ps (al_coll (sy_alloc s)) ?tm (sy_world s) =
      Inr (A', tm', w')"
    "tm' = ?tm\<lparr>tm_pending := tm_pending ?tm + length new, tm_arrays := a'\<rparr>" "tm_ok ?mpi tm'"
    "tm_flight tm' = tm_flight ?tm @ new" "delivers P tcs (sy_world s) w'"
    "\<And>held. alloc_ok (pf_B P) (al_coll (sy_alloc s)) (mset ps + held) \<Longrightarrow> alloc_ok (pf_B P) A' held"
    "mset tcs + mset (map (tk_taskContext \<circ> snd) new) = mset (map (tk_taskContext \<circ> coll_ticket ?mpi \<circ> sy_colls s) ps)"
    by (rule transferOperations_partition [OF P tm room _ _ _ iss al])
      (use n pop(4) sys_ok_bound [OF s(1)] in auto)
  have new: "length new \<le> length ps" using arg_cong [OF t(7), of size] by simp
  let ?s = "s\<lparr>sy_alloc := (sy_alloc s)\<lparr>al_coll := A'\<rparr>, sy_tm := tm', sy_world := w'\<rparr>"
  show thesis
  proof (cases "ps = []")
    case True
    then have e: "bq_elems (pf_B P) q = sy_coll P s" using pop(3) by simp
    have "serves P [] s (s\<lparr>sy_tm := ?tm\<rparr>)"
      using S pop(2) tm by (simp add: serves_def keeps_held_def sys_ok_def sys_queued_def sys_flight_def tm_flight_def e)
    then show thesis using that [OF pop(1), of "s\<lparr>sy_tm := ?tm\<rparr>" "[]"] True pop(4) e by (simp add: moved_def)
  next
    case False
    have "sys_ok P ?s"
      using S pop(2) t(2,3) t(6) [OF al] mem new n pop(4) by (auto simp: sys_ok_def)
    moreover have "mset tcs + (sys_queued P ?s + sys_flight ?s) = sys_queued P s + sys_flight s"
      using t(2,4,7) by (simp add: sys_queued_def sys_flight_def coll_ticket_def comp_def tm_flight_def
          pop(3) [symmetric] multiset.map_comp)
    moreover have "keeps_held P s ?s" using t(2,6) by (simp add: keeps_held_def pop(3) [symmetric] add.assoc)
    ultimately have sv: "serves P tcs s ?s" using t(2,5) by (simp add: serves_def)
    have res: "(if length ps > 0 then transfer_coll P ps (s\<lparr>sy_tm := ?tm\<rparr>) else Inr (s\<lparr>sy_tm := ?tm\<rparr>)) = Inr ?s"
      using False t(1) by (simp add: transfer_coll_def)
    show thesis
      by (rule that [OF pop(1) res sv _ pop(4)]) (use t(2) new size in \<open>simp_all add: moved_def\<close>)
  qed
qed

section \<open>The loop over the pre-queues\<close>

lemma queues_step_ok:
  assumes P: "plat_ok P" and s: "sys_ok P s" "sys_room P s" and nt: "ntotal \<le> navailable"
    and cap: "int (tm_pending (sy_tm s)) + (navailable - ntotal) \<le> cc_get (tm_capacityCtrl (sy_tm s))"
  obtains np2p ncoll s' tcs where "queues_step P navailable ntotal s = ret (np2p, ncoll, s')"
    "serves P tcs s s'" "moved s s' (np2p + ncoll)"
    "size (sys_queued P s') + np2p + ncoll = size (sys_queued P s)"
    "ntotal + int np2p + int ncoll \<le> navailable"
    "ntotal < navailable \<and> np2p = 0 \<and> ncoll = 0 \<longrightarrow> sys_queued P s = {#}"
proof -
  let ?n = "nat (min (navailable - ntotal) (int BatchSize))"
  have n: "?n \<le> BatchSize" "int (tm_pending (sy_tm s)) + int ?n \<le> cc_get (tm_capacityCtrl (sy_tm s))"
    using cap nt by auto
  obtain ps q s1 tcs1 where a: "mq_pop CyclicRoundRobin (tm_p2pOperations (sy_tm s)) ?n = ret (ps, q)"
    "(if length ps > 0 then transfer_p2p P ps (s\<lparr>sy_tm := (sy_tm s)\<lparr>tm_p2pOperations := q\<rparr>\<rparr>)
      else Inr (s\<lparr>sy_tm := (sy_tm s)\<lparr>tm_p2pOperations := q\<rparr>\<rparr>)) = Inr s1"
    "serves P tcs1 s s1" "moved s s1 (length ps)" "length ps = min ?n (size (sy_p2p s))"
    "size (sy_p2p s1) + length ps = size (sy_p2p s)" "sy_coll P s1 = sy_coll P s"
    by (rule p2p_batch [OF P s n])
  let ?nt = "ntotal + int (length ps)"
  let ?m = "nat (min (navailable - ?nt) (int BatchSize))"
  have ps: "int (length ps) \<le> navailable - ntotal" using a(5) nt by auto
  have m: "?m \<le> BatchSize" "int (tm_pending (sy_tm s1)) + int ?m \<le> cc_get (tm_capacityCtrl (sy_tm s1))"
    using cap ps a(3,4) by (auto simp: moved_def serves_def)
  obtain cs q2 s2 tcs2 where b: "bq_pop (pf_B P) (tm_collOperations (sy_tm s1)) ?m = (cs, q2)"
    "(if length cs > 0 then transfer_coll P cs (s1\<lparr>sy_tm := (sy_tm s1)\<lparr>tm_collOperations := q2\<rparr>\<rparr>)
      else Inr (s1\<lparr>sy_tm := (sy_tm s1)\<lparr>tm_collOperations := q2\<rparr>\<rparr>)) = Inr s2"
    "serves P tcs2 s1 s2" "moved s1 s2 (length cs)" "length cs = min ?m (size (sy_coll P s1))"
    "size (sy_coll P s2) + length cs = size (sy_coll P s1)" "sy_p2p s2 = sy_p2p s1"
    by (rule coll_batch [OF P serves_ok [OF a(3)] serves_room [OF a(3) s(2)] m])
  show thesis
  proof (rule that)
    show "queues_step P navailable ntotal s = ret (length ps, length cs, s2)"
      using a(1,2) b(1,2) by (simp add: queues_step_def Let_def)
    show "serves P (tcs1 @ tcs2) s s2" by (rule serves_trans [OF a(3) b(3)])
    show "moved s s2 (length ps + length cs)" using a(4) b(4) by (simp add: moved_def)
    show "size (sys_queued P s2) + length ps + length cs = size (sys_queued P s)"
      using a(6,7) b(6,7) by (simp add: size_sys_queued)
    show "ntotal + int (length ps) + int (length cs) \<le> navailable" using b(5) ps by auto
    have "sy_p2p s = {#} \<and> sy_coll P s = {#}" if "ntotal < navailable" "length ps = 0" "length cs = 0"
      using that a(5,7) b(5) by (auto simp: min_def split: if_splits)
    then show "ntotal < navailable \<and> length ps = 0 \<and> length cs = 0 \<longrightarrow> sys_queued P s = {#}"
      by (simp add: sys_queued_def)
  qed
qed

lemma queues_loop_ok:
  assumes P: "plat_ok P"
  shows "sys_ok P s \<Longrightarrow> sys_room P s \<Longrightarrow> ntotal \<le> navailable \<Longrightarrow>
    int (tm_pending (sy_tm s)) + (navailable - ntotal) \<le> cc_get (tm_capacityCtrl (sy_tm s)) \<Longrightarrow>
    \<exists>k s' tcs. queues_loop P navailable ntotal s = ret (ntotal + int k, s') \<and> serves P tcs s s' \<and>
      moved s s' k \<and> size (sys_queued P s') + k = size (sys_queued P s) \<and>
      (ntotal + int k < navailable \<longrightarrow> sys_queued P s' = {#})"
proof (induction "size (sys_queued P s)" arbitrary: s ntotal rule: less_induct)
  case less
  obtain np2p ncoll s1 tcs where st: "queues_step P navailable ntotal s = ret (np2p, ncoll, s1)"
    "serves P tcs s s1" "moved s s1 (np2p + ncoll)"
    "size (sys_queued P s1) + np2p + ncoll = size (sys_queued P s)"
    "ntotal + int np2p + int ncoll \<le> navailable"
    "ntotal < navailable \<and> np2p = 0 \<and> ncoll = 0 \<longrightarrow> sys_queued P s = {#}"
    by (rule queues_step_ok [OF P less.prems])
  let ?nt = "ntotal + int np2p + int ncoll"
  show ?case
  proof (cases "?nt < navailable \<and> (np2p > 0 \<or> ncoll > 0)")
    case True
    have "int (tm_pending (sy_tm s1)) + (navailable - ?nt) \<le> cc_get (tm_capacityCtrl (sy_tm s1))"
      using st(2,3) less.prems(4) by (simp add: moved_def serves_def)
    moreover have "size (sys_queued P s1) < size (sys_queued P s)" using st(4) True by linarith
    ultimately obtain k s' tcs' where
      ih: "queues_loop P navailable ?nt s1 = ret (?nt + int k, s')" "serves P tcs' s1 s'"
      "moved s1 s' k" "size (sys_queued P s') + k = size (sys_queued P s1)"
      "?nt + int k < navailable \<longrightarrow> sys_queued P s' = {#}"
      using less.hyps [OF _ serves_ok [OF st(2)] serves_room [OF st(2) less.prems(2)] st(5)] by blast
    have "queues_loop P navailable ntotal s = ret (ntotal + int (np2p + ncoll + k), s')"
      using st(1) True ih(1) by (subst queues_loop.simps) (simp add: Let_def add.assoc)
    moreover have "moved s s' (np2p + ncoll + k)" using st(3) ih(3) by (simp add: moved_def)
    ultimately show ?thesis
      using serves_trans [OF st(2) ih(2)] st(4) ih(4,5)
      by (intro exI [of _ "np2p + ncoll + k"] exI [of _ s'] exI [of _ "tcs @ tcs'"]) (simp add: add.assoc)
  next
    case False
    then have "queues_loop P navailable ntotal s = ret (ntotal + int (np2p + ncoll), s1)"
      using st(1) by (subst queues_loop.simps) (auto simp: Let_def)
    moreover have "sys_queued P s1 = {#}" if "ntotal + int (np2p + ncoll) < navailable"
    proof -
      from that False have z: "np2p = 0" "ncoll = 0" by auto
      with that st(6) have "sys_queued P s = {#}" by simp
      with z st(4) show ?thesis by simp
    qed
    ultimately show ?thesis using st(2-4)
      by (intro exI [of _ "np2p + ncoll"] exI [of _ s1] exI [of _ tcs]) simp
  qed
qed

section \<open>The loop of a check\<close>

lemma check_phase:
  assumes P: "plat_ok P" and s: "sys_ok P s" "sys_room P s"
  obtains completed s' tcs where
    "(if tm_pending (sy_tm s) \<noteq> 0
      then Some (rbind (internalCheckRequests P (sy_tm s) (sy_world s)) (\<lambda>(completed, tm, w).
        Inr (completed, s\<lparr>sy_tm := tm, sy_world := w\<rparr>))) else ret (0, s)) = ret (completed, s')"
    "serves P tcs s s'" "sys_queued P s' = sys_queued P s" "length tcs = completed"
    "tm_pending (sy_tm s') + completed = tm_pending (sy_tm s)"
proof (cases "tm_pending (sy_tm s) = 0")
  case True
  then show thesis using that [of 0 s "[]"] serves_refl [OF s(1)] by simp
next
  case False
  note S = s(1) [unfolded sys_ok_def]
  have room: "cq_room P (sy_world s) (tm_pending (sy_tm s))"
    using s(2) by (auto simp: sys_room_def intro: cq_room_le)
  have p: "rt_ok (pf_rt P)" "spsc_ok (pf_C P)" using P by (auto simp: plat_ok_def)
  have tm: "tm_ok (pf_mpi P) (sy_tm s)" "0 < tm_pending (sy_tm s)" using S False by auto
  obtain dn a' w' tm' where c: "internalCheckRequests P (sy_tm s) (sy_world s) = Inr (length dn, tm', w')"
    "tm' = (sy_tm s)\<lparr>tm_arrays := a', tm_pending := tm_pending (sy_tm s) - length dn\<rparr>"
    "tm_ok (pf_mpi P) tm'" "mset (tm_flight tm') + mset (map fst dn) = mset (tm_flight (sy_tm s))"
    "delivers P (map (tk_taskContext \<circ> snd \<circ> fst) dn) (sy_world s) w'"
    "w_mem w' = store_all (pf_mpi P) (map (\<lambda>((r, t), st). (t, st)) dn) (w_mem (sy_world s))"
    by (rule internalCheckRequests_partition [OF p tm room])
  let ?s = "s\<lparr>sy_tm := tm', sy_world := w'\<rparr>" and ?tcs = "map (tk_taskContext \<circ> snd \<circ> fst) dn"
  have n: "tm_pending tm' + length dn = tm_pending (sy_tm s)"
    using arg_cong [OF c(4), of size] by simp
  have "sys_ok P ?s" using S c(2,3) n by (auto simp: sys_ok_def)
  moreover have "sys_queued P ?s = sys_queued P s" using c(2) by (simp add: sys_queued_def)
  moreover have "mset ?tcs + sys_flight ?s = sys_flight s"
    using arg_cong [OF c(4), of "image_mset (tk_taskContext \<circ> snd)"]
    by (simp add: sys_flight_def multiset.map_comp comp_def add.commute)
  ultimately have "serves P ?tcs s ?s" using c(2,5) by (simp add: serves_def keeps_held_def add.left_commute)
  with c(1,2) n False show thesis
    by (intro that [of "length dn" ?s ?tcs]) (simp_all add: sys_queued_def)
qed

text \<open>
  One iteration. Twice the queued operations plus those in flight decreases when anything was
  inserted or completed.
\<close>

definition check_measure :: "('m, 'q, 'c) platform \<Rightarrow> ('m, 'q, 'c) sys \<Rightarrow> nat" where
  "check_measure P s = 2 * size (sys_queued P s) + tm_pending (sy_tm s)"

definition settled :: "('m, 'q, 'c) platform \<Rightarrow> ('m, 'q, 'c) sys \<Rightarrow> bool" where
  "settled P s \<longleftrightarrow> sys_queued P s = {#} \<or> int (tm_pending (sy_tm s)) = cc_get (tm_capacityCtrl (sy_tm s))"

lemma insert_phase:
  assumes P: "plat_ok P" and s: "sys_ok P s" "sys_room P s"
  obtains k s' tcs where
    "(if int (tm_pending (sy_tm s)) < cc_get (tm_capacityCtrl (sy_tm s))
      then internalCheckOperationQueues P (int (BatchSize * 2)) s else ret (0, s)) = ret (int k, s')"
    "serves P tcs s s'" "moved s s' k" "size (sys_queued P s') + k = size (sys_queued P s)"
    "k = 0 \<longrightarrow> settled P s'"
proof (cases "int (tm_pending (sy_tm s)) < cc_get (tm_capacityCtrl (sy_tm s))")
  case True
  let ?nav = "min (cc_get (tm_capacityCtrl (sy_tm s)) - int (tm_pending (sy_tm s))) (int (BatchSize * 2))"
  have nav: "0 \<le> ?nav" "int (tm_pending (sy_tm s)) + (?nav - 0) \<le> cc_get (tm_capacityCtrl (sy_tm s))" "0 < ?nav"
    using True by auto
  obtain k s' tcs where "queues_loop P ?nav 0 s = ret (0 + int k, s')" "serves P tcs s s'"
      "moved s s' k" "size (sys_queued P s') + k = size (sys_queued P s)"
      "0 + int k < ?nav \<longrightarrow> sys_queued P s' = {#}"
    using queues_loop_ok [OF P s nav(1,2)] by blast
  with True nav(3) show thesis
    by (intro that [of k s' tcs]) (auto simp: internalCheckOperationQueues_def Let_def settled_def)
next
  case False
  then show thesis
    using serves_refl [OF s(1)] s(1) by (intro that [of 0 s "[]"]) (auto simp: moved_def settled_def sys_ok_def)
qed

lemma check_step_ok:
  assumes P: "plat_ok P" and s: "sys_ok P s" "sys_room P s"
  obtains inserted completed s' tcs where
    "check_step P s = ret (int inserted, completed, s')" "serves P tcs s s'" "completed \<le> length tcs"
    "inserted > 0 \<or> completed > 0 \<longrightarrow> check_measure P s' < check_measure P s"
    "inserted = 0 \<and> completed = 0 \<longrightarrow> settled P s'"
proof -
  obtain k s1 tcs1 where i:
    "(if int (tm_pending (sy_tm s)) < cc_get (tm_capacityCtrl (sy_tm s))
      then internalCheckOperationQueues P (int (BatchSize * 2)) s else ret (0, s)) = ret (int k, s1)"
    "serves P tcs1 s s1" "moved s s1 k" "size (sys_queued P s1) + k = size (sys_queued P s)"
    "k = 0 \<longrightarrow> settled P s1"
    by (rule insert_phase [OF assms])
  obtain n s2 tcs2 where c:
    "(if tm_pending (sy_tm s1) \<noteq> 0
      then Some (rbind (internalCheckRequests P (sy_tm s1) (sy_world s1)) (\<lambda>(completed, tm, w).
        Inr (completed, s1\<lparr>sy_tm := tm, sy_world := w\<rparr>))) else ret (0, s1)) = ret (n, s2)"
    "serves P tcs2 s1 s2" "sys_queued P s2 = sys_queued P s1" "length tcs2 = n"
    "tm_pending (sy_tm s2) + n = tm_pending (sy_tm s1)"
    by (rule check_phase [OF P serves_ok [OF i(2)] serves_room [OF i(2) s(2)]])
  show thesis
  proof (rule that)
    show "check_step P s = ret (int k, n, s2)" 
      using c(1) unfolding check_step_def i(1) by (auto split: if_splits)
    show "serves P (tcs1 @ tcs2) s s2" by (rule serves_trans [OF i(2) c(2)])
    show "k > 0 \<or> n > 0 \<longrightarrow> check_measure P s2 < check_measure P s"
      using i(3,4) c(3,5) by (auto simp: check_measure_def moved_def)
    show "k = 0 \<and> n = 0 \<longrightarrow> settled P s2"
      using i(5) c(2,3,5) by (auto simp: settled_def serves_def)
  qed (use c(4) in simp)
qed

text \<open>The loop returns after an iteration that neither inserted nor completed anything.\<close>

definition idle_after :: "('m, 'q, 'c) platform \<Rightarrow> ('m, 'q, 'c) sys \<Rightarrow> bool" where
  "idle_after P s \<longleftrightarrow> (\<exists>s0. sys_ok P s0 \<and> sys_room P s0 \<and> check_step P s0 = ret (0, 0, s))"

lemma check_loop_ok:
  assumes P: "plat_ok P"
  shows "sys_ok P s \<Longrightarrow> sys_room P s \<Longrightarrow>
    \<exists>n s' tcs. check_loop P s done = ret (done + n, s') \<and> serves P tcs s s' \<and> n \<le> length tcs \<and> settled P s' \<and> idle_after P s'"
proof (induction "check_measure P s" arbitrary: s "done" rule: less_induct)
  case less
  obtain k n s1 tcs where c: "check_step P s = ret (int k, n, s1)" "serves P tcs s s1" "n \<le> length tcs"
    "k > 0 \<or> n > 0 \<longrightarrow> check_measure P s1 < check_measure P s"
    "k = 0 \<and> n = 0 \<longrightarrow> settled P s1"
    by (rule check_step_ok [OF P less.prems])
  show ?case
  proof (cases "k > 0 \<or> n > 0")
    case True
    then obtain n' s' tcs' where "check_loop P s1 (done + n) = ret (done + n + n', s')"
      "serves P tcs' s1 s'" "n' \<le> length tcs'" "settled P s'" "idle_after P s'"
      using less.hyps [of s1 "done + n"] c(4) serves_ok [OF c(2)] serves_room [OF c(2) less.prems(2)] by blast
    with c(1,3) True serves_trans [OF c(2)] show ?thesis
      by (subst check_loop.simps) (auto simp: Let_def add.assoc intro!: exI [of _ "n + n'"] exI [of _ "tcs @ tcs'"])
  next
    case False
    then have "idle_after P s1" using c(1) less.prems by (auto simp: idle_after_def)
    with False c show ?thesis by (subst check_loop.simps) (auto simp: Let_def intro!: exI [of _ 0] exI [of _ tcs])
  qed
qed

lemma evaluate_keeps:
  assumes "sys_ok P s"
  shows "sys_ok P (s\<lparr>sy_tm := (sy_tm s)\<lparr>tm_capacityCtrl := fst (evaluate (tm_capacityCtrl (sy_tm s)) p d now)\<rparr>\<rparr>)"
proof -
  let ?c = "tm_capacityCtrl (sy_tm s)" and ?c' = "fst (evaluate (tm_capacityCtrl (sy_tm s)) p d now)"
  have "cc_ok ?c'" "cc_capacity ?c \<le> cc_capacity ?c'" using evaluate_ok assms by (auto simp: sys_ok_def)
  moreover from this have "cc_get ?c \<le> cc_get ?c'" by (simp add: cc_get_def word_le_def)
  ultimately show ?thesis using assms by (auto simp: sys_ok_def tm_ok_def tm_flight_def)
qed

lemma checkRequests_idle:
  assumes "plat_ok P" "sys_ok P s" "sys_room P s"
  shows "\<exists>completed s' wn tcs s1. checkRequests P now s pending = ret (completed, pending + tm_pending (sy_tm s'), s', wn) \<and>
    sys_ok P s' \<and> delivers P tcs (sy_world s) (sy_world s') \<and> completed \<le> length tcs \<and>
    mset tcs + (sys_queued P s' + sys_flight s') = sys_queued P s + sys_flight s \<and>
    (sys_queued P s' = {#} \<or> int (tm_pending (sy_tm s')) = cc_get (tm_capacityCtrl (sy_tm s))) \<and>
    idle_after P s1 \<and> tm_pending (sy_tm s1) = tm_pending (sy_tm s') \<and> keeps_held P s s'"
proof -
  obtain n s1 tcs where c: "check_loop P s 0 = ret (n, s1)" "serves P tcs s s1" "n \<le> length tcs" "settled P s1" "idle_after P s1"
    using check_loop_ok [OF assms, of 0] by auto
  let ?e = "evaluate (tm_capacityCtrl (sy_tm s1)) (of_nat (tm_pending (sy_tm s1))) (of_nat n) now"
  let ?s = "s1\<lparr>sy_tm := (sy_tm s1)\<lparr>tm_capacityCtrl := fst ?e\<rparr>\<rparr>"
  have "checkRequests P now s pending = ret (n, pending + tm_pending (sy_tm ?s), ?s, snd ?e)"
    using c(1) by (simp add: checkRequests_def Let_def split: prod.splits)
  moreover have "sys_queued P ?s = sys_queued P s1" "sys_flight ?s = sys_flight s1"
    by (simp_all add: sys_queued_def sys_flight_def tm_flight_def)
  moreover have "keeps_held P s1 ?s" by (simp add: keeps_held_def)
  ultimately show ?thesis
    using c(2-5) keeps_held_trans [of P s s1 ?s] evaluate_keeps [OF serves_ok [OF c(2)]]
    by (intro exI [of _ n] exI [of _ ?s] exI [of _ "snd ?e"] exI [of _ tcs] exI [of _ s1]) (auto simp: serves_def settled_def)
qed

lemma checkRequests_run:
  assumes "plat_ok P" "sys_ok P s" "sys_room P s"
  shows "\<exists>completed s' wn tcs. checkRequests P now s pending = ret (completed, pending + tm_pending (sy_tm s'), s', wn) \<and>
    sys_ok P s' \<and> delivers P tcs (sy_world s) (sy_world s') \<and> completed \<le> length tcs \<and>
    mset tcs + (sys_queued P s' + sys_flight s') = sys_queued P s + sys_flight s \<and>
    (sys_queued P s' = {#} \<or> int (tm_pending (sy_tm s')) = cc_get (tm_capacityCtrl (sy_tm s))) \<and> keeps_held P s s'"
  using checkRequests_idle [OF assms, of now pending] by blast

section \<open>Properties\<close>


text \<open>
  A system for the examples: five sends of the tasks 11 to 15 are queued on two CPUs, a barrier of the task 21
  is queued, and a request of the task 31 is in flight.
\<close>

definition sample_plat :: "bool \<Rightarrow> (nat, nat list, TaskContext list) platform" where
  "sample_plat cm = \<lparr>pf_mpi = sample_mpi, pf_rt = const_rt 1, pf_B = list_spsc 6, pf_C = list_spsc 100, pf_cm = cm\<rparr>"

definition sample_flight :: Ticket where
  "sample_flight = \<lparr>tk_taskContext = \<lparr>tc_blocking = True, tc_taskHandle = 31\<rparr>, tk_firstStatus = 900\<rparr>"

definition sample_tm :: "TestingApproach \<Rightarrow> nat list ticket_manager" where
  "sample_tm ap = \<lparr>tm_generalTesting = Approach_TestSome, tm_immediateTesting = ap,
     tm_capacityCtrl = \<lparr>cc_capacityMin = 4, cc_capacityMax = 512, cc_dynamic = True, cc_capacity = 4,
       cc_timeout = 10, cc_saturation = False, cc_saturationBegin = 0\<rparr>,
     tm_pending = 1,
     tm_arrays = \<lparr>ar_requests = 7 # replicate 32767 0, ar_mappings = (Some 0, 0) # replicate 32767 (None, 0),
       ar_tickets = replicate 32768 sample_flight\<rparr>,
     tm_p2pOperations = sample_mq True,
     tm_collOperations = \<lparr>bq_multipleProducers = True, bq_fullFailure = False, bq_queue = [1]\<rparr>\<rparr>"

definition sample_world :: "(nat, TaskContext list) world" where
  "sample_world = \<lparr>w_log = [], w_mpi = 0, w_mem = (\<lambda>_. sample_status 0), w_cq = []\<rparr>"

definition sample_oa :: "nat list \<Rightarrow> nat list objalloc" where
  "sample_oa central = \<lparr>oa_capacity = 6, oa_ncaches = 2,
     oa_caches = replicate 2 \<lparr>fs_array = replicate 64 0, fs_size = 0\<rparr>, oa_central = central\<rparr>"

definition sample_sys :: "TestingApproach \<Rightarrow> (nat, nat list, TaskContext list) sys" where
  "sample_sys ap = \<lparr>sy_tm = sample_tm ap, sy_world = sample_world,
     sy_alloc = \<lparr>al_operation = Some (sample_oa [6]), al_coll = Some (sample_oa [2, 3, 4, 5, 6])\<rparr>,
     sy_ops = (\<lambda>p. Operation_new (10 + p) SEND BLK 4096 8 1 0 (int p) 1 0),
     sy_colls = (\<lambda>p. CollOperation_cc 21 BARRIER NONBLK 0 0 0 0 0 0 0 0 1)\<rparr>"

lemma sample_plat_ok: "plat_ok (sample_plat cm)"
  by (simp add: plat_ok_def sample_plat_def list_spsc_ok mpi_issue_ok_def) (simp add: sample_mpi_def)

lemma sample_oa_inv:
  "length central \<le> 6 \<Longrightarrow> mset central + mset live = mset [1, 2, 3, 4, 5, 6] \<Longrightarrow> oa_inv (list_spsc 6) (sample_oa central) live"
  by (auto simp: oa_inv_def oa_all_def sample_oa_def list_spsc_def fs_list_def fs_ok_def fs_capacity_def
      upt_rec eval_nat_numeral)

lemma sample_tm_facts:
  shows "tm_ok sample_mpi (sample_tm ap)"
    "tm_flight (sample_tm ap) = [(7, sample_flight)]"
    "mq_elems (tm_p2pOperations (sample_tm ap)) = {#1, 2, 3, 4, 5#}"
    "bq_elems (list_spsc 6) (tm_collOperations (sample_tm ap)) = {#1#}"
proof -
  show fl: "tm_flight (sample_tm ap) = [(7, sample_flight)]"
    by (simp add: tm_flight_def ar_entries_def ar_entry_def sample_tm_def)
  then show "tm_ok sample_mpi (sample_tm ap)"
    by (simp add: tm_ok_def ar_ok_def ticket_ok_def sample_flight_def) (simp add: sample_tm_def)
  show "mq_elems (tm_p2pOperations (sample_tm ap)) = {#1, 2, 3, 4, 5#}"
    by (simp add: sample_tm_def mq_elems_def)
  show "bq_elems (list_spsc 6) (tm_collOperations (sample_tm ap)) = {#1#}"
    by (simp add: sample_tm_def bq_elems_def bq_contents_def list_spsc_def)
qed

lemma sample_sys_ok: "sys_ok (sample_plat cm) (sample_sys ap)"
proof -
  have "alloc_ok (list_spsc 6) (Some (sample_oa [6])) {#1, 2, 3, 4, 5#}"
    unfolding alloc_ok_def by (intro exI [of _ "sample_oa [6]"] exI [of _ "[1, 2, 3, 4, 5]"]) (simp add: sample_oa_inv)
  moreover have "alloc_ok (list_spsc 6) (Some (sample_oa [2, 3, 4, 5, 6])) {#1#}"
    unfolding alloc_ok_def by (intro exI [of _ "sample_oa [2, 3, 4, 5, 6]"] exI [of _ "[1]"]) (simp add: sample_oa_inv)
  moreover have "cc_ok (tm_capacityCtrl (sample_tm ap))" "mq_ok (tm_p2pOperations (sample_tm ap))"
    "int (tm_pending (sample_tm ap)) \<le> cc_get (tm_capacityCtrl (sample_tm ap))"
    by (simp_all add: sample_tm_def cc_ok_def cc_get_def)
  ultimately show ?thesis
    by (simp add: sys_ok_def sample_sys_def sample_plat_def sample_tm_facts op_ok_def Operation_new_def op_call_def
        coll_ok_def CollOperation_cc_def coll_make_def coll_call_def)
qed

lemma sample_sys_contexts:
  "sys_queued (sample_plat cm) (sample_sys ap) =
     mset (map (\<lambda>p. \<lparr>tc_blocking = True, tc_taskHandle = p\<rparr>) [11, 12, 13, 14, 15]) +
     {#\<lparr>tc_blocking = False, tc_taskHandle = 21\<rparr>#}"
  "sys_flight (sample_sys ap) = {#\<lparr>tc_blocking = True, tc_taskHandle = 31\<rparr>#}"
  "sys_room (sample_plat cm) (sample_sys ap)"
  "w_log (sy_world (sample_sys ap)) = []"
proof -
  show q: "sys_queued (sample_plat cm) (sample_sys ap) =
     mset (map (\<lambda>p. \<lparr>tc_blocking = True, tc_taskHandle = p\<rparr>) [11, 12, 13, 14, 15]) +
     {#\<lparr>tc_blocking = False, tc_taskHandle = 21\<rparr>#}"
    by (simp add: sys_queued_def sample_sys_def sample_plat_def sample_tm_facts op_context_def Operation_new_def
        coll_context_def CollOperation_cc_def coll_make_def)
  show f: "sys_flight (sample_sys ap) = {#\<lparr>tc_blocking = True, tc_taskHandle = 31\<rparr>#}"
    by (simp add: sys_flight_def sample_sys_def sample_tm_facts sample_flight_def)
  show "sys_room (sample_plat cm) (sample_sys ap)"
    by (simp add: sys_room_def cq_room_def q f)
      (simp add: sample_plat_def sample_sys_def sample_world_def list_spsc_def)
qed (simp add: sample_sys_def sample_world_def)






text \<open>
  When the queue of the completion manager has no room for the contexts of a batch, the transfer
  fails the process: completions are never dropped silently.
\<close>

lemma completion_queue_full:
  assumes "spsc_ok (pf_C P)" "pf_cm P" "ctxs \<noteq> []"
    and "spsc_capacity (pf_C P) (w_cq w) < length (spsc_contents (pf_C P) (w_cq w)) + length ctxs"
  shows "transfer_contexts P ctxs w = fail [Str ''Failed to push task contexts'']"
  using assms transfer_full [OF assms(1,4)] by (simp add: transfer_contexts_def fail_def)

end
