(* ===== verification/Operation_Manager.thy ===== *)
theory Operation_Manager
  imports Check_Requests
begin

text \<open>
  \<open>OperationManager::process\<close> (src/src/common/OperationManager.hpp): what a task-aware operation does in
  the task that calls it. The operation is constructed in an object of the allocator and pushed to the
  pre-queue of its kind; a blocking one then pauses the task, a non-blocking one has bound an event
  to it before.
\<close>

section \<open>Allocation and construction\<close>

text \<open>
  \<open>Allocator::alloc\<close> forwards to the instance of the type, which constructs the object in place: the
  store maps the pointer to it. The template \<open>process\<close> is instantiated for both kinds of
  operations; \<open>mk\<close> is the construction with the arguments of the call.
\<close>

definition Allocator_alloc ::
    "('q, nat) spsc \<Rightarrow> alpi \<Rightarrow> alpi_log \<Rightarrow> 'q objalloc option \<Rightarrow> (nat \<times> 'q objalloc option \<times> alpi_log) result" where
  "Allocator_alloc B rt h A =
     (case A of
        None \<Rightarrow> Inl (AssertFail ''ObjAllocator<T>::_instance != nullptr'')
      | Some A \<Rightarrow> rbind (objalloc_alloc B rt h A) (\<lambda>(p, A, h). Inr (p, Some A, h)))"

definition set_log :: "alpi_log \<Rightarrow> ('m, 'q, 'c) sys \<Rightarrow> ('m, 'q, 'c) sys" where
  "set_log h s = s\<lparr>sy_world := (sy_world s)\<lparr>w_log := h\<rparr>\<rparr>"

abbreviation sy_log :: "('m, 'q, 'c) sys \<Rightarrow> alpi_log" where
  "sy_log s \<equiv> w_log (sy_world s)"

section \<open>Processing an operation\<close>

definition process_p2p ::
    "('m, 'q, 'c) platform \<Rightarrow> (nat \<Rightarrow> nat mlfq \<Rightarrow> nat mlfq) \<Rightarrow> OpNature \<Rightarrow> (task \<Rightarrow> Operation) \<Rightarrow>
     ('m, 'q, 'c) sys \<Rightarrow> ('m, 'q, 'c) sys run" where
  "process_p2p P env nature mk s =
     run_bind (Some (TaskContext_current (pf_rt P) (sy_log s) (nature = BLK))) (\<lambda>(tc, h).
     run_bind (Some (bindEvents (pf_rt P) h tc 1)) (\<lambda>h.
     run_bind (Some (Allocator_alloc (pf_B P) (pf_rt P) h (al_operation (sy_alloc s)))) (\<lambda>(p, A, h).
     let s = s\<lparr>sy_alloc := (sy_alloc s)\<lparr>al_operation := A\<rparr>,
               sy_ops := (sy_ops s)(p := mk (tc_taskHandle tc))\<rparr> in
     run_bind (addOperation_p2p env (pf_rt P) h (sy_tm s) p) (\<lambda>(tm, h).
     run_bind (Some (if tc_blocking tc then waitEventsCompletion (pf_rt P) h tc else Inr h)) (\<lambda>h.
     ret (set_log h (s\<lparr>sy_tm := tm\<rparr>)))))))"

definition process_coll ::
    "('m, 'q, 'c) platform \<Rightarrow> (nat \<Rightarrow> 'q \<Rightarrow> 'q) \<Rightarrow> OpNature \<Rightarrow> (task \<Rightarrow> CollOperation) \<Rightarrow>
     ('m, 'q, 'c) sys \<Rightarrow> ('m, 'q, 'c) sys run" where
  "process_coll P env nature mk s =
     run_bind (Some (TaskContext_current (pf_rt P) (sy_log s) (nature = BLK))) (\<lambda>(tc, h).
     run_bind (Some (bindEvents (pf_rt P) h tc 1)) (\<lambda>h.
     run_bind (Some (Allocator_alloc (pf_B P) (pf_rt P) h (al_coll (sy_alloc s)))) (\<lambda>(p, A, h).
     let s = s\<lparr>sy_alloc := (sy_alloc s)\<lparr>al_coll := A\<rparr>,
               sy_colls := (sy_colls s)(p := mk (tc_taskHandle tc))\<rparr> in
     run_bind (addOperation_coll (pf_B P) env (sy_tm s) p) (\<lambda>tm.
     run_bind (Some (if tc_blocking tc then waitEventsCompletion (pf_rt P) h tc else Inr h)) (\<lambda>h.
     ret (set_log h (s\<lparr>sy_tm := tm\<rparr>)))))))"

section \<open>Invariant\<close>

text \<open>
  The task that calls: the runtime reports a task and, each time it is asked, a CPU among those the
  allocator and the queues were built for.
\<close>

definition caller_ok :: "alpi \<Rightarrow> task \<Rightarrow> nat \<Rightarrow> bool" where
  "caller_ok rt t cpu \<longleftrightarrow> t \<noteq> 0 \<and>
     (\<forall>h. snd (alpi_ret rt h alpi_task_self) 0 = t \<and> snd (alpi_ret rt h alpi_cpu_logical_id) 0 = cpu)"

lemma TaskContext_current_ok:
  "rt_ok rt \<Longrightarrow> caller_ok rt t cpu \<Longrightarrow>
     TaskContext_current rt h b = Inr (\<lparr>tc_blocking = b, tc_taskHandle = t\<rparr>, h @ [alpi_task_self])"
  by (simp add: TaskContext_current_def getCurrentTask_def alpi_checked_ok caller_ok_def)

lemma waitEventsCompletion_ok:
  "rt_ok rt \<Longrightarrow> tc_blocking tc \<Longrightarrow> waitEventsCompletion rt h tc = Inr (h @ [alpi_task_block (tc_taskHandle tc)])"
  by (simp add: waitEventsCompletion_def blockCurrentTask_def alpi_checked_ok)

text \<open>An object can be allocated from the CPU: its cache or the central queue is not empty.\<close>

definition can_alloc :: "('q, nat) spsc \<Rightarrow> 'q objalloc option \<Rightarrow> nat \<Rightarrow> bool" where
  "can_alloc B A cpu \<longleftrightarrow>
     (case A of None \<Rightarrow> False
      | Some A \<Rightarrow> cpu < oa_ncaches A \<and>
          \<not> (fs_list (oa_caches A ! cpu) = [] \<and> spsc_contents B (oa_central A) = []))"

lemma Allocator_alloc_ok:
  assumes "spsc_ok B" "rt_ok rt" "alloc_ok B A ptrs" "caller_ok rt t cpu" "can_alloc B A cpu"
  obtains p A' where "Allocator_alloc B rt h A = Inr (p, A', h @ [alpi_cpu_logical_id])"
    "p \<noteq> 0" "p \<notin># ptrs" "alloc_ok B A' (add_mset p ptrs)"
proof -
  obtain A0 live where A0: "A = Some A0" "oa_inv B A0 live" "ptrs \<subseteq># mset live"
    using assms(3) by (auto simp: alloc_ok_def)
  have cpu: "snd (alpi_ret rt h alpi_cpu_logical_id) 0 = cpu" "cpu < oa_ncaches A0"
    "\<not> (fs_list (oa_caches A0 ! cpu) = [] \<and> spsc_contents B (oa_central A0) = [])"
    using assms(4,5) A0(1) by (auto simp: caller_ok_def can_alloc_def)
  obtain p A' where p: "objalloc_alloc B rt h A0 = Inr (p, A', h @ [alpi_cpu_logical_id])"
    "p \<noteq> 0" "p \<notin> set live" "oa_inv B A' (p # live)"
    using objalloc_alloc_inv [OF assms(1,2) A0(2) cpu(1,2)] cpu(3) by auto
  have "alloc_ok B (Some A') (add_mset p ptrs)"
    unfolding alloc_ok_def using p(4) A0(3) by (intro exI [of _ A'] exI [of _ "p # live"]) simp
  moreover have "p \<notin># ptrs" using p(3) mset_subset_eqD [OF A0(3)] by auto
  ultimately show thesis using p(1,2) A0(1) by (intro that [of p "Some A'"]) (simp_all add: Allocator_alloc_def)
qed

text \<open>
  The calls to the runtime around an operation, the MPI calls that the queued operations stand for,
  and the effect of an operation: one more of them.
\<close>

definition process_calls :: "OpNature \<Rightarrow> task \<Rightarrow> alpi_call list \<Rightarrow> alpi_call list" where
  "process_calls nature t push =
     [alpi_task_self] @ (if nature = BLK then [] else [alpi_task_events_increase t 1]) @
     [alpi_cpu_logical_id] @ push @ (if nature = BLK then [alpi_task_block t] else [])"

definition sys_calls :: "('m, 'q, 'c) platform \<Rightarrow> ('m, 'q, 'c) sys \<Rightarrow> icall result multiset" where
  "sys_calls P s =
     image_mset (\<lambda>p. op_call (sy_ops s p)) (sy_p2p s) + image_mset (\<lambda>p. coll_call (sy_colls s p)) (sy_coll P s)"

definition adds_operation ::
    "('m, 'q, 'c) platform \<Rightarrow> TaskContext \<Rightarrow> icall result \<Rightarrow> alpi_call list \<Rightarrow> ('m, 'q, 'c) sys \<Rightarrow> ('m, 'q, 'c) sys \<Rightarrow> bool" where
  "adds_operation P tc call calls s s' \<longleftrightarrow> sys_ok P s' \<and> sys_queued P s' = add_mset tc (sys_queued P s) \<and>
     sys_calls P s' = add_mset call (sys_calls P s) \<and>
     sys_flight s' = sys_flight s \<and> w_cq (sy_world s') = w_cq (sy_world s) \<and>
     tm_capacityCtrl (sy_tm s') = tm_capacityCtrl (sy_tm s) \<and> sy_log s' = sy_log s @ calls"

lemma process_p2p_adds:
  assumes P: "plat_ok P" and s: "sys_ok P s" and c: "caller_ok (pf_rt P) t cpu"
    and al: "can_alloc (pf_B P) (al_operation (sy_alloc s)) cpu"
    and q: "cpu < mq_queues (tm_p2pOperations (sy_tm s))"
      "mq_used (tm_p2pOperations (sy_tm s)) cpu + 1 < mq_capacity (tm_p2pOperations (sy_tm s))"
    and mk: "op_ok (pf_mpi P) (mk t)" "op_context (mk t) = \<lparr>tc_blocking = (nature = BLK), tc_taskHandle = t\<rparr>"
  shows "\<exists>s'. process_p2p P env nature mk s = ret s' \<and>
    adds_operation P \<lparr>tc_blocking = (nature = BLK), tc_taskHandle = t\<rparr> (op_call (mk t))
      (process_calls nature t [alpi_cpu_logical_id]) s s'"
proof -
  note S = s [unfolded sys_ok_def]
  have p: "rt_ok (pf_rt P)" "spsc_ok (pf_B P)" using P by (auto simp: plat_ok_def)
  have alok: "alloc_ok (pf_B P) (al_operation (sy_alloc s)) (sy_p2p s)" using S by simp
  let ?h = "sy_log s @ [alpi_task_self] @ (if nature = BLK then [] else [alpi_task_events_increase t 1])"
  obtain ptr A' where a: "Allocator_alloc (pf_B P) (pf_rt P) ?h (al_operation (sy_alloc s)) =
      Inr (ptr, A', ?h @ [alpi_cpu_logical_id])"
    "ptr \<noteq> 0" "ptr \<notin># sy_p2p s" "alloc_ok (pf_B P) A' (add_mset ptr (sy_p2p s))"
    by (rule Allocator_alloc_ok [OF p(2,1) alok c al])
  obtain q' where q': "mq_push env (tm_p2pOperations (sy_tm s)) ptr cpu = ret q'" "mq_ok q'"
    "mq_elems q' = add_mset ptr (sy_p2p s)"
    using mq_push_elems [OF _ q] S by metis
  let ?s = "set_log (?h @ [alpi_cpu_logical_id, alpi_cpu_logical_id] @ (if nature = BLK then [alpi_task_block t] else []))
    (s\<lparr>sy_alloc := (sy_alloc s)\<lparr>al_operation := A'\<rparr>, sy_ops := (sy_ops s)(ptr := mk t),
       sy_tm := (sy_tm s)\<lparr>tm_p2pOperations := q'\<rparr>\<rparr>)"
  have res: "process_p2p P env nature mk s = ret ?s"
    using TaskContext_current_ok [OF p(1) c] bindEvents_ok [OF p(1)] a(1,2) q'(1) c
      waitEventsCompletion_ok [OF p(1)] getCurrentLogicalCPU_ok [OF p(1)]
    by (cases nature) (simp_all add: process_p2p_def addOperation_p2p_def Let_def caller_ok_def)
  have same: "image_mset (\<lambda>x. f (((sy_ops s)(ptr := mk t)) x)) (sy_p2p s) = image_mset (\<lambda>x. f (sy_ops s x)) (sy_p2p s)" for f
    using a(3) by (intro image_mset_cong) auto
  have "sys_ok P ?s"
    using S q'(2,3) a(3,4) mk(1) by (auto simp: sys_ok_def set_log_def tm_ok_def tm_flight_def)
  moreover have "sys_queued P ?s = add_mset \<lparr>tc_blocking = (nature = BLK), tc_taskHandle = t\<rparr> (sys_queued P s)"
    using q'(3) mk(2) same by (simp add: sys_queued_def set_log_def)
  moreover have "sys_calls P ?s = add_mset (op_call (mk t)) (sys_calls P s)"
    using q'(3) same by (simp add: sys_calls_def set_log_def)
  ultimately have "adds_operation P \<lparr>tc_blocking = (nature = BLK), tc_taskHandle = t\<rparr> (op_call (mk t))
      (process_calls nature t [alpi_cpu_logical_id]) s ?s"
    by (simp add: adds_operation_def process_calls_def) (simp add: set_log_def sys_flight_def tm_flight_def)
  with res show ?thesis by blast
qed

lemma process_coll_adds:
  assumes P: "plat_ok P" and s: "sys_ok P s" and c: "caller_ok (pf_rt P) t cpu"
    and al: "can_alloc (pf_B P) (al_coll (sy_alloc s)) cpu"
    and q: "length (bq_contents (pf_B P) (tm_collOperations (sy_tm s))) + 1 \<le>
        spsc_capacity (pf_B P) (bq_queue (tm_collOperations (sy_tm s)))"
    and mk: "coll_ok (mk t)" "coll_context (mk t) = \<lparr>tc_blocking = (nature = BLK), tc_taskHandle = t\<rparr>"
  shows "\<exists>s'. process_coll P env nature mk s = ret s' \<and>
    adds_operation P \<lparr>tc_blocking = (nature = BLK), tc_taskHandle = t\<rparr> (coll_call (mk t))
      (process_calls nature t []) s s'"
proof -
  note S = s [unfolded sys_ok_def]
  have p: "rt_ok (pf_rt P)" "spsc_ok (pf_B P)" using P by (auto simp: plat_ok_def)
  have alok: "alloc_ok (pf_B P) (al_coll (sy_alloc s)) (sy_coll P s)" using S by simp
  let ?h = "sy_log s @ [alpi_task_self] @ (if nature = BLK then [] else [alpi_task_events_increase t 1])"
  obtain ptr A' where a: "Allocator_alloc (pf_B P) (pf_rt P) ?h (al_coll (sy_alloc s)) =
      Inr (ptr, A', ?h @ [alpi_cpu_logical_id])"
    "ptr \<noteq> 0" "ptr \<notin># sy_coll P s" "alloc_ok (pf_B P) A' (add_mset ptr (sy_coll P s))"
    by (rule Allocator_alloc_ok [OF p(2,1) alok c al])
  have room: "length (bq_contents (pf_B P) (tm_collOperations (sy_tm s))) + length [ptr] \<le>
      spsc_capacity (pf_B P) (bq_queue (tm_collOperations (sy_tm s)))" using q by simp
  obtain q' where q': "bq_push (pf_B P) env (tm_collOperations (sy_tm s)) [ptr] = ret q'"
    "bq_contents (pf_B P) q' = bq_contents (pf_B P) (tm_collOperations (sy_tm s)) @ [ptr]"
    by (rule bq_push_room [OF p(2) room])
  then have el: "bq_elems (pf_B P) q' = add_mset ptr (sy_coll P s)" by (simp add: bq_elems_def)
  let ?s = "set_log (?h @ [alpi_cpu_logical_id] @ (if nature = BLK then [alpi_task_block t] else []))
    (s\<lparr>sy_alloc := (sy_alloc s)\<lparr>al_coll := A'\<rparr>, sy_colls := (sy_colls s)(ptr := mk t),
       sy_tm := (sy_tm s)\<lparr>tm_collOperations := q'\<rparr>\<rparr>)"
  have res: "process_coll P env nature mk s = ret ?s"
    using TaskContext_current_ok [OF p(1) c] bindEvents_ok [OF p(1)] a(1,2) q'(1) c
      waitEventsCompletion_ok [OF p(1)]
    by (cases nature) (simp_all add: process_coll_def addOperation_coll_def Let_def caller_ok_def)
  have same: "image_mset (\<lambda>x. f (((sy_colls s)(ptr := mk t)) x)) (sy_coll P s) = image_mset (\<lambda>x. f (sy_colls s x)) (sy_coll P s)" for f
    using a(3) by (intro image_mset_cong) auto
  have "sys_ok P ?s"
    using S el a(3,4) mk(1) by (auto simp: sys_ok_def set_log_def tm_ok_def tm_flight_def)
  moreover have "sys_queued P ?s = add_mset \<lparr>tc_blocking = (nature = BLK), tc_taskHandle = t\<rparr> (sys_queued P s)"
    using el mk(2) same by (simp add: sys_queued_def set_log_def)
  moreover have "sys_calls P ?s = add_mset (coll_call (mk t)) (sys_calls P s)"
    using el same by (simp add: sys_calls_def set_log_def)
  ultimately have "adds_operation P \<lparr>tc_blocking = (nature = BLK), tc_taskHandle = t\<rparr> (coll_call (mk t))
      (process_calls nature t []) s ?s"
    by (simp add: adds_operation_def process_calls_def) (simp add: set_log_def sys_flight_def tm_flight_def)
  with res show ?thesis by blast
qed

section \<open>Properties\<close>

text \<open>
  (C11) A point-to-point operation of a task, with an object to allocate and room in the queue of its
  CPU: the call returns, exactly one operation with the context of the task is queued and nothing
  else changes in the queues and arrays, the invariant holds, and the runtime saw exactly the
  documented calls: the event of a non-blocking operation is bound before it is queued, and a
  blocking one pauses the task after.
\<close>

theorem process_p2p_queues:
  assumes "plat_ok P" "sys_ok P s" "caller_ok (pf_rt P) t cpu"
    and "can_alloc (pf_B P) (al_operation (sy_alloc s)) cpu"
    and "cpu < mq_queues (tm_p2pOperations (sy_tm s))"
      "mq_used (tm_p2pOperations (sy_tm s)) cpu + 1 < mq_capacity (tm_p2pOperations (sy_tm s))"
    and "op_ok (pf_mpi P) (mk t)" "op_context (mk t) = \<lparr>tc_blocking = (nature = BLK), tc_taskHandle = t\<rparr>"
  shows "\<exists>s'. process_p2p P env nature mk s = ret s' \<and> sys_ok P s' \<and>
    sys_queued P s' = add_mset (op_context (mk t)) (sys_queued P s) \<and>
    sys_calls P s' = add_mset (op_call (mk t)) (sys_calls P s) \<and> sys_flight s' = sys_flight s \<and>
    sy_log s' = sy_log s @ process_calls nature t [alpi_cpu_logical_id]"
  using process_p2p_adds [OF assms(1-6), where mk = mk and nature = nature] assms(7,8) by (auto simp: adds_operation_def)

text \<open>
  A collective operation of a task, with an object to allocate and room in the queue: the call
  returns, exactly one operation with the context of the task is queued, the invariant holds, and the
  runtime saw exactly the documented calls.
\<close>

lemma process_coll_queues:
  assumes "plat_ok P" "sys_ok P s" "caller_ok (pf_rt P) t cpu"
    and "can_alloc (pf_B P) (al_coll (sy_alloc s)) cpu"
    and "length (bq_contents (pf_B P) (tm_collOperations (sy_tm s))) + 1 \<le>
        spsc_capacity (pf_B P) (bq_queue (tm_collOperations (sy_tm s)))"
    and "coll_ok (mk t)" "coll_context (mk t) = \<lparr>tc_blocking = (nature = BLK), tc_taskHandle = t\<rparr>"
  shows "\<exists>s'. process_coll P env nature mk s = ret s' \<and> sys_ok P s' \<and>
    sys_queued P s' = add_mset (coll_context (mk t)) (sys_queued P s) \<and>
    sys_calls P s' = add_mset (coll_call (mk t)) (sys_calls P s) \<and> sys_flight s' = sys_flight s \<and>
    sy_log s' = sy_log s @ process_calls nature t []"
  using process_coll_adds [OF assms(1-5), where mk = mk and nature = nature] assms(6,7) by (auto simp: adds_operation_def)

lemma sample_caller: "caller_ok (pf_rt (sample_plat cm)) 1 1"
  by (simp add: caller_ok_def sample_plat_def)

lemma sample_can:
  "can_alloc (pf_B (sample_plat cm)) (al_operation (sy_alloc (sample_sys ap))) 1"
  "can_alloc (pf_B (sample_plat cm)) (al_coll (sy_alloc (sample_sys ap))) 1"
  by (simp_all add: can_alloc_def sample_sys_def sample_oa_def sample_plat_def list_spsc_def)

lemma sample_room:
  "1 < mq_queues (tm_p2pOperations (sy_tm (sample_sys ap)))"
  "mq_used (tm_p2pOperations (sy_tm (sample_sys ap))) 1 + 1 < mq_capacity (tm_p2pOperations (sy_tm (sample_sys ap)))"
  "length (bq_contents (pf_B (sample_plat cm)) (tm_collOperations (sy_tm (sample_sys ap)))) + 1 \<le>
     spsc_capacity (pf_B (sample_plat cm)) (bq_queue (tm_collOperations (sy_tm (sample_sys ap))))"
  by (simp_all add: sample_sys_def sample_tm_def sample_plat_def bq_contents_def list_spsc_def)

definition sample_recv :: "OpNature \<Rightarrow> task \<Rightarrow> Operation" where
  "sample_recv nature t = Operation_new t RECV nature 8192 8 1 0 5 1 77"

definition sample_barrier :: "OpNature \<Rightarrow> task \<Rightarrow> CollOperation" where
  "sample_barrier nature t = CollOperation_cc t BARRIER nature 0 0 0 0 0 0 0 0 0"

lemma sample_ops_ok:
  "op_ok (pf_mpi (sample_plat cm)) (sample_recv nature 1)"
  "op_context (sample_recv nature 1) = \<lparr>tc_blocking = (nature = BLK), tc_taskHandle = 1\<rparr>"
  "coll_ok (sample_barrier nature 1)"
  "coll_context (sample_barrier nature 1) = \<lparr>tc_blocking = (nature = BLK), tc_taskHandle = 1\<rparr>"
  by (simp_all add: sample_recv_def sample_barrier_def op_ok_def Operation_new_def op_call_def op_context_def
      coll_ok_def CollOperation_cc_def coll_make_def coll_call_def coll_context_def)

theorem process_p2p_queues_witness:
  "\<exists>s'. process_p2p (sample_plat True) drain_env BLK (sample_recv BLK) (sample_sys Approach_Test) = ret s' \<and>
     sy_log s' = [alpi_task_self, alpi_cpu_logical_id, alpi_cpu_logical_id, alpi_task_block 1]"
proof -
  obtain s' where "process_p2p (sample_plat True) drain_env BLK (sample_recv BLK) (sample_sys Approach_Test) = ret s'"
    "sy_log s' = sy_log (sample_sys Approach_Test) @ process_calls BLK 1 [alpi_cpu_logical_id]"
    using process_p2p_queues [OF sample_plat_ok sample_sys_ok sample_caller sample_can(1) sample_room(1,2),
        where mk = "sample_recv BLK" and nature = BLK] sample_ops_ok(1,2) by blast
  then show ?thesis by (simp add: process_calls_def sample_sys_contexts)
qed

end
