(* ===== verification/Period_Ctrl.thy ===== *)
theory Period_Ctrl
  imports String_Support Double
begin

text \<open>
  The controllers of the polling period: \<open>SlowStartPollingPeriodCtrl\<close>
  (src/src/common/polling/SlowStartPollingPeriodCtrl.hpp), the only dynamic policy, and \<open>PollingPeriodCtrl\<close>
  (src/src/common/polling/PollingPeriodCtrl.hpp and .cpp), which reads the configuration.
\<close>

section \<open>Slow start\<close>

abbreviation Tolerance :: int where "Tolerance \<equiv> 50"
abbreviation Penalty :: double where "Penalty \<equiv> 2"
abbreviation MinBase :: double where "MinBase \<equiv> 10"

record slowstart =
  ss_minPeriod :: double
  ss_maxPeriod :: double
  ss_period :: double
  ss_factor :: double
  ss_misses :: int

definition SlowStartPollingPeriodCtrl :: "u64 \<Rightarrow> u64 \<Rightarrow> slowstart" where
  "SlowStartPollingPeriodCtrl periodMin periodMax =
     \<lparr>ss_minPeriod = double_of_u64 periodMin, ss_maxPeriod = double_of_u64 periodMax,
      ss_period = double_of_u64 periodMax, ss_factor = 2, ss_misses = 0\<rparr>"

definition slowstart_run :: "slowstart \<Rightarrow> u64 \<Rightarrow> (u64 \<times> slowstart) result" where
  "slowstart_run c completedUnits =
     (let c = (if completedUnits = 0 then c\<lparr>ss_misses := ss_misses c + 1\<rparr> else c) in
      if completedUnits = 0 \<and> ss_misses c < Tolerance then Inr (u64_of_double (ss_period c), c)
      else
        let c = c\<lparr>ss_misses := 0\<rparr>;
            c = (if completedUnits = 0 then
                   let period = max (min (dmul (ss_period c) Penalty) (ss_maxPeriod c)) MinBase;
                       factor = ddiv (dadd (dmul (3/2) (ss_maxPeriod c)) (dmul (1/2) period)) (ss_maxPeriod c)
                   in c\<lparr>ss_period := period, ss_factor := factor\<rparr>
                 else c\<lparr>ss_period := max (ddiv (ss_period c) (ss_factor c)) (ss_minPeriod c)\<rparr>)
        in
        rbind (rassert (ss_factor c \<ge> 3/2 \<and> ss_factor c \<le> 2) ''_factor >= 1.5 && _factor <= 2.0'') (\<lambda>_.
        rbind (rassert (ss_period c \<le> ss_maxPeriod c \<and> ss_period c \<ge> ss_minPeriod c)
                 ''_period <= _maxPeriod && _period >= _minPeriod'') (\<lambda>_.
        Inr (u64_of_double (ss_period c), c))))"

section \<open>PollingPeriodCtrl\<close>

abbreviation DefaultPeriodUs :: u64 where "DefaultPeriodUs \<equiv> 100"

record period_ctrl =
  pp_minPeriod :: u64
  pp_maxPeriod :: u64
  pp_dynamic :: bool
  pp_policy :: string
  pp_dynamicCtrl :: "slowstart option"

definition PollingPeriodCtrl :: "(string \<Rightarrow> string option) \<Rightarrow> string \<Rightarrow> (period_ctrl \<times> warnings) result" where
  "PollingPeriodCtrl getenv envar =
     (let (ev, w) = EnvironmentVariable getenv parse_string Str envar (to_string (unat DefaultPeriodUs)) in
      case parse3 parse_u64 parse_u64 parse_string (ev_value ev) 0 0 [] (CHR '':'') of
        None \<Rightarrow> fail [Str ''Invalid format TAMPI_POLLING_PERIOD=minperiod[:maxperiod[:policy]]'']
      | Some (present0, present1, present2, minPeriod, maxPeriod, policy) \<Rightarrow>
          let minPeriod = (if \<not> present0 then DefaultPeriodUs else minPeriod);
              maxPeriod = (if \<not> present1 then minPeriod else maxPeriod);
              policy = (if \<not> present2 then ''slowstart'' else policy)
          in
          if minPeriod > maxPeriod
          then fail [Str ''TAMPI_POLLING_PERIOD has a minperiod greater than maxperiod'']
          else if maxPeriod \<noteq> minPeriod then
            if policy = ''slowstart'' \<or> policy = ''default'' then
              Inr (\<lparr>pp_minPeriod = minPeriod, pp_maxPeriod = maxPeriod, pp_dynamic = True,
                    pp_policy = policy,
                    pp_dynamicCtrl = Some (SlowStartPollingPeriodCtrl minPeriod maxPeriod)\<rparr>, w)
            else fail [Str (''TAMPI_POLLING_PERIOD has an invalid policy '' @ apos), Str policy, Str apos]
          else Inr (\<lparr>pp_minPeriod = minPeriod, pp_maxPeriod = maxPeriod, pp_dynamic = False,
                     pp_policy = policy, pp_dynamicCtrl = None\<rparr>, w))"

definition getPeriod :: "period_ctrl \<Rightarrow> u64 \<Rightarrow> u64 \<Rightarrow> (u64 \<times> period_ctrl) result" where
  "getPeriod c completed pending =
     (if \<not> pp_dynamic c then Inr (pp_maxPeriod c, c)
      else case pp_dynamicCtrl c of
        None \<Rightarrow> Inl (AssertFail ''_dynamicCtrl != nullptr'')
      | Some d \<Rightarrow> rbind (slowstart_run d completed) (\<lambda>(p, d). Inr (p, c\<lparr>pp_dynamicCtrl := Some d\<rparr>)))"

text \<open>The periods of successive runs of the polling task, given the numbers of completed requests.\<close>

fun periods :: "period_ctrl \<Rightarrow> u64 list \<Rightarrow> (u64 list \<times> period_ctrl) result" where
  "periods c [] = Inr ([], c)"
| "periods c (n # ns) =
     rbind (getPeriod c n 0) (\<lambda>(p, c). rbind (periods c ns) (\<lambda>(ps, c). Inr (p # ps, c)))"

section \<open>Invariant of slow start\<close>

definition ss_ok :: "nat \<Rightarrow> nat \<Rightarrow> slowstart \<Rightarrow> bool" where
  "ss_ok lo hi c \<longleftrightarrow> ss_minPeriod c = of_nat lo \<and> ss_maxPeriod c = of_nat hi \<and>
     of_nat lo \<le> ss_period c \<and> ss_period c \<le> of_nat hi \<and> 3/2 \<le> ss_factor c \<and> ss_factor c \<le> 2"

text \<open>The two steps of the policy, on any arithmetic that rounds monotonically.\<close>

context rounding
begin

lemma penalty_factor_bounds:
  assumes "0 \<le> p" "p \<le> of_nat hi" "0 < hi" "hi < 2 ^ 50"
  defines "f \<equiv> rnd (rnd (rnd (3/2 * of_nat hi) + rnd (1/2 * p)) / of_nat hi)"
  shows "3/2 \<le> f" "f \<le> 2"
proof -
  let ?h = "of_nat hi :: rat"
  have h: "0 < ?h" using assms(3) by simp
  have s3: "short (3/2 * ?h)" using short_half [of "3 * int hi"] assms(4) by simp
  have s1: "short (1/2 * ?h)" using short_half [of "int hi"] assms(4) by simp
  have s2: "short (2 * ?h)" using short_int [of "2 * int hi"] assms(4) by simp
  have a: "rnd (3/2 * ?h) = 3/2 * ?h" by (rule rnd_short [OF s3])
  have b: "0 \<le> rnd (1/2 * p)" "rnd (1/2 * p) \<le> 1/2 * ?h"
    using rnd_ge [of 0 "1/2 * p"] rnd_le [OF s1, of "1/2 * p"] assms(1,2) by auto
  define s where "s = rnd (rnd (3/2 * ?h) + rnd (1/2 * p))"
  have "3/2 * ?h \<le> s" "s \<le> 2 * ?h"
    unfolding s_def a using b by (intro rnd_ge [OF s3] rnd_le [OF s2]; simp)+
  then have "3/2 \<le> s / ?h" "s / ?h \<le> 2" using h by (simp_all add: field_simps)
  then show "3/2 \<le> f" "f \<le> 2"
    unfolding f_def s_def [symmetric] using rnd_ge [of "3/2" "s / ?h"] rnd_le [of 2 "s / ?h"] by auto
qed

lemma decrease_le:
  assumes "0 \<le> p" "p \<le> of_nat hi" "3/2 \<le> f" "hi < 2 ^ 50"
  shows "rnd (p / f) \<le> of_nat hi"
proof -
  have "p / f \<le> p / 1" using assms(1,3) by (intro divide_left_mono) auto
  then have "p / f \<le> of_nat hi" using assms(2) by simp
  then show ?thesis using short_nat [of hi] assms(4) by (intro rnd_le) auto
qed

end

lemma slowstart_run_ok:
  assumes ok: "ss_ok lo hi c" and "lo \<le> hi" "10 \<le> hi" "hi < 2 ^ 50"
  obtains c' where "slowstart_run c n = Inr (u64_of_double (ss_period c'), c')" "ss_ok lo hi c'"
proof -
  have P: "0 \<le> ss_period c" "ss_period c \<le> of_nat hi" "of_nat lo \<le> ss_period c"
    using ok by (auto simp: ss_ok_def intro: order_trans [of 0 "of_nat lo"])
  define p where "p = max (min (dmul (ss_period c) Penalty) (of_nat hi)) MinBase"
  have "of_nat lo \<le> dmul (ss_period c) Penalty"
    unfolding dmul_def using short_nat [of lo] assms(2,4) P by (intro ieee.rnd_ge) auto
  then have p: "of_nat lo \<le> p" "p \<le> of_nat hi" "0 \<le> p"
    using assms(2,3) by (auto simp: p_def)
  note F = ieee.penalty_factor_bounds [OF p(3,2) _ assms(4)]
  have d: "max (ddiv (ss_period c) (ss_factor c)) (of_nat lo) \<le> of_nat hi"
    using ieee.decrease_le [OF P(1,2), of "ss_factor c"] ok assms(2,4) by (auto simp: ddiv_def ss_ok_def)
  show thesis
  proof (cases "n = 0 \<and> ss_misses c + 1 < Tolerance")
    case True
    then show thesis
      using ok by (intro that [of "c\<lparr>ss_misses := ss_misses c + 1\<rparr>"]) (auto simp: slowstart_run_def ss_ok_def)
  next
    case False
    let ?c = "if n = 0 then c\<lparr>ss_misses := 0, ss_period := p,
        ss_factor := ddiv (dadd (dmul (3/2) (of_nat hi)) (dmul (1/2) p)) (of_nat hi)\<rparr>
      else c\<lparr>ss_misses := 0, ss_period := max (ddiv (ss_period c) (ss_factor c)) (of_nat lo)\<rparr>"
    have "ss_ok lo hi ?c"
      using ok p F d assms(3) by (auto simp: ss_ok_def ddiv_def dadd_def dmul_def)
    then show thesis
      using False ok
      by (intro that [of ?c]) (auto simp: slowstart_run_def ss_ok_def p_def Let_def)
  qed
qed

lemma u64_of_double_bounds:
  assumes "of_nat lo \<le> x" "x \<le> of_nat hi" "hi < 2 ^ 50"
  shows "lo \<le> unat (u64_of_double x) \<and> unat (u64_of_double x) \<le> hi"
proof -
  have f: "int lo \<le> \<lfloor>x\<rfloor>" "\<lfloor>x\<rfloor> \<le> int hi"
    using assms(1,2) by (auto simp: le_floor_iff floor_le_iff intro: le_less_trans)
  then have "int (nat \<lfloor>x\<rfloor>) = \<lfloor>x\<rfloor>" by linarith
  then have "(of_int \<lfloor>x\<rfloor> :: u64) = of_nat (nat \<lfloor>x\<rfloor>)" by (metis of_int_of_nat_eq)
  then have "unat (of_int \<lfloor>x\<rfloor> :: u64) = nat \<lfloor>x\<rfloor>"
    using unat_of_nat_64 [of "nat \<lfloor>x\<rfloor>"] f assms(3) by simp
  with f show ?thesis by (simp add: u64_of_double_def) linarith
qed

section \<open>Invariant of the controller\<close>

definition pp_ok :: "period_ctrl \<Rightarrow> bool" where
  "pp_ok c \<longleftrightarrow> pp_minPeriod c \<le> pp_maxPeriod c \<and>
     (if pp_dynamic c
      then \<exists>d. pp_dynamicCtrl c = Some d \<and> ss_ok (unat (pp_minPeriod c)) (unat (pp_maxPeriod c)) d
      else pp_minPeriod c = pp_maxPeriod c)"

lemma double_of_u64_exact: "unat n < 2 ^ 53 \<Longrightarrow> double_of_u64 n = of_nat (unat n)"
  by (simp add: double_of_u64_def ieee.rnd_short short_nat del: of_nat_unat)

lemma SlowStart_ok:
  assumes "lo \<le> hi" "hi < 2 ^ 50"
  shows "ss_ok (unat lo) (unat hi) (SlowStartPollingPeriodCtrl lo hi)"
proof -
  have "unat hi < 2 ^ 50" "unat lo \<le> unat hi"
    using assms by (simp_all add: word_le_nat_alt word_less_nat_alt)
  then show ?thesis 
    by (simp add: SlowStartPollingPeriodCtrl_def ss_ok_def double_of_u64_exact del: of_nat_unat)
qed

lemma PollingPeriodCtrl_cases:
  assumes "PollingPeriodCtrl getenv envar = Inr (c, w)"
  shows "pp_minPeriod c \<le> pp_maxPeriod c \<and>
    (if pp_dynamic c
     then pp_dynamicCtrl c = Some (SlowStartPollingPeriodCtrl (pp_minPeriod c) (pp_maxPeriod c))
     else pp_minPeriod c = pp_maxPeriod c)"
  using assms
  by (auto simp: PollingPeriodCtrl_def Let_def fail_def not_less split: prod.splits option.splits if_splits)

lemma PollingPeriodCtrl_ok:
  assumes "PollingPeriodCtrl getenv envar = Inr (c, w)" "pp_maxPeriod c < 2 ^ 50"
  shows "pp_ok c"
  using PollingPeriodCtrl_cases [OF assms(1)] SlowStart_ok [OF _ assms(2)]
  by (auto simp: pp_ok_def split: if_splits)

lemma getPeriod_ok:
  assumes "pp_ok c" "pp_dynamic c \<Longrightarrow> 10 \<le> pp_maxPeriod c \<and> pp_maxPeriod c < 2 ^ 50"
  obtains p c' where "getPeriod c n m = Inr (p, c')" "pp_ok c'" "pp_minPeriod c \<le> p" "p \<le> pp_maxPeriod c"
    "pp_minPeriod c' = pp_minPeriod c" "pp_maxPeriod c' = pp_maxPeriod c" "pp_dynamic c' = pp_dynamic c"
proof (cases "pp_dynamic c")
  case False
  with assms(1) show thesis by (intro that [of "pp_maxPeriod c" c]) (auto simp: getPeriod_def pp_ok_def)
next
  case True
  let ?lo = "unat (pp_minPeriod c)" and ?hi = "unat (pp_maxPeriod c)"
  obtain d where d: "pp_dynamicCtrl c = Some d" "ss_ok ?lo ?hi d"
    using assms(1) True by (auto simp: pp_ok_def)
  have b: "?lo \<le> ?hi" "10 \<le> ?hi" "?hi < 2 ^ 50"
    using assms True by (auto simp: pp_ok_def word_le_nat_alt word_less_nat_alt)
  obtain d' where d': "slowstart_run d n = Inr (u64_of_double (ss_period d'), d')" "ss_ok ?lo ?hi d'"
    by (rule slowstart_run_ok [OF d(2) b])
  have "pp_minPeriod c \<le> u64_of_double (ss_period d')" "u64_of_double (ss_period d') \<le> pp_maxPeriod c"
    using u64_of_double_bounds [OF _ _ b(3), of ?lo "ss_period d'"] d'(2)
    by (auto simp: ss_ok_def word_le_nat_alt)
  with True d d' b show thesis
    by (intro that [of "u64_of_double (ss_period d')" "c\<lparr>pp_dynamicCtrl := Some d'\<rparr>"])
       (auto simp: getPeriod_def pp_ok_def word_le_nat_alt)
qed

section \<open>Properties\<close>


text \<open>The default configuration: \<open>TAMPI_POLLING_PERIOD\<close> not set.\<close>

lemma PollingPeriodCtrl_default:
  "PollingPeriodCtrl (\<lambda>_. None) envar =
     Inr (\<lparr>pp_minPeriod = 100, pp_maxPeriod = 100, pp_dynamic = False, pp_policy = ''slowstart'',
           pp_dynamicCtrl = None\<rparr>, [])"
proof -
  have s: "split (to_string 100) (CHR '':'') = [to_string 100]"
    using to_string_digits isdigit_facts(4) by (intro split_last) (blast, simp)
  have f: "filter (\<lambda>c. c = CHR '':'') (to_string 100) = []"
    using to_string_digits isdigit_facts(4) by (intro filter_delim) blast
  show ?thesis
    by (simp add: PollingPeriodCtrl_def EnvironmentVariable_def parse3_def s f parse_u64_to_string)
qed


text \<open>
  With a maximum period below 10 microseconds the policy leaves its bounds: the 50th miss in a
  row resets the period to 10, and an assertion of the controller fails.
\<close>

lemma slowstart_small_max:
  assumes "ss_maxPeriod c < 10" "ss_misses c = 49"
  shows "\<exists>what. slowstart_run c 0 = Inl (AssertFail what)"
  using assms by (auto simp: slowstart_run_def rassert_def Let_def)

end
