(* ===== verification/Polling.thy ===== *)
theory Polling
  imports Operation_Manager Period_Ctrl
begin

text \<open>
  \<open>Polling\<close> (src/src/common/polling/Polling.hpp) in the library for C: the two polling tasks, which the
  tasking model runs periodically, and their registration. The first checks the requests; the second,
  when the completion manager is enabled, notifies the completions.
\<close>

section \<open>Registration\<close>

record polling_state =
  po_pollingInstance :: "polling_instance option"
  po_completionInstance :: "polling_instance option"
  po_periodCtrl :: period_ctrl
  po_completionPeriodCtrl :: period_ctrl

definition Polling_initialize ::
    "('m, 'q, 'c) platform \<Rightarrow> polling_state \<Rightarrow> alpi_log \<Rightarrow> (polling_state \<times> alpi_log) result" where
  "Polling_initialize P po h =
     rbind (registerPolling (pf_rt P) h ''TAMPI'') (\<lambda>(i, h).
     let po = po\<lparr>po_pollingInstance := Some i\<rparr> in
     if pf_cm P then
       rbind (registerPolling (pf_rt P) h ''TAMPI Comp'') (\<lambda>(i, h).
       Inr (po\<lparr>po_completionInstance := Some i\<rparr>, h))
     else Inr (po, h))"

text \<open>
  \<open>finalize\<close>: \<open>finished k\<close> is what the \<open>k\<close>-th read of the flag of an instance sees. The instance is deleted;
  the pointer to it, which the source leaves dangling, is \<open>None\<close> afterwards.
\<close>

definition unregister ::
    "alpi \<Rightarrow> (nat \<Rightarrow> bool) \<Rightarrow> polling_instance option \<Rightarrow> alpi_log \<Rightarrow> alpi_log run" where
  "unregister rt finished inst h =
     (case inst of
        None \<Rightarrow> Some (Inl (AssertFail ''instance != nullptr''))
      | Some i \<Rightarrow> run_bind (unregisterPolling rt finished i h) (\<lambda>(_, h). ret h))"

definition Polling_finalize ::
    "('m, 'q, 'c) platform \<Rightarrow> (nat \<Rightarrow> bool) \<Rightarrow> (nat \<Rightarrow> bool) \<Rightarrow> polling_state \<Rightarrow> alpi_log \<Rightarrow> (polling_state \<times> alpi_log) run" where
  "Polling_finalize P finished1 finished2 po h =
     run_bind (unregister (pf_rt P) finished1 (po_pollingInstance po) h) (\<lambda>h.
     let po = po\<lparr>po_pollingInstance := None\<rparr> in
     if pf_cm P then
       run_bind (unregister (pf_rt P) finished2 (po_completionInstance po) h) (\<lambda>h.
       ret (po\<lparr>po_completionInstance := None\<rparr>, h))
     else ret (po, h))"

section \<open>The bodies of the polling tasks\<close>

text \<open>The results are the period until the next run, the state and the controller of the period.\<close>

definition polling ::
    "('m, 'q, 'c) platform \<Rightarrow> double \<Rightarrow> ('m, 'q, 'c) sys \<Rightarrow> period_ctrl \<Rightarrow>
     (u64 \<times> ('m, 'q, 'c) sys \<times> period_ctrl \<times> warnings) run" where
  "polling P now s ctrl =
     run_bind (checkRequests P now s 0) (\<lambda>(completed, pending, s, wn).
     run_bind (Some (getPeriod ctrl (of_nat completed) (of_nat pending))) (\<lambda>(period, ctrl).
     ret (period, s, ctrl, wn)))"

definition completions ::
    "('m, 'q, 'c) platform \<Rightarrow> ('m, 'q, 'c) sys \<Rightarrow> period_ctrl \<Rightarrow>
     (u64 \<times> ('m, 'q, 'c) sys \<times> period_ctrl) result" where
  "completions P s ctrl =
     rbind (process_completions (pf_C P) (pf_rt P) (sy_log s) (w_cq (sy_world s))) (\<lambda>(completed, q, h).
     rbind (getPeriod ctrl (of_nat completed) 0) (\<lambda>(period, ctrl).
     Inr (period, s\<lparr>sy_world := (sy_world s)\<lparr>w_log := h, w_cq := q\<rparr>\<rparr>, ctrl)))"

section \<open>Loops of the tasking model\<close>

text \<open>
  \<open>unregisterPolling\<close> waits in steps of one millisecond; if the flag is seen at the \<open>K\<close>-th read, it
  returns after \<open>K\<close> waits.
\<close>

lemma wait_finished_returns:
  assumes "rt_ok rt" "finished (k + d)" "\<And>j. j < d \<Longrightarrow> \<not> finished (k + j)"
  shows "wait_finished rt finished k h = ret (h @ replicate d (alpi_task_waitfor_ns 1000000))"
  using assms(2,3)
proof (induction d arbitrary: k h)
  case 0
  then show ?case by (subst wait_finished.simps) simp
next
  case (Suc d)
  have "\<not> finished k" using Suc.prems(2) [of 0] by simp
  moreover have "wait_finished rt finished (k + 1) (h @ [alpi_task_waitfor_ns 1000000]) =
      ret ((h @ [alpi_task_waitfor_ns 1000000]) @ replicate d (alpi_task_waitfor_ns 1000000))"
  proof (rule Suc.IH)
    show "finished (k + 1 + d)" using Suc.prems(1) by simp
    show "\<not> finished (k + 1 + j)" if "j < d" for j using Suc.prems(2) [of "Suc j"] that by simp
  qed
  ultimately show ?case
    by (subst wait_finished.simps) (simp add: alpi_checked_ok [OF assms(1)])
qed

text \<open>The runs of a polling function that the loop of \<open>genericPolling\<close> makes, each followed by a wait.\<close>

fun polling_runs ::
    "alpi \<Rightarrow> ('s \<Rightarrow> alpi_log \<Rightarrow> (u64 \<times> 's \<times> alpi_log) run) \<Rightarrow> nat \<Rightarrow> 's \<Rightarrow> alpi_log \<Rightarrow> ('s \<times> alpi_log) run" where
  "polling_runs rt f 0 s h = ret (s, h)"
| "polling_runs rt f (Suc n) s h =
     run_bind (f s h) (\<lambda>(target, s, h).
     run_bind (Some (alpi_checked rt h (alpi_task_waitfor_ns (target * 1000)))) (\<lambda>(_, h).
     polling_runs rt f n s h))"

lemma genericPolling_unrolls:
  assumes "mustFinish (k + d)" "\<And>j. j < d \<Longrightarrow> \<not> mustFinish (k + j)"
  shows "genericPolling rt f mustFinish k s h = polling_runs rt f d s h"
  using assms
proof (induction d arbitrary: k s h)
  case 0
  then show ?case by (subst genericPolling.simps) simp
next
  case (Suc d)
  have nf: "\<not> mustFinish k" using Suc.prems(2) [of 0] by simp
  have step: "genericPolling rt f mustFinish (k + 1) s h = polling_runs rt f d s h" for s h
  proof (rule Suc.IH)
    show "mustFinish (k + 1 + d)" using Suc.prems(1) by simp
    show "\<not> mustFinish (k + 1 + j)" if "j < d" for j using Suc.prems(2) [of "Suc j"] that by simp
  qed
  have "genericPolling rt f mustFinish (k + 1) = polling_runs rt f d" by (intro ext) (rule step)
  with nf show ?case by (subst genericPolling.simps) simp
qed

lemma Polling_finalize_ok:
  assumes "rt_ok (pf_rt P)" "po_pollingInstance po = Some i" "pf_cm P \<Longrightarrow> po_completionInstance po = Some j"
    and "finished1 K" "\<And>k. k < K \<Longrightarrow> \<not> finished1 k" "finished2 L" "\<And>k. k < L \<Longrightarrow> \<not> finished2 k"
  shows "Polling_finalize P finished1 finished2 po h =
    ret (po\<lparr>po_pollingInstance := None, po_completionInstance := (if pf_cm P then None else po_completionInstance po)\<rparr>,
         h @ replicate (K + (if pf_cm P then L else 0)) (alpi_task_waitfor_ns 1000000))"
  using assms(2-7) wait_finished_returns [OF assms(1), of finished1 0 K] wait_finished_returns [OF assms(1), of finished2 0 L]
  by (simp add: Polling_finalize_def unregister_def unregisterPolling_def Let_def replicate_add)

section \<open>Properties\<close>



definition sample_period :: period_ctrl where
  "sample_period = \<lparr>pp_minPeriod = 100, pp_maxPeriod = 100, pp_dynamic = False, pp_policy = ''slowstart'', pp_dynamicCtrl = None\<rparr>"

definition sample_instance :: polling_instance where
  "sample_instance = \<lparr>pi_name = ''TAMPI'', pi_mustFinish = False, pi_finished = False\<rparr>"

text \<open>
  The body of the polling task: on a platform that keeps its contracts it returns, it serves the
  operations as \<open>checkRequests\<close> does, and the period for the next run is within the configured bounds.
\<close>

lemma polling_serves:
  assumes "plat_ok P" "sys_ok P s" "sys_room P s"
    and "pp_ok ctrl" "pp_dynamic ctrl \<longrightarrow> 10 \<le> pp_maxPeriod ctrl \<and> pp_maxPeriod ctrl < 2 ^ 50"
  shows "\<exists>period s' ctrl' wn tcs. polling P now s ctrl = ret (period, s', ctrl', wn) \<and>
    pp_minPeriod ctrl \<le> period \<and> period \<le> pp_maxPeriod ctrl \<and> pp_ok ctrl' \<and> sys_ok P s' \<and>
    delivers P tcs (sy_world s) (sy_world s') \<and>
    mset tcs + (sys_queued P s' + sys_flight s') = sys_queued P s + sys_flight s"
proof -
  obtain n s' wn tcs where c: "checkRequests P now s 0 = ret (n, 0 + tm_pending (sy_tm s'), s', wn)"
    "sys_ok P s'" "delivers P tcs (sy_world s) (sy_world s')"
    "mset tcs + (sys_queued P s' + sys_flight s') = sys_queued P s + sys_flight s"
    using checkRequests_run [OF assms(1-3), of now 0] by blast
  obtain p ctrl' where p: "getPeriod ctrl (of_nat n) (of_nat (tm_pending (sy_tm s'))) = Inr (p, ctrl')" "pp_ok ctrl'"
    "pp_minPeriod ctrl \<le> p" "p \<le> pp_maxPeriod ctrl" "pp_minPeriod ctrl' = pp_minPeriod ctrl"
    "pp_maxPeriod ctrl' = pp_maxPeriod ctrl" "pp_dynamic ctrl' = pp_dynamic ctrl"
    by (rule getPeriod_ok [OF assms(4)]) (use assms(5) in auto)
  have "polling P now s ctrl = ret (p, s', ctrl', wn)" using c(1) p(1) by (simp add: polling_def)
  with c(2-4) p show ?thesis by blast
qed

lemma sample_period_facts:
  "pp_ok sample_period" "\<not> pp_dynamic sample_period" "pp_minPeriod sample_period = 100" "pp_maxPeriod sample_period = 100"
  by (simp_all add: sample_period_def pp_ok_def)

end
