(* ===== verification/Drain.thy ===== *)
theory Drain
  imports Polling
begin

text \<open>
  Progress of the polling task when MPI makes progress: if every test of active requests reports a completion, one run of
  \<open>checkRequests\<close> (src/src/common/TicketManager.hpp) empties the pre-queues and the arrays.
\<close>

section \<open>Tests that report\<close>

text \<open>The communication partners have done their part: MPI completes what it is asked for.\<close>

definition mpi_eager :: "'m mpi \<Rightarrow> bool" where
  "mpi_eager mpi \<longleftrightarrow>
     (\<forall>req m. req \<noteq> MPI_REQUEST_NULL mpi \<longrightarrow> (case MPI_Test mpi req m of ((err, req', completed, st), m') \<Rightarrow> completed)) \<and>
     (\<forall>reqs m. reqs \<noteq> [] \<and> MPI_REQUEST_NULL mpi \<notin> set reqs \<longrightarrow>
        (case MPI_Testany mpi reqs m of ((err, reqs', index, completed, st), m') \<Rightarrow> completed)) \<and>
     (\<forall>reqs m. reqs \<noteq> [] \<and> MPI_REQUEST_NULL mpi \<notin> set reqs \<longrightarrow>
        (case MPI_Testsome mpi reqs m of ((err, reqs', out), m') \<Rightarrow> out \<noteq> Some []))"

lemma internalTestRequests_eager:
  assumes "mpi_eager mpi" "approach \<noteq> Approach_None" "reqs \<noteq> []" "MPI_REQUEST_NULL mpi \<notin> set reqs"
    and "internalTestRequests mpi approach reqs m = Inr (cs, reqs', m')"
  shows "cs \<noteq> []"
proof (cases approach)
  case Approach_Test
  obtain r rs where r: "reqs = r # rs" "r \<noteq> MPI_REQUEST_NULL mpi" using assms(3,4) by (cases reqs) auto
  then have "case MPI_Test mpi r m of ((err, req', completed, st), m') \<Rightarrow> completed"
    using assms(1) by (simp add: mpi_eager_def)
  with r(1) show ?thesis
    using assms(5) Approach_Test
    by (auto simp: internalTestRequests_def interface_test_def rbind_eq_Inr Let_def split: prod.splits if_splits)
next
  case Approach_TestAny
  have "case MPI_Testany mpi reqs m of ((err, reqs', index, completed, st), m') \<Rightarrow> completed"
    using assms(1,3,4) by (simp add: mpi_eager_def)
  with Approach_TestAny show ?thesis
    using assms(3,5)
    by (auto simp: internalTestRequests_def testany_loop.simps [of mpi "length reqs" reqs 0] interface_testany_def
        rbind_eq_Inr Let_def split: prod.splits if_splits option.splits)
next
  case Approach_TestSome
  have "case MPI_Testsome mpi reqs m of ((err, reqs', out), m') \<Rightarrow> out \<noteq> Some []"
    using assms(1,3,4) by (simp add: mpi_eager_def)
  with Approach_TestSome show ?thesis
    using assms(5)
    by (auto simp: internalTestRequests_def interface_testsome_def Let_def split: prod.splits if_splits option.splits)
qed (use assms(2) in simp)

lemma check_batch_eager:
  assumes "mpi_eager (pf_mpi P)" "approach \<noteq> Approach_None" "flight_ok (pf_mpi P) cap a checked n" "checked + k \<le> n" "0 < k"
    and "check_batch P approach a checked k w = Inr (idx, a', w')"
  shows "idx \<noteq> []"
proof -
  have len: "checked + k \<le> length (ar_requests a)" using assms(3,4) by (auto simp: flight_ok_def ar_ok_def)
  let ?reqs = "take k (drop checked (ar_requests a))"
  obtain cs reqs' m' where "internalTestRequests (pf_mpi P) approach ?reqs (w_mpi w) = Inr (cs, reqs', m')"
    "idx = map (\<lambda>(i, _). checked + i) cs"
    using assms(6) len by (auto simp: check_batch_def rbind_eq_Inr Let_def)
  moreover have "?reqs \<noteq> []" using len assms(5) by auto
  moreover have "MPI_REQUEST_NULL (pf_mpi P) \<notin> set ?reqs"
    using assms(3,4) len by (fastforce simp: flight_ok_def in_set_conv_nth)
  ultimately show ?thesis using internalTestRequests_eager [OF assms(1,2), of ?reqs] by blast
qed

lemma internalCheckRequests_eager:
  assumes "mpi_eager (pf_mpi P)" "tm_ok (pf_mpi P) tm" "0 < tm_pending tm"
    and "internalCheckRequests P tm w = Inr (completed, tm', w')"
  shows "0 < completed"
proof -
  let ?n = "tm_pending tm" and ?k = "min (tm_pending tm) BatchSize"
  obtain indices a1 w1 where b: "check_batches P (tm_generalTesting tm) ?n (tm_arrays tm) 0 w = Inr (indices, a1, w1)"
    "completed = length indices"
    using assms(4) by (auto simp: internalCheckRequests_def rbind_eq_Inr Let_def)
  obtain idx a2 w2 where c: "check_batch P (tm_generalTesting tm) (tm_arrays tm) 0 ?k w = Inr (idx, a2, w2)"
    "\<exists>rest. indices = idx @ rest"
    using b(1) by (subst (asm) check_batches.simps) (auto simp: rbind_eq_Inr Let_def split: if_splits)
  have "idx \<noteq> []"
    using check_batch_eager [OF assms(1) _ tm_ok_flight [OF assms(2)] _ _ c(1)] assms(2,3) by (auto simp: tm_ok_def)
  then show ?thesis using b(2) c(2) by auto
qed

section \<open>An idle iteration\<close>

lemma idle_after_empty:
  assumes "plat_ok P" "mpi_eager (pf_mpi P)" "idle_after P s"
  shows "tm_pending (sy_tm s) = 0"
proof (rule ccontr)
  assume pend: "tm_pending (sy_tm s) \<noteq> 0"
  obtain s0 where s0: "sys_ok P s0" "sys_room P s0" "check_step P s0 = ret (0, 0, s)"
    using assms(3) by (auto simp: idle_after_def)
  obtain k s1 tcs1 where i:
    "(if int (tm_pending (sy_tm s0)) < cc_get (tm_capacityCtrl (sy_tm s0))
      then internalCheckOperationQueues P (int (BatchSize * 2)) s0 else ret (0, s0)) = ret (int k, s1)" "serves P tcs1 s0 s1"
    by (rule insert_phase [OF assms(1) s0(1,2)])
  have step: "run_bind (if tm_pending (sy_tm s1) \<noteq> 0
      then Some (rbind (internalCheckRequests P (sy_tm s1) (sy_world s1)) (\<lambda>(completed, tm, w).
        Inr (completed, s1\<lparr>sy_tm := tm, sy_world := w\<rparr>))) else ret (0, s1)) (\<lambda>(completed, s). ret (int k, completed, s)) = ret (0, 0, s)"
    using s0(3) unfolding check_step_def i(1) by simp
  show False
  proof (cases "tm_pending (sy_tm s1) = 0")
    case True
    then show False using step pend by simp
  next
    case False
    then obtain tm w where c: "internalCheckRequests P (sy_tm s1) (sy_world s1) = Inr (0, tm, w)"
      using step by (auto simp: run_bind_eq_ret rbind_eq_Inr)
    have "tm_ok (pf_mpi P) (sy_tm s1)" "0 < tm_pending (sy_tm s1)"
      using serves_ok [OF i(2)] False by (auto simp: sys_ok_def)
    then show False using internalCheckRequests_eager [OF assms(2) _ _ c] by simp
  qed
qed

section \<open>Draining\<close>

lemma checkRequests_drains:
  assumes "plat_ok P" "sys_ok P s" "sys_room P s" "mpi_eager (pf_mpi P)" "0 < cc_get (tm_capacityCtrl (sy_tm s))"
  shows "\<exists>completed s' wn tcs. checkRequests P now s pending = ret (completed, pending, s', wn) \<and> sys_ok P s' \<and>
    delivers P tcs (sy_world s) (sy_world s') \<and> mset tcs = sys_queued P s + sys_flight s \<and>
    sys_queued P s' = {#} \<and> sys_flight s' = {#}"
proof -
  obtain completed s' wn tcs s1 where c:
    "checkRequests P now s pending = ret (completed, pending + tm_pending (sy_tm s'), s', wn)"
    "sys_ok P s'" "delivers P tcs (sy_world s) (sy_world s')"
    "mset tcs + (sys_queued P s' + sys_flight s') = sys_queued P s + sys_flight s"
    "sys_queued P s' = {#} \<or> int (tm_pending (sy_tm s')) = cc_get (tm_capacityCtrl (sy_tm s))"
    "idle_after P s1" "tm_pending (sy_tm s1) = tm_pending (sy_tm s')"
    using checkRequests_idle [OF assms(1-3), of now pending] by blast
  have z: "tm_pending (sy_tm s') = 0" using idle_after_empty [OF assms(1,4) c(6)] c(7) by simp
  then have "sys_flight s' = {#}" by (metis size_sys_flight size_eq_0_iff_empty)
  moreover have "sys_queued P s' = {#}" using c(5) z assms(5) by auto
  ultimately show ?thesis using c(1-4) z by auto
qed

text \<open>The period of a controller is within its bounds, which are in the range that the controller was made for.\<close>

definition period_ok :: "period_ctrl \<Rightarrow> bool" where
  "period_ok ctrl \<longleftrightarrow> pp_ok ctrl \<and> (pp_dynamic ctrl \<longrightarrow> 10 \<le> pp_maxPeriod ctrl \<and> pp_maxPeriod ctrl < 2 ^ 50)"

lemma getPeriod_returns:
  assumes "period_ok ctrl"
  obtains p ctrl' where "getPeriod ctrl n m = Inr (p, ctrl')" "period_ok ctrl'"
  using assms by (auto simp: period_ok_def elim!: getPeriod_ok [of ctrl n m])

lemma polling_drains:
  assumes "plat_ok P" "sys_ok P s" "sys_room P s" "mpi_eager (pf_mpi P)" "0 < cc_get (tm_capacityCtrl (sy_tm s))" "period_ok ctrl"
  obtains period s' ctrl' wn where "polling P now s ctrl = ret (period, s', ctrl', wn)" "sys_ok P s'"
    "sys_queued P s' = {#}" "sys_flight s' = {#}"
proof -
  obtain n s' wn where c: "checkRequests P now s 0 = ret (n, 0, s', wn)" "sys_ok P s'" "sys_queued P s' = {#}" "sys_flight s' = {#}"
    using checkRequests_drains [OF assms(1-5), of now 0] by blast
  obtain p ctrl' where "getPeriod ctrl (of_nat n) (of_nat 0) = Inr (p, ctrl')"
    by (rule getPeriod_returns [OF assms(6)])
  with c that show thesis by (simp add: polling_def)
qed

lemma completions_empties:
  assumes "plat_ok P" "period_ok ctrl"
  obtains period s' ctrl' where "completions P s ctrl = Inr (period, s', ctrl')" "sys_queued P s' = sys_queued P s"
    "sys_flight s' = sys_flight s" "spsc_contents (pf_C P) (w_cq (sy_world s')) = []"
proof -
  have P: "spsc_ok (pf_C P)" "rt_ok (pf_rt P)" using assms(1) by (auto simp: plat_ok_def)
  obtain n q' h where q: "process_completions (pf_C P) (pf_rt P) (sy_log s) (w_cq (sy_world s)) = Inr (n, q', h)"
    "spsc_contents (pf_C P) q' = []"
    using process_completions_queue [OF P, of "sy_log s" "w_cq (sy_world s)"] by blast
  obtain p ctrl' where "getPeriod ctrl (of_nat n) 0 = Inr (p, ctrl')" by (rule getPeriod_returns [OF assms(2)])
  then have "completions P s ctrl = Inr (p, s\<lparr>sy_world := (sy_world s)\<lparr>w_log := h, w_cq := q'\<rparr>\<rparr>, ctrl')"
    using q(1) by (simp add: completions_def)
  then show thesis by (rule that) (simp_all add: sys_queued_def sys_flight_def q(2))
qed

section \<open>A sample\<close>

definition eager_mpi :: "nat mpi" where
  "eager_mpi = sample_mpi\<lparr>MPI_Test := (\<lambda>r m. ((0, 0, True, sample_status r), m)),
     MPI_Testany := (\<lambda>rs m. ((0, 0 # tl rs, Some 0, True, sample_status (hd rs)), m)),
     MPI_Testsome := (\<lambda>rs m. ((0, map (\<lambda>_. 0) rs, Some (map (\<lambda>i. (i, sample_status (rs ! i))) [0..<length rs])), m))\<rparr>"

lemma eager_mpi_ok:
  "mpi_test_ok eager_mpi" "mpi_testany_ok eager_mpi" "mpi_testsome_ok eager_mpi" "mpi_issue_ok eager_mpi" "mpi_eager eager_mpi"
proof -
  show "mpi_test_ok eager_mpi" "mpi_eager eager_mpi" by (simp_all add: mpi_test_ok_def mpi_eager_def eager_mpi_def)
  show "mpi_issue_ok eager_mpi" by (simp add: mpi_issue_ok_def eager_mpi_def) (simp add: sample_mpi_def)
  show "mpi_testany_ok eager_mpi"
    by (auto simp: mpi_testany_ok_def eager_mpi_def unchanged_except_def nth_Cons' nth_tl)
  show "mpi_testsome_ok eager_mpi"
    by (auto simp: mpi_testsome_ok_def eager_mpi_def unchanged_except_def comp_def image_image)
qed

lemma sample_period_ok: "period_ok sample_period"
  by (simp add: period_ok_def sample_period_facts)

end
