(* ===== verification/Reachability.thy ===== *)
theory Reachability
  imports Tampi_Prelude
begin

text \<open>
  The states that a step relation reaches, and the contract of an invariant: it holds in the
  states where a run starts and every step keeps it. Each step relation of the development (the threads
  of the spinlock, the life cycle of the environment, the tasks of the library, a whole process) interprets it.

  A refinement is such an invariant together with an abstraction function: a start is abstracted to
  a start, and a step to any number of steps of the abstract machine.
\<close>

inductive reachable :: "('s \<Rightarrow> bool) \<Rightarrow> ('s \<Rightarrow> 's \<Rightarrow> bool) \<Rightarrow> 's \<Rightarrow> bool"
  for start :: "'s \<Rightarrow> bool" and step :: "'s \<Rightarrow> 's \<Rightarrow> bool" where
  reach_start: "start s \<Longrightarrow> reachable start step s"
| reach_step: "reachable start step s \<Longrightarrow> step s s' \<Longrightarrow> reachable start step s'"

locale preserved =
  fixes start :: "'s \<Rightarrow> bool"
    and step :: "'s \<Rightarrow> 's \<Rightarrow> bool"
    and inv :: "'s \<Rightarrow> bool"
  assumes start_inv: "start s \<Longrightarrow> inv s"
    and step_inv: "inv s \<Longrightarrow> step s s' \<Longrightarrow> inv s'"
begin

lemma reachable_inv: "reachable start step s \<Longrightarrow> inv s"
  by (induction rule: reachable.induct) (auto intro: start_inv step_inv)

end

lemma reachable_steps:
  assumes "step\<^sup>*\<^sup>* s s'" "reachable start step s"
  shows "reachable start step s'"
  using assms by (induction rule: rtranclp_induct) (auto intro: reach_step)

locale refinement = preserved start step inv
  for start :: "'s \<Rightarrow> bool" and step :: "'s \<Rightarrow> 's \<Rightarrow> bool" and inv :: "'s \<Rightarrow> bool" +
  fixes spec_start :: "'a \<Rightarrow> bool"
    and spec_step :: "'a \<Rightarrow> 'a \<Rightarrow> bool"
    and abs :: "'s \<Rightarrow> 'a"
  assumes refine_start: "start s \<Longrightarrow> spec_start (abs s)"
    and refine_step: "inv s \<Longrightarrow> step s s' \<Longrightarrow> spec_step\<^sup>*\<^sup>* (abs s) (abs s')"
begin

lemma reachable_spec: "reachable start step s \<Longrightarrow> reachable spec_start spec_step (abs s)"
proof (induction rule: reachable.induct)
  case (reach_start s)
  then show ?case by (intro reachable.reach_start refine_start)
next
  case (reach_step s s')
  then show ?case using reachable_steps [OF refine_step [OF reachable_inv]] by blast
qed

end

end
