(* ===== verification/Notification_Spec.thy ===== *)
theory Notification_Spec
  imports Reachability Task_Context "HOL-Library.Sublist"
begin

text \<open>
  What the library promises to the tasks, as an abstract machine: a bag of operations that are not finished
  and the history of the operations that were submitted and of the notifications that were sent. An
  operation may be submitted at any time; a notification takes an operation out of the bag. Queues,
  arrays, batches, requests and the completion task are all absent.
\<close>

section \<open>The machine\<close>

datatype notification = Submit TaskContext | Notify TaskContext

record notifier =
  no_pending :: "TaskContext multiset"
  no_history :: "notification list"

abbreviation notifier_start :: "notifier \<Rightarrow> bool" where
  "notifier_start a \<equiv> a = \<lparr>no_pending = {#}, no_history = []\<rparr>"

inductive notifier_step :: "notifier \<Rightarrow> notifier \<Rightarrow> bool" where
  submit: "notifier_step \<lparr>no_pending = pend, no_history = h\<rparr>
    \<lparr>no_pending = add_mset tc pend, no_history = h @ [Submit tc]\<rparr>"
| notify: "notifier_step \<lparr>no_pending = add_mset tc pend, no_history = h\<rparr>
    \<lparr>no_pending = pend, no_history = h @ [Notify tc]\<rparr>"

inductive_cases notifier_stepE: "notifier_step a a'"

abbreviation notifier_run :: "notifier \<Rightarrow> bool" where
  "notifier_run \<equiv> reachable notifier_start notifier_step"

lemma notify_all:
  "notifier_step\<^sup>*\<^sup>* \<lparr>no_pending = mset tcs + pend, no_history = h\<rparr>
     \<lparr>no_pending = pend, no_history = h @ map Notify tcs\<rparr>"
proof (induction tcs arbitrary: h)
  case (Cons tc tcs)
  have "notifier_step \<lparr>no_pending = mset (tc # tcs) + pend, no_history = h\<rparr>
      \<lparr>no_pending = mset tcs + pend, no_history = h @ [Notify tc]\<rparr>"
    using notify [of tc "mset tcs + pend" h] by simp
  then show ?case using Cons [of "h @ [Notify tc]"] by (auto intro: converse_rtranclp_into_rtranclp)
qed simp

section \<open>Its invariant\<close>

text \<open>
  In every prefix of the history an operation was notified at most as often as it was submitted, and what
  is pending is the difference.
\<close>

definition ordered_history :: "notification list \<Rightarrow> bool" where
  "ordered_history h \<longleftrightarrow> (\<forall>p tc. prefix p h \<longrightarrow> count_list p (Notify tc) \<le> count_list p (Submit tc))"

definition notifier_inv :: "notifier \<Rightarrow> bool" where
  "notifier_inv a \<longleftrightarrow> ordered_history (no_history a) \<and>
     (\<forall>tc. count_list (no_history a) (Submit tc) = count_list (no_history a) (Notify tc) + count (no_pending a) tc)"

lemma ordered_history_snoc:
  "ordered_history (h @ [e]) \<longleftrightarrow> ordered_history h \<and>
     (\<forall>tc. count_list (h @ [e]) (Notify tc) \<le> count_list (h @ [e]) (Submit tc))"
  unfolding ordered_history_def prefix_snoc by blast

interpretation notifier: preserved notifier_start notifier_step notifier_inv
proof
  show "notifier_inv a" if "notifier_start a" for a
    using that by (simp add: notifier_inv_def ordered_history_def)
  show "notifier_inv a'" if "notifier_inv a" "notifier_step a a'" for a a'
    using that(2,1) by (cases rule: notifier_step.cases) (simp_all add: notifier_inv_def ordered_history_snoc)
qed

section \<open>Histories of the calls to the runtime\<close>

text \<open>
  The calls to the runtime that submit or notify: a task is paused by its blocking operations and resumed
  by their completion; its events are increased and decreased by the non-blocking ones.
\<close>

fun call_events :: "alpi_call \<Rightarrow> notification list" where
  "call_events (alpi_task_block t) = [Submit \<lparr>tc_blocking = True, tc_taskHandle = t\<rparr>]"
| "call_events (alpi_task_unblock t) = [Notify \<lparr>tc_blocking = True, tc_taskHandle = t\<rparr>]"
| "call_events (alpi_task_events_increase t n) = replicate (unat n) (Submit \<lparr>tc_blocking = False, tc_taskHandle = t\<rparr>)"
| "call_events (alpi_task_events_decrease t n) = replicate (unat n) (Notify \<lparr>tc_blocking = False, tc_taskHandle = t\<rparr>)"
| "call_events _ = []"

definition log_history :: "alpi_log \<Rightarrow> notification list" where
  "log_history h = concat (map call_events h)"

lemma log_history_simps [simp]:
  "log_history [] = []" "log_history (c # h) = call_events c @ log_history h"
  "log_history (h @ h') = log_history h @ log_history h'"
  by (simp_all add: log_history_def)

lemma log_history_completions [simp]: "log_history (map completion_call tcs) = map Notify tcs"
proof -
  have "call_events (completion_call tc) = [Notify tc]" for tc
    by (cases tc) (simp add: completion_call_def)
  then show ?thesis by (induction tcs) simp_all
qed

end
