(* ===== verification/Tampi_Runs.thy ===== *)
theory Tampi_Runs
  imports Drain Notification_Spec
begin

text \<open>
  Runs of the library: the calls of the tasks, the polling task and the completion task in any order.
  A step is one call of a task up to its return or its pause, or one run of the body of a polling task.
  Each task calls with its own view \<open>rt\<close> of the runtime, which answers with its handle and its CPU;
  a call takes its step when its guards hold, that is, there is an object to allocate and room in the
  queue, and a polling step when the queue of the completion manager has room.
\<close>

section \<open>Steps\<close>

abbreviation as_task :: "alpi \<Rightarrow> ('m, 'q, 'c) platform \<Rightarrow> ('m, 'q, 'c) platform" where
  "as_task rt P \<equiv> P\<lparr>pf_rt := rt\<rparr>"

inductive tampi_step :: "('m, 'q, 'c) platform \<Rightarrow> ('m, 'q, 'c) sys \<Rightarrow> ('m, 'q, 'c) sys \<Rightarrow> bool"
  for P :: "('m, 'q, 'c) platform" where
  call_p2p: "rt_ok rt \<Longrightarrow> caller_ok rt t cpu \<Longrightarrow> can_alloc (pf_B P) (al_operation (sy_alloc s)) cpu \<Longrightarrow>
    cpu < mq_queues (tm_p2pOperations (sy_tm s)) \<Longrightarrow>
    mq_used (tm_p2pOperations (sy_tm s)) cpu + 1 < mq_capacity (tm_p2pOperations (sy_tm s)) \<Longrightarrow>
    op_ok (pf_mpi P) (mk t) \<Longrightarrow> op_context (mk t) = \<lparr>tc_blocking = (nature = BLK), tc_taskHandle = t\<rparr> \<Longrightarrow>
    process_p2p (as_task rt P) env nature mk s = ret s' \<Longrightarrow> tampi_step P s s'"
| call_coll: "rt_ok rt \<Longrightarrow> caller_ok rt t cpu \<Longrightarrow> can_alloc (pf_B P) (al_coll (sy_alloc s)) cpu \<Longrightarrow>
    length (bq_contents (pf_B P) (tm_collOperations (sy_tm s))) + 1 \<le>
      spsc_capacity (pf_B P) (bq_queue (tm_collOperations (sy_tm s))) \<Longrightarrow>
    coll_ok (mk' t) \<Longrightarrow> coll_context (mk' t) = \<lparr>tc_blocking = (nature = BLK), tc_taskHandle = t\<rparr> \<Longrightarrow>
    process_coll (as_task rt P) env' nature mk' s = ret s' \<Longrightarrow> tampi_step P s s'"
| poll: "sys_room P s \<Longrightarrow> polling P now s ctrl = ret (period, s', ctrl', wn) \<Longrightarrow> tampi_step P s s'"
| complete: "pf_cm P \<Longrightarrow> completions P s ctrl = Inr (period, s', ctrl') \<Longrightarrow> tampi_step P s s'"

text \<open>The contexts of all operations whose task is not notified yet.\<close>

definition sys_pending :: "('m, 'q, 'c) platform \<Rightarrow> ('m, 'q, 'c) sys \<Rightarrow> TaskContext multiset" where
  "sys_pending P s = sys_queued P s + sys_flight s +
     (if pf_cm P then mset (spsc_contents (pf_C P) (w_cq (sy_world s))) else {#})"

definition sys_start :: "('m, 'q, 'c) platform \<Rightarrow> ('m, 'q, 'c) sys \<Rightarrow> bool" where
  "sys_start P s \<longleftrightarrow> sys_ok P s \<and> sys_pending P s = {#} \<and> sy_log s = []"

abbreviation tampi_run :: "('m, 'q, 'c) platform \<Rightarrow> ('m, 'q, 'c) sys \<Rightarrow> bool" where
  "tampi_run P \<equiv> reachable (sys_start P) (tampi_step P)"

section \<open>Invariant\<close>

text \<open>Calls that neither pause or resume a task nor bind or fulfil events.\<close>

definition quiet :: "alpi_log \<Rightarrow> bool" where
  "quiet calls \<longleftrightarrow> (\<forall>t n. alpi_task_block t \<notin> set calls \<and> alpi_task_unblock t \<notin> set calls \<and>
     alpi_task_events_increase t n \<notin> set calls \<and> alpi_task_events_decrease t n \<notin> set calls)"

lemma adds_operation_as_task:
  "adds_operation (as_task rt P) tc call calls s s' = adds_operation P tc call calls s s'"
  by (simp add: adds_operation_def sys_ok_def sys_queued_def sys_calls_def)

lemma as_task_ok [simp]:
  "plat_ok P \<Longrightarrow> rt_ok rt \<Longrightarrow> plat_ok (as_task rt P)" "sys_ok (as_task rt P) s = sys_ok P s"
  by (simp_all add: plat_ok_def sys_ok_def)

text \<open>
  The effect of a step on the bag of pending operations and on the log: a call submits an operation, and the
  polling and completion tasks notify some of the pending ones, or only move them towards their notification.
\<close>

definition submits :: "('m, 'q, 'c) platform \<Rightarrow> ('m, 'q, 'c) sys \<Rightarrow> ('m, 'q, 'c) sys \<Rightarrow> bool" where
  "submits P s s' \<longleftrightarrow> (\<exists>nature t calls. set calls \<subseteq> {alpi_cpu_logical_id} \<and>
     sy_log s' = sy_log s @ process_calls nature t calls \<and>
     sys_pending P s' = add_mset \<lparr>tc_blocking = (nature = BLK), tc_taskHandle = t\<rparr> (sys_pending P s))"

definition notifies :: "('m, 'q, 'c) platform \<Rightarrow> ('m, 'q, 'c) sys \<Rightarrow> ('m, 'q, 'c) sys \<Rightarrow> bool" where
  "notifies P s s' \<longleftrightarrow> (\<exists>tcs. sy_log s' = sy_log s @ map completion_call tcs \<and>
     sys_pending P s = mset tcs + sys_pending P s')"

lemma adds_operation_submits:
  assumes "adds_operation P \<lparr>tc_blocking = (nature = BLK), tc_taskHandle = t\<rparr> c (process_calls nature t calls) s s'"
    and "set calls \<subseteq> {alpi_cpu_logical_id}"
  shows "sys_ok P s' \<and> submits P s s'"
  using assms unfolding submits_def
  by (intro conjI exI [of _ nature] exI [of _ t] exI [of _ calls]) (auto simp: adds_operation_def sys_pending_def)

lemma delivers_notifies:
  assumes "delivers P tcs (sy_world s) (sy_world s')"
    and "mset tcs + (sys_queued P s' + sys_flight s') = sys_queued P s + sys_flight s"
  shows "notifies P s s'"
proof (cases "pf_cm P")
  case True
  then show ?thesis
    using assms unfolding notifies_def
    by (intro exI [of _ "[]"]) (simp add: delivers_def sys_pending_def assms(2) [symmetric])
next
  case False
  then show ?thesis
    using assms unfolding notifies_def
    by (intro exI [of _ tcs]) (simp add: delivers_def sys_pending_def)
qed

lemma polling_result:
  assumes "polling P now s ctrl = ret (period, s', ctrl', wn)"
  obtains n pend where "checkRequests P now s 0 = ret (n, pend, s', wn)"
  using assms by (auto simp: polling_def run_bind_eq_ret split: prod.splits)

lemma completions_notifies:
  assumes "plat_ok P" "sys_ok P s" "pf_cm P" "completions P s ctrl = Inr (period, s', ctrl')"
  shows "sys_ok P s' \<and> notifies P s s' \<and> keeps_held P s s'"
proof -
  let ?tcs = "spsc_contents (pf_C P) (w_cq (sy_world s))"
  have P: "spsc_ok (pf_C P)" "rt_ok (pf_rt P)" using assms(1) by (auto simp: plat_ok_def)
  obtain q' where q': "process_completions (pf_C P) (pf_rt P) (sy_log s) (w_cq (sy_world s)) =
      Inr (length ?tcs, q', sy_log s @ map completion_call ?tcs)" "spsc_contents (pf_C P) q' = []"
    using process_completions_queue [OF P, of "sy_log s" "w_cq (sy_world s)"] by blast
  have s': "s' = s\<lparr>sy_world := (sy_world s)\<lparr>w_log := sy_log s @ map completion_call ?tcs, w_cq := q'\<rparr>\<rparr>"
    using assms(4) q'(1) by (auto simp: completions_def rbind_def split: sum.splits)
  have "sys_ok P s'" using assms(2) by (simp add: s' sys_ok_def)
  moreover have "notifies P s s'"
    unfolding notifies_def using assms(3) q'(2)
    by (intro exI [of _ ?tcs]) (simp add: s' sys_pending_def sys_queued_def sys_flight_def)
  moreover have "keeps_held P s s'" by (simp add: s' keeps_held_def)
  ultimately show ?thesis by blast
qed

lemma polling_notifies:
  assumes "plat_ok P" "sys_ok P s" "sys_room P s" "polling P now s ctrl = ret (period, s', ctrl', wn)"
  shows "sys_ok P s' \<and> notifies P s s' \<and> keeps_held P s s'"
proof -
  obtain n pend where c: "checkRequests P now s 0 = ret (n, pend, s', wn)"
    by (rule polling_result [OF assms(4)])
  obtain tcs where "sys_ok P s'" "delivers P tcs (sy_world s) (sy_world s')"
    "mset tcs + (sys_queued P s' + sys_flight s') = sys_queued P s + sys_flight s" "keeps_held P s s'"
    using checkRequests_run [OF assms(1-3), of now 0] c by auto
  then show ?thesis using delivers_notifies by blast
qed

lemma tampi_step_effect:
  assumes "tampi_step P s s'" "plat_ok P" "sys_ok P s"
  shows "sys_ok P s' \<and> (submits P s s' \<or> notifies P s s')"
  using assms(1)
proof cases
  case (call_p2p rt t cpu mk nature env)
  have "adds_operation (as_task rt P) \<lparr>tc_blocking = (nature = BLK), tc_taskHandle = t\<rparr> (op_call (mk t))
      (process_calls nature t [alpi_cpu_logical_id]) s s'"
    using process_p2p_adds [of "as_task rt P" s t cpu mk nature env] call_p2p assms(2,3) by auto
  then show ?thesis unfolding adds_operation_as_task by (auto dest: adds_operation_submits)
next
  case (call_coll rt t cpu mk nature env)
  have "adds_operation (as_task rt P) \<lparr>tc_blocking = (nature = BLK), tc_taskHandle = t\<rparr> (coll_call (mk t))
      (process_calls nature t []) s s'"
    using process_coll_adds [of "as_task rt P" s t cpu mk nature env] call_coll assms(2,3) by auto
  then show ?thesis unfolding adds_operation_as_task by (auto dest: adds_operation_submits)
next
  case (poll now ctrl period ctrl' wn)
  then show ?thesis using polling_notifies [OF assms(2,3)] by blast
next
  case (complete ctrl period ctrl')
  then show ?thesis using completions_notifies [OF assms(2,3)] by blast
qed

section \<open>Refinement of the notifier\<close>

definition sys_abs :: "('m, 'q, 'c) platform \<Rightarrow> ('m, 'q, 'c) sys \<Rightarrow> notifier" where
  "sys_abs P s = \<lparr>no_pending = sys_pending P s, no_history = log_history (sy_log s)\<rparr>"

lemma log_history_cpu: "set calls \<subseteq> {alpi_cpu_logical_id} \<Longrightarrow> log_history calls = []"
  by (induction calls) auto

lemma log_history_quiet: "quiet calls \<Longrightarrow> log_history calls = []"
proof (induction calls)
  case (Cons c calls)
  then show ?case by (cases c) (auto simp: quiet_def)
qed simp

lemma submits_refines: "submits P s s' \<Longrightarrow> notifier_step (sys_abs P s) (sys_abs P s')"
proof -
  assume "submits P s s'"
  then obtain nature t calls where c: "set calls \<subseteq> {alpi_cpu_logical_id}"
    "sy_log s' = sy_log s @ process_calls nature t calls"
    "sys_pending P s' = add_mset \<lparr>tc_blocking = (nature = BLK), tc_taskHandle = t\<rparr> (sys_pending P s)"
    by (auto simp: submits_def)
  have "log_history (process_calls nature t calls) = [Submit \<lparr>tc_blocking = (nature = BLK), tc_taskHandle = t\<rparr>]"
    by (simp add: process_calls_def log_history_cpu [OF c(1)])
  then show ?thesis unfolding sys_abs_def c(2,3) by (simp add: submit)
qed

lemma notifies_refines: "notifies P s s' \<Longrightarrow> notifier_step\<^sup>*\<^sup>* (sys_abs P s) (sys_abs P s')"
  using notify_all by (auto simp: notifies_def sys_abs_def)

interpretation runs: refinement "\<lambda>s. plat_ok P \<and> sys_start P s" "tampi_step P" "\<lambda>s. plat_ok P \<and> sys_ok P s"
  notifier_start notifier_step "sys_abs P" for P
proof
  show "plat_ok P \<and> sys_ok P s" if "plat_ok P \<and> sys_start P s" for s using that by (simp add: sys_start_def)
  show "plat_ok P \<and> sys_ok P s'" if "plat_ok P \<and> sys_ok P s" "tampi_step P s s'" for s s'
    using that tampi_step_effect by blast
  show "notifier_start (sys_abs P s)" if "plat_ok P \<and> sys_start P s" for s
    using that by (simp add: sys_start_def sys_abs_def)
  show "notifier_step\<^sup>*\<^sup>* (sys_abs P s) (sys_abs P s')" if "plat_ok P \<and> sys_ok P s" "tampi_step P s s'" for s s'
    using that tampi_step_effect submits_refines notifies_refines by blast
qed

section \<open>Properties\<close>

text \<open>
  In every run of the library, whatever the order of the calls and of the polling tasks: each pause
  of a task by a blocking operation is followed by at most one resume, each event bound by a
  non-blocking operation is fulfilled at most once, none before its operation was submitted, and those that are not yet are exactly the operations
  of the task that are queued, in flight or waiting for the completion task. So no completion is
  lost or notified twice, and once nothing is pending every task was notified.
\<close>

lemma notified_exactly_once:
  assumes "plat_ok P" "tampi_run P s"
  shows "sys_ok P s \<and> ordered_history (log_history (sy_log s)) \<and>
    (\<forall>tc. count_list (log_history (sy_log s)) (Submit tc) =
       count_list (log_history (sy_log s)) (Notify tc) + count (sys_pending P s) tc)"
  using runs.reachable_inv [of P s] notifier.reachable_inv [OF runs.reachable_spec [of P s]] assms
  by (simp add: notifier_inv_def sys_abs_def)

end
