(* ===== verification/Instrument.thy ===== *)
theory Instrument
  imports Tampi_Prelude
begin

text \<open>
  The instrumentation (src/src/common/instrument): the points, the choice of the backend by
  \<open>TAMPI_INSTRUMENT\<close>, and the ovni backend, which emits an event at the entry to and at the exit from
  each point. The ovni library is third-party code: the calls to it are recorded in a list.
\<close>

section \<open>Points and backends\<close>

datatype InstrumentPoint =
  AddQueues | CheckGlobalRequestArray | CompletedRequest | CreateTicket | IssueNonBlockingOp |
  LibraryInterface | LibraryPolling | TestAllRequests | TestRequest | TestSomeRequests |
  TransferQueues | WaitTicket

datatype ovni_call =
  ovni_proc_set_rank int int | ovni_thread_require string string | ovni_ev_emit string

definition Subsystems :: "InstrumentPoint \<Rightarrow> string \<times> string" where
  "Subsystems pt =
     (case pt of
        AddQueues \<Rightarrow> (''TQa'', ''TQA'')
      | CheckGlobalRequestArray \<Rightarrow> (''TGc'', ''TGC'')
      | CompletedRequest \<Rightarrow> (''TRc'', ''TRC'')
      | CreateTicket \<Rightarrow> (''TTc'', ''TTC'')
      | IssueNonBlockingOp \<Rightarrow> (''TCi'', ''TCI'')
      | LibraryInterface \<Rightarrow> (''TLi'', ''TLI'')
      | LibraryPolling \<Rightarrow> (''TLp'', ''TLP'')
      | TestAllRequests \<Rightarrow> (''TRa'', ''TRA'')
      | TestRequest \<Rightarrow> (''TRt'', ''TRT'')
      | TestSomeRequests \<Rightarrow> (''TRs'', ''TRS'')
      | TransferQueues \<Rightarrow> (''TQt'', ''TQT'')
      | WaitTicket \<Rightarrow> (''TTw'', ''TTW''))"

text \<open>The state of a thread: whether there is a backend, \<open>_threadInit\<close>, and the calls made.\<close>

record instr =
  in_backend :: bool
  in_threadInit :: bool
  in_calls :: "ovni_call list"

definition emitEvent :: "string \<Rightarrow> instr \<Rightarrow> instr" where
  "emitEvent mcv s =
     (let s = (if \<not> in_threadInit s
               then s\<lparr>in_threadInit := True, in_calls := in_calls s @ [ovni_thread_require ''tampi'' ''1.0.0'']\<rparr>
               else s) in
      s\<lparr>in_calls := in_calls s @ [ovni_ev_emit mcv]\<rparr>)"

text \<open>\<open>have_ovni\<close> is the build option \<open>HAVE_OVNI\<close>, \<open>value\<close> the variable \<open>TAMPI_INSTRUMENT\<close>.\<close>

definition Instrument_initialize :: "bool \<Rightarrow> string \<Rightarrow> int \<Rightarrow> int \<Rightarrow> instr \<Rightarrow> instr result" where
  "Instrument_initialize have_ovni instrument rank nranks s =
     rbind (if instrument = ''ovni'' then
              if have_ovni then Inr (s\<lparr>in_backend := True\<rparr>)
              else fail [Str ''TAMPI was not configured with ovni support'']
            else if instrument \<noteq> ''none'' then fail [Str instrument, Str '' instrumentation not supported'']
            else Inr s) (\<lambda>s.
     Inr (if in_backend s then s\<lparr>in_calls := in_calls s @ [ovni_proc_set_rank rank nranks]\<rparr> else s))"

definition Instrument_finalize :: "instr \<Rightarrow> instr" where
  "Instrument_finalize s = s"

definition Instrument_enter :: "InstrumentPoint \<Rightarrow> instr \<Rightarrow> instr" where
  "Instrument_enter pt s = (if in_backend s then emitEvent (fst (Subsystems pt)) s else s)"

definition Instrument_exit :: "InstrumentPoint \<Rightarrow> instr \<Rightarrow> instr" where
  "Instrument_exit pt s = (if in_backend s then emitEvent (snd (Subsystems pt)) s else s)"

text \<open>
  \<open>Guard<Point>\<close>: the constructor enters and the destructor exits, around the code of the scope. The
  scopes of a call nest, so what a call instruments is a tree.
\<close>

datatype scope = Guard InstrumentPoint "scope list"

fun run_guard :: "scope \<Rightarrow> instr \<Rightarrow> instr" where
  "run_guard (Guard pt body) s = Instrument_exit pt (fold run_guard body (Instrument_enter pt s))"

section \<open>The events of a call\<close>

fun events :: "scope \<Rightarrow> string list" where
  "events (Guard pt body) = fst (Subsystems pt) # concat (map events body) @ [snd (Subsystems pt)]"

text \<open>A reader of the trace: it keeps the open scopes on a stack, as the emulator of ovni does.\<close>

fun point_of :: "string \<Rightarrow> (InstrumentPoint \<times> bool) option" where
  "point_of mcv = find (\<lambda>(pt, entry). mcv = (if entry then fst else snd) (Subsystems pt))
     (List.product [AddQueues, CheckGlobalRequestArray, CompletedRequest, CreateTicket, IssueNonBlockingOp,
        LibraryInterface, LibraryPolling, TestAllRequests, TestRequest, TestSomeRequests, TransferQueues,
        WaitTicket] [True, False])"

fun read_trace :: "string list \<Rightarrow> (InstrumentPoint \<times> scope list) list \<Rightarrow> scope list \<Rightarrow> scope list option" where
  "read_trace [] [] acc = Some acc"
| "read_trace [] (_ # _) acc = None"
| "read_trace (mcv # rest) stack acc =
     (case point_of mcv of
        None \<Rightarrow> None
      | Some (pt, True) \<Rightarrow> read_trace rest ((pt, acc) # stack) []
      | Some (pt, False) \<Rightarrow>
          (case stack of
             [] \<Rightarrow> None
           | (pt', outer) # stack \<Rightarrow> if pt' = pt then read_trace rest stack (outer @ [Guard pt acc]) else None))"

lemma point_of_Subsystems:
  "point_of (fst (Subsystems pt)) = Some (pt, True)" "point_of (snd (Subsystems pt)) = Some (pt, False)"
  by (cases pt; simp add: Subsystems_def)+

declare point_of.simps [simp del]

lemma read_trace_events:
  "read_trace (events g @ rest) stack acc = read_trace rest stack (acc @ [g])"
proof (induction g arbitrary: rest stack acc)
  case (Guard pt body)
  have "read_trace (concat (map events gs) @ rest) stack acc = read_trace rest stack (acc @ gs)"
    if "set gs \<subseteq> set body" for gs rest stack acc
    using that by (induction gs arbitrary: acc) (simp_all add: Guard.IH)
  from this [of body] show ?case by (simp add: point_of_Subsystems)
qed

lemma emitEvent_calls:
  "in_calls (emitEvent mcv s) = in_calls s @
     (if in_threadInit s then [] else [ovni_thread_require ''tampi'' ''1.0.0'']) @ [ovni_ev_emit mcv]"
  "in_threadInit (emitEvent mcv s)" "in_backend (emitEvent mcv s) = in_backend s"
  by (simp_all add: emitEvent_def Let_def)

lemma run_guard_calls:
  assumes "in_backend s"
  shows "in_backend (run_guard g s) \<and> in_threadInit (run_guard g s) \<and>
    in_calls (run_guard g s) = in_calls s @
      (if in_threadInit s then [] else [ovni_thread_require ''tampi'' ''1.0.0'']) @ map ovni_ev_emit (events g)"
  using assms
proof (induction g arbitrary: s)
  case (Guard pt body)
  have "in_backend (fold run_guard gs s) \<and> in_threadInit (fold run_guard gs s) \<and>
      in_calls (fold run_guard gs s) = in_calls s @ map ovni_ev_emit (concat (map events gs))"
    if "set gs \<subseteq> set body" "in_backend s" "in_threadInit s" for gs s
    using that
  proof (induction gs arbitrary: s)
    case (Cons g gs)
    with Guard.IH [of g s] show ?case by simp
  qed simp
  from this [of body "emitEvent (fst (Subsystems pt)) s"] Guard.prems show ?case
    by (simp add: Instrument_enter_def Instrument_exit_def emitEvent_calls)
qed

lemma run_guard_off: "\<not> in_backend s \<Longrightarrow> run_guard g s = s"
proof (induction g)
  case (Guard pt body)
  have "fold run_guard gs s = s" if "set gs \<subseteq> set body" for gs
    using that Guard by (induction gs) auto
  with Guard.prems show ?case by (simp add: Instrument_enter_def Instrument_exit_def)
qed

section \<open>Properties\<close>

text \<open>
  (C27) With the ovni backend, a thread whose calls instrument the scopes \<open>g\<close> emits exactly one event
  for each entry and exit, after one \<open>ovni_thread_require\<close> in its life, and the emitted codes
  determine the nesting of the scopes: a reader that keeps a stack recovers \<open>g\<close> from them. Without a
  backend nothing is called.
\<close>

theorem guard_trace_roundtrip:
  "(if in_backend s
    then in_calls (run_guard g s) = in_calls s @
      (if in_threadInit s then [] else [ovni_thread_require ''tampi'' ''1.0.0'']) @ map ovni_ev_emit (events g)
    else run_guard g s = s) \<and>
   read_trace (events g) [] [] = Some [g]"
  using run_guard_calls run_guard_off read_trace_events [of g "[]"] by auto

end
