(* ===== verification/Environment.thy ===== *)
theory Environment
  imports Tampi_Runs Instrument
begin

text \<open>
  \<open>Environment\<close> (src/src/common/Environment.hpp and .cpp) and the entry points that initialize, query and
  finalize the library (src/src/c/InitFinalize.cpp and src/src/c/Utils.cpp), in the library for C.

  The functions of MPI that these call are the record \<open>'m native\<close>; the build options, the
  environment variables and what the operating system and Boost give at construction are the
  record \<open>'q config\<close>. The mutex of the state makes each operation of \<open>Environment\<close> atomic.
  The ticket manager, which the source constructs at its first use, is in the state from the start.
\<close>

section \<open>State\<close>

record 'm native =
  nt_Init :: "ptr \<Rightarrow> ptr \<Rightarrow> 'm \<Rightarrow> int \<times> 'm"
  nt_Init_thread :: "ptr \<Rightarrow> ptr \<Rightarrow> int \<Rightarrow> 'm \<Rightarrow> (int \<times> int) \<times> 'm"
  nt_Query_thread :: "'m \<Rightarrow> (int \<times> int) \<times> 'm"
  nt_Finalize :: "'m \<Rightarrow> int \<times> 'm"
  nt_Comm_rank :: "'m \<Rightarrow> int \<times> 'm"
  nt_Comm_size :: "'m \<Rightarrow> int \<times> 'm"

record 'q config =
  cf_THREAD_SINGLE :: int      \<comment> \<open>the constants of the MPI library\<close>
  cf_THREAD_MULTIPLE :: int
  cf_ERR_ARG :: int
  cf_disableBlocking :: bool   \<comment> \<open>\<open>DISABLE_BLOCKING_MODE\<close>\<close>
  cf_disableNonBlocking :: bool
  cf_haveOvni :: bool
  cf_pollingMode :: string     \<comment> \<open>\<open>TAMPI_POLLING_MODE\<close>\<close>
  cf_instrument :: string      \<comment> \<open>\<open>TAMPI_INSTRUMENT\<close>\<close>
  cf_dlsym :: dlsym
  cf_mmap1 :: "nat option"     \<comment> \<open>the memory of the two allocators\<close>
  cf_mmap2 :: "nat option"
  cf_newq :: "nat \<Rightarrow> 'q"

abbreviation cf_TASK_MULTIPLE :: "'q config \<Rightarrow> int" where
  "cf_TASK_MULTIPLE cf \<equiv> cf_THREAD_MULTIPLE cf + 1"

record env_state =
  es_preinitialized :: bool
  es_initialized :: bool
  es_autoInitialize :: bool
  es_nativeThreadLevel :: int
  es_threadTaskAwareness :: "nat \<Rightarrow> bool" \<comment> \<open>\<open>thread_local\<close>: by thread\<close>
  es_blockingMode :: bool
  es_nonBlockingMode :: bool

definition State :: "'q config \<Rightarrow> env_state" where
  "State cf = \<lparr>es_preinitialized = False, es_initialized = False, es_autoInitialize = True,
     es_nativeThreadLevel = cf_THREAD_SINGLE cf, es_threadTaskAwareness = (\<lambda>_. True),
     es_blockingMode = False, es_nonBlockingMode = False\<rparr>"

record ('m, 'q, 'c) lib =
  li_state :: env_state
  li_mpi_symbols :: "string \<Rightarrow> symbol"
  li_rank :: int
  li_nranks :: int
  li_tasking :: tasking_state
  li_instr :: instr
  li_polling :: polling_state
  li_sys :: "('m, 'q, 'c) sys"

definition set_mpi :: "'m \<Rightarrow> ('m, 'q, 'c) lib \<Rightarrow> ('m, 'q, 'c) lib" where
  "set_mpi m L = L\<lparr>li_sys := (li_sys L)\<lparr>sy_world := (sy_world (li_sys L))\<lparr>w_mpi := m\<rparr>\<rparr>\<rparr>"

abbreviation li_mpi :: "('m, 'q, 'c) lib \<Rightarrow> 'm" where
  "li_mpi L \<equiv> w_mpi (sy_world (li_sys L))"

section \<open>Properties of the environment\<close>

abbreviation TAMPI_PROPERTY_BLOCKING_MODE :: int where "TAMPI_PROPERTY_BLOCKING_MODE \<equiv> 1"
abbreviation TAMPI_PROPERTY_NONBLOCKING_MODE :: int where "TAMPI_PROPERTY_NONBLOCKING_MODE \<equiv> 2"
abbreviation TAMPI_PROPERTY_AUTO_INIT :: int where "TAMPI_PROPERTY_AUTO_INIT \<equiv> 3"
abbreviation TAMPI_PROPERTY_THREAD_TASKAWARE :: int where "TAMPI_PROPERTY_THREAD_TASKAWARE \<equiv> 4"

definition isBlockingEnabled :: "env_state \<Rightarrow> bool" where
  "isBlockingEnabled st = es_blockingMode st"

definition isNonBlockingEnabled :: "env_state \<Rightarrow> bool" where
  "isNonBlockingEnabled st = es_nonBlockingMode st"

definition isBlockingEnabledForCurrentThread :: "nat \<Rightarrow> env_state \<Rightarrow> bool" where
  "isBlockingEnabledForCurrentThread tid st = (es_threadTaskAwareness st tid \<and> isBlockingEnabled st)"

text \<open>\<open>getProperty\<close> returns its error code and the value it stores, none when it stores none.\<close>

definition getProperty :: "nat \<Rightarrow> env_state \<Rightarrow> int \<Rightarrow> int \<times> int option" where
  "getProperty tid st property =
     (if property = TAMPI_PROPERTY_BLOCKING_MODE then (0, Some (of_bool (es_blockingMode st)))
      else if property = TAMPI_PROPERTY_NONBLOCKING_MODE then (0, Some (of_bool (es_nonBlockingMode st)))
      else if property = TAMPI_PROPERTY_THREAD_TASKAWARE then (0, Some (of_bool (es_threadTaskAwareness st tid)))
      else if property = TAMPI_PROPERTY_AUTO_INIT then (0, Some (of_bool (es_autoInitialize st)))
      else (1, None))"

definition setProperty :: "nat \<Rightarrow> env_state \<Rightarrow> int \<Rightarrow> int \<Rightarrow> int \<times> env_state" where
  "setProperty tid st property v =
     (if property = TAMPI_PROPERTY_BLOCKING_MODE \<or> property = TAMPI_PROPERTY_NONBLOCKING_MODE then (1, st)
      else if property = TAMPI_PROPERTY_THREAD_TASKAWARE then
        (0, st\<lparr>es_threadTaskAwareness := (es_threadTaskAwareness st)(tid := (v \<noteq> 0))\<rparr>)
      else if property = TAMPI_PROPERTY_AUTO_INIT then
        if es_preinitialized st then (1, st) else (0, st\<lparr>es_autoInitialize := (v \<noteq> 0)\<rparr>)
      else (1, st))"

definition isAutoInitializeEnabled :: "nat \<Rightarrow> env_state \<Rightarrow> bool" where
  "isAutoInitializeEnabled tid st =
     (case getProperty tid st TAMPI_PROPERTY_AUTO_INIT of (_, Some enabled) \<Rightarrow> enabled \<noteq> 0 | (_, None) \<Rightarrow> False)"

section \<open>Initialization\<close>

text \<open>\<open>Interface<C>::initialize\<close>: the symbols, then the rank and the number of ranks.\<close>

definition Interface_initialize ::
    "'q config \<Rightarrow> 'm native \<Rightarrow> ('m, 'q, 'c) lib \<Rightarrow> ('m, 'q, 'c) lib result" where
  "Interface_initialize cf nt L =
     rbind (loadSymbols (cf_dlsym cf) (li_mpi_symbols L)) (\<lambda>syms.
     let (rank, m) = nt_Comm_rank nt (li_mpi L); (nranks, m) = nt_Comm_size nt m in
     Inr (set_mpi m (L\<lparr>li_mpi_symbols := syms, li_rank := rank, li_nranks := nranks\<rparr>)))"

definition preinitialize ::
    "'q config \<Rightarrow> 'm native \<Rightarrow> int \<Rightarrow> ('m, 'q, 'c) lib \<Rightarrow> ('m, 'q, 'c) lib result" where
  "preinitialize cf nt provided L =
     rbind (rassert (\<not> es_preinitialized (li_state L)) ''!_state.preinitialized'') (\<lambda>_.
     rbind (rassert (\<not> es_initialized (li_state L)) ''!_state.initialized'') (\<lambda>_.
     rbind (Interface_initialize cf nt L) (\<lambda>L.
     Inr (L\<lparr>li_state := (li_state L)\<lparr>es_nativeThreadLevel := provided, es_preinitialized := True\<rparr>\<rparr>))))"

definition shouldEnableBlocking :: "'q config \<Rightarrow> int \<Rightarrow> bool" where
  "shouldEnableBlocking cf level = (\<not> cf_disableBlocking cf \<and> level = cf_TASK_MULTIPLE cf)"

definition shouldEnableNonBlocking :: "'q config \<Rightarrow> int \<Rightarrow> bool" where
  "shouldEnableNonBlocking cf level =
     (\<not> cf_disableNonBlocking cf \<and> (level = cf_TASK_MULTIPLE cf \<or> level = cf_THREAD_MULTIPLE cf))"

definition shouldInitialize :: "env_state \<Rightarrow> bool \<Rightarrow> bool result" where
  "shouldInitialize st automatic =
     (if \<not> es_preinitialized st then fail [Str ''Intializing TAMPI before MPI is invalid'']
      else if \<not> automatic \<and> es_autoInitialize st then
        fail [Str ''Explicitly initializing TAMPI is invalid by default'']
      else Inr (\<not> automatic \<or> es_autoInitialize st))"

text \<open>The allocators and the polling tasks, which are only needed with an enabled mode.\<close>

definition launch ::
    "('m, 'q, 'c) platform \<Rightarrow> 'q config \<Rightarrow> bool \<Rightarrow> alpi_log \<Rightarrow> ('m, 'q, 'c) lib \<Rightarrow>
     ('q allocators \<times> polling_state \<times> alpi_log) result" where
  "launch P cf enabled h L =
     (if enabled then
        rbind (Allocator_initialize (pf_B P) (pf_rt P) h (cf_mmap1 cf) (cf_mmap2 cf) (cf_newq cf)) (\<lambda>(als, h).
        rbind (Polling_initialize P (li_polling L) h) (\<lambda>(po, h). Inr (als, po, h)))
      else Inr (sy_alloc (li_sys L), li_polling L, h))"

text \<open>\<open>provided\<close> is the value of the output parameter before the call; the result has the value after it.\<close>

definition Environment_initialize ::
    "('m, 'q, 'c) platform \<Rightarrow> 'q config \<Rightarrow> int \<Rightarrow> int \<Rightarrow> bool \<Rightarrow> ('m, 'q, 'c) lib \<Rightarrow>
     (int \<times> ('m, 'q, 'c) lib \<times> warnings) result" where
  "Environment_initialize P cf required provided automatic L =
     rbind (shouldInitialize (li_state L) automatic) (\<lambda>initialize.
     if \<not> initialize then Inr (provided, L, [])
     else
       let multiple = (es_nativeThreadLevel (li_state L) = cf_THREAD_MULTIPLE cf);
           enableBlocking = (shouldEnableBlocking cf required \<and> multiple);
           enableNonBlocking = (shouldEnableNonBlocking cf required \<and> multiple);
           s = li_sys L
       in
       rbind (TaskingModel_initialize (cf_dlsym cf) (pf_rt P) (cf_pollingMode cf) (li_tasking L) (sy_log s)
                enableBlocking enableNonBlocking) (\<lambda>(tasking, h, wn).
       rbind (Instrument_initialize (cf_haveOvni cf) (cf_instrument cf) (li_rank L) (li_nranks L) (li_instr L)) (\<lambda>ins.
       rbind (launch P cf (enableBlocking \<or> enableNonBlocking) h L) (\<lambda>(als, po, h).
       let st = (li_state L)\<lparr>es_blockingMode := enableBlocking, es_nonBlockingMode := enableNonBlocking,
                  es_initialized := True\<rparr>;
           provided = (if enableBlocking then cf_TASK_MULTIPLE cf else es_nativeThreadLevel (li_state L))
       in
       Inr (provided, L\<lparr>li_state := st, li_tasking := tasking, li_instr := ins, li_polling := po,
              li_sys := set_log h (s\<lparr>sy_alloc := als\<rparr>)\<rparr>, wn)))))"

section \<open>Finalization\<close>

definition shouldFinalize :: "env_state \<Rightarrow> bool \<Rightarrow> (bool \<times> warnings) result" where
  "shouldFinalize st automatic =
     (if automatic \<and> \<not> es_autoInitialize st then
        Inr (es_initialized st,
          warnIf (es_initialized st) [Str ''TAMPI_Finalize must be called before MPI_Finalize''])
      else if \<not> automatic \<and> es_autoInitialize st then
        fail [Str ''Explicitly initializing TAMPI is invalid by default'']
      else if \<not> es_initialized st then fail [Str ''Finalizing TAMPI before initializing is invalid'']
      else Inr (True, []))"

text \<open>\<open>finished1\<close> and \<open>finished2\<close> are what the reads of the flags of the two polling tasks see.\<close>

definition Environment_finalize ::
    "('m, 'q, 'c) platform \<Rightarrow> (nat \<Rightarrow> bool) \<Rightarrow> (nat \<Rightarrow> bool) \<Rightarrow> bool \<Rightarrow> ('m, 'q, 'c) lib \<Rightarrow>
     (('m, 'q, 'c) lib \<times> warnings) run" where
  "Environment_finalize P finished1 finished2 automatic L =
     run_bind (Some (shouldFinalize (li_state L) automatic)) (\<lambda>(finalize, wn).
     if \<not> finalize then ret (L, wn)
     else
       let L = L\<lparr>li_instr := Instrument_finalize (li_instr L)\<rparr>; s = li_sys L in
       run_bind (if es_blockingMode (li_state L) \<or> es_nonBlockingMode (li_state L) then
                   run_bind (Polling_finalize P finished1 finished2 (li_polling L) (sy_log s)) (\<lambda>(po, h).
                   ret (Allocator_finalize (sy_alloc s), po, h))
                 else ret (sy_alloc s, li_polling L, sy_log s)) (\<lambda>(als, po, h).
       ret (L\<lparr>li_state := (li_state L)\<lparr>es_blockingMode := False, es_nonBlockingMode := False,
                es_initialized := False\<rparr>,
              li_polling := po, li_sys := set_log h (s\<lparr>sy_alloc := als\<rparr>)\<rparr>, wn)))"

section \<open>Entry points\<close>

text \<open>
  The functions of the application interface. Output parameters are returned; \<open>provided\<close> and \<open>v\<close> are
  the values of the output locations before the call. The pointers to them are not null, which the
  functions assert.
\<close>

definition MPI_Query_thread ::
    "'q config \<Rightarrow> 'm native \<Rightarrow> nat \<Rightarrow> int \<Rightarrow> ('m, 'q, 'c) lib \<Rightarrow> (int \<times> int \<times> ('m, 'q, 'c) lib) result" where
  "MPI_Query_thread cf nt tid provided L =
     (let (err, blocking) = getProperty tid (li_state L) TAMPI_PROPERTY_BLOCKING_MODE in
      if err \<noteq> 0 then Inr (cf_ERR_ARG cf, provided, L)
      else if blocking \<noteq> Some 0 then Inr (MPI_SUCCESS, cf_TASK_MULTIPLE cf, L)
      else rbind (Symbol_make (cf_dlsym cf) ''MPI_Query_thread'' True) (\<lambda>_.
        let ((err, provided), m) = nt_Query_thread nt (li_mpi L) in Inr (err, provided, set_mpi m L)))"

text \<open>\<open>TAMPI_Property_get\<close>, of which \<open>TAMPI_Blocking_enabled\<close> and \<open>TAMPI_Nonblocking_enabled\<close> are cases.\<close>

definition TAMPI_Property_get ::
    "'q config \<Rightarrow> nat \<Rightarrow> int \<Rightarrow> int \<Rightarrow> ('m, 'q, 'c) lib \<Rightarrow> int \<times> int" where
  "TAMPI_Property_get cf tid property v L =
     (let (err, got) = getProperty tid (li_state L) property; v = (case got of Some x \<Rightarrow> x | None \<Rightarrow> v) in
      if err \<noteq> 0 then (cf_ERR_ARG cf, v) else (MPI_SUCCESS, v))"

definition TAMPI_Blocking_enabled :: "'q config \<Rightarrow> nat \<Rightarrow> int \<Rightarrow> ('m, 'q, 'c) lib \<Rightarrow> int \<times> int" where
  "TAMPI_Blocking_enabled cf tid flag L =
     (let (err, got) = getProperty tid (li_state L) TAMPI_PROPERTY_BLOCKING_MODE;
          flag = (case got of Some x \<Rightarrow> x | None \<Rightarrow> flag) in
      if err \<noteq> 0 then (cf_ERR_ARG cf, flag) else (MPI_SUCCESS, flag))"

definition TAMPI_Nonblocking_enabled :: "'q config \<Rightarrow> nat \<Rightarrow> int \<Rightarrow> ('m, 'q, 'c) lib \<Rightarrow> int \<times> int" where
  "TAMPI_Nonblocking_enabled cf tid flag L =
     (let (err, got) = getProperty tid (li_state L) TAMPI_PROPERTY_NONBLOCKING_MODE;
          flag = (case got of Some x \<Rightarrow> x | None \<Rightarrow> flag) in
      if err \<noteq> 0 then (cf_ERR_ARG cf, flag) else (MPI_SUCCESS, flag))"

definition TAMPI_Property_set ::
    "'q config \<Rightarrow> nat \<Rightarrow> int \<Rightarrow> int \<Rightarrow> ('m, 'q, 'c) lib \<Rightarrow> int \<times> ('m, 'q, 'c) lib" where
  "TAMPI_Property_set cf tid property v L =
     (let (err, st) = setProperty tid (li_state L) property v; L = L\<lparr>li_state := st\<rparr> in
      if err \<noteq> 0 then (cf_ERR_ARG cf, L) else (MPI_SUCCESS, L))"

definition MPI_Init ::
    "('m, 'q, 'c) platform \<Rightarrow> 'q config \<Rightarrow> 'm native \<Rightarrow> nat \<Rightarrow> ptr \<Rightarrow> ptr \<Rightarrow> ('m, 'q, 'c) lib \<Rightarrow>
     (int \<times> ('m, 'q, 'c) lib \<times> warnings) result" where
  "MPI_Init P cf nt tid argc argv L =
     rbind (Symbol_make (cf_dlsym cf) ''MPI_Init'' True) (\<lambda>_.
     let (err, m) = nt_Init nt argc argv (li_mpi L); L = set_mpi m L in
     if err \<noteq> MPI_SUCCESS then Inr (err, L, [])
     else
       rbind (MPI_Query_thread cf nt tid 0 L) (\<lambda>(err, provided, L).
       if err \<noteq> MPI_SUCCESS then Inr (err, L, [])
       else
         rbind (preinitialize cf nt provided L) (\<lambda>L.
         rbind (Environment_initialize P cf provided provided True L) (\<lambda>(_, L, wn).
         Inr (MPI_SUCCESS, L, wn)))))"

definition MPI_Init_thread ::
    "('m, 'q, 'c) platform \<Rightarrow> 'q config \<Rightarrow> 'm native \<Rightarrow> nat \<Rightarrow> ptr \<Rightarrow> ptr \<Rightarrow> int \<Rightarrow> ('m, 'q, 'c) lib \<Rightarrow>
     (int \<times> int \<times> ('m, 'q, 'c) lib \<times> warnings) result" where
  "MPI_Init_thread P cf nt tid argc argv required L =
     rbind (Symbol_make (cf_dlsym cf) ''MPI_Init_thread'' True) (\<lambda>_.
     if \<not> isAutoInitializeEnabled tid (li_state L) \<and> required = cf_TASK_MULTIPLE cf then
       fail [Str ''The MPI_TASK_MULTIPLE must be passed to TAMPI_Init'']
     else
       let irequired = (if required = cf_TASK_MULTIPLE cf then cf_THREAD_MULTIPLE cf else required);
           ((err, provided), m) = nt_Init_thread nt argc argv irequired (li_mpi L);
           L = set_mpi m L
       in
       if err \<noteq> MPI_SUCCESS then Inr (err, provided, L, [])
       else
         rbind (preinitialize cf nt provided L) (\<lambda>L.
         rbind (Environment_initialize P cf required provided True L) (\<lambda>(provided, L, wn).
         Inr (MPI_SUCCESS, provided, L, wn))))"

definition MPI_Finalize ::
    "('m, 'q, 'c) platform \<Rightarrow> 'q config \<Rightarrow> 'm native \<Rightarrow> (nat \<Rightarrow> bool) \<Rightarrow> (nat \<Rightarrow> bool) \<Rightarrow> ('m, 'q, 'c) lib \<Rightarrow>
     (int \<times> ('m, 'q, 'c) lib \<times> warnings) run" where
  "MPI_Finalize P cf nt finished1 finished2 L =
     run_bind (Some (Symbol_make (cf_dlsym cf) ''MPI_Finalize'' True)) (\<lambda>_.
     let (err, m) = nt_Finalize nt (li_mpi L); L = set_mpi m L in
     if err \<noteq> MPI_SUCCESS then ret (err, L, [])
     else run_bind (Environment_finalize P finished1 finished2 True L) (\<lambda>(L, wn). ret (MPI_SUCCESS, L, wn)))"

definition TAMPI_Init ::
    "('m, 'q, 'c) platform \<Rightarrow> 'q config \<Rightarrow> int \<Rightarrow> int \<Rightarrow> ('m, 'q, 'c) lib \<Rightarrow>
     (int \<times> int \<times> ('m, 'q, 'c) lib \<times> warnings) result" where
  "TAMPI_Init P cf required provided L =
     rbind (Environment_initialize P cf required provided False L) (\<lambda>(provided, L, wn).
     Inr (MPI_SUCCESS, provided, L, wn))"

definition TAMPI_Finalize ::
    "('m, 'q, 'c) platform \<Rightarrow> (nat \<Rightarrow> bool) \<Rightarrow> (nat \<Rightarrow> bool) \<Rightarrow> ('m, 'q, 'c) lib \<Rightarrow>
     (int \<times> ('m, 'q, 'c) lib \<times> warnings) run" where
  "TAMPI_Finalize P finished1 finished2 L =
     run_bind (Environment_finalize P finished1 finished2 False L) (\<lambda>(L, wn). ret (MPI_SUCCESS, L, wn))"

section \<open>Life cycle\<close>

text \<open>One call of an entry point that changes the state and returns.\<close>

inductive env_step :: "('m, 'q, 'c) platform \<Rightarrow> 'q config \<Rightarrow> 'm native \<Rightarrow> ('m, 'q, 'c) lib \<Rightarrow> ('m, 'q, 'c) lib \<Rightarrow> bool"
  for P cf nt where
  set_property: "TAMPI_Property_set cf tid property v L = (err, L') \<Longrightarrow> env_step P cf nt L L'"
| mpi_init: "MPI_Init P cf nt tid argc argv L = Inr (err, L', wn) \<Longrightarrow> env_step P cf nt L L'"
| mpi_init_thread: "MPI_Init_thread P cf nt tid argc argv required L = Inr (err, provided, L', wn) \<Longrightarrow> env_step P cf nt L L'"
| tampi_init: "TAMPI_Init P cf required provided0 L = Inr (err, provided, L', wn) \<Longrightarrow> env_step P cf nt L L'"
| tampi_finalize: "TAMPI_Finalize P finished1 finished2 L = ret (err, L', wn) \<Longrightarrow> env_step P cf nt L L'"
| mpi_finalize: "MPI_Finalize P cf nt finished1 finished2 L = ret (err, L', wn) \<Longrightarrow> env_step P cf nt L L'"

abbreviation env_start :: "'q config \<Rightarrow> ('m, 'q, 'c) lib \<Rightarrow> bool" where
  "env_start cf L \<equiv> li_state L = State cf"

abbreviation env_reach :: "('m, 'q, 'c) platform \<Rightarrow> 'q config \<Rightarrow> 'm native \<Rightarrow> ('m, 'q, 'c) lib \<Rightarrow> bool" where
  "env_reach P cf nt \<equiv> reachable (env_start cf) (env_step P cf nt)"

text \<open>
  The invariant: the modes are enabled only in an initialized library, on an MPI library with full
  multithreading, after MPI was initialized, with allocators, polling tasks and the symbols of the
  calls of that mode; the blocking mode is never enabled without
  the non-blocking one unless that is left out of the build.
\<close>

definition env_ok :: "('m, 'q, 'c) platform \<Rightarrow> 'q config \<Rightarrow> ('m, 'q, 'c) lib \<Rightarrow> bool" where
  "env_ok P cf L \<longleftrightarrow> (let st = li_state L in
     (es_initialized st \<longrightarrow> es_preinitialized st) \<and>
     (es_blockingMode st \<or> es_nonBlockingMode st \<longrightarrow>
        es_initialized st \<and> es_nativeThreadLevel st = cf_THREAD_MULTIPLE cf \<and>
        al_operation (sy_alloc (li_sys L)) \<noteq> None \<and> al_coll (sy_alloc (li_sys L)) \<noteq> None \<and>
        po_pollingInstance (li_polling L) \<noteq> None \<and>
        (pf_cm P \<longrightarrow> po_completionInstance (li_polling L) \<noteq> None) \<and>
        tms_pollingFunction (li_tasking L) \<noteq> None) \<and>
     (es_blockingMode st \<longrightarrow> \<not> cf_disableBlocking cf \<and> (es_nonBlockingMode st \<or> cf_disableNonBlocking cf)) \<and>
     (es_nonBlockingMode st \<longrightarrow> \<not> cf_disableNonBlocking cf))"

lemma rbind3_InrE:
  assumes "rbind m (\<lambda>(a, b, c). f a b c) = Inr r"
  obtains a b c where "m = Inr (a, b, c)" "f a b c = Inr r"
  using assms by (auto simp: rbind_eq_Inr)

lemma set_mpi_simps [simp]:
  "li_state (set_mpi m L) = li_state L" "sy_alloc (li_sys (set_mpi m L)) = sy_alloc (li_sys L)"
  "li_polling (set_mpi m L) = li_polling L" "li_tasking (set_mpi m L) = li_tasking L"
  "sy_tm (li_sys (set_mpi m L)) = sy_tm (li_sys L)" "w_cq (sy_world (li_sys (set_mpi m L))) = w_cq (sy_world (li_sys L))"
  "li_instr (set_mpi m L) = li_instr L" "sy_log (li_sys (set_mpi m L)) = sy_log (li_sys L)" "li_mpi (set_mpi m L) = m"
  by (simp_all add: set_mpi_def)

lemma env_ok_set_mpi [simp]: "env_ok P cf (set_mpi m L) = env_ok P cf L"
  by (simp add: env_ok_def)

lemma set_log_alloc [simp]: "sy_alloc (set_log h s) = sy_alloc s" "sy_log (set_log h s) = h"
  by (simp_all add: set_log_def)

lemma Allocator_initialize_some:
  "Allocator_initialize B rt h p q newq = Inr (als, h') \<Longrightarrow> al_operation als \<noteq> None \<and> al_coll als \<noteq> None"
  by (auto simp: Allocator_initialize_def rbind_eq_Inr)

lemma Polling_initialize_some:
  "Polling_initialize P po h = Inr (po', h') \<Longrightarrow>
   po_pollingInstance po' \<noteq> None \<and> (pf_cm P \<longrightarrow> po_completionInstance po' \<noteq> None)"
  by (cases "pf_cm P") (auto simp: Polling_initialize_def rbind_eq_Inr Let_def)

lemma TaskingModel_initialize_some:
  "TaskingModel_initialize dlsym rt mode st h b e = Inr (st', h', wn) \<Longrightarrow> b \<or> e \<Longrightarrow> tms_pollingFunction st' \<noteq> None"
  by (auto simp: TaskingModel_initialize_def rbind_eq_Inr Let_def fail_def processFailure_def case_prod_unfold
      split: if_splits)

lemma launch_some:
  "launch P cf enabled h L = Inr (als, po, h') \<Longrightarrow> enabled \<Longrightarrow>
   al_operation als \<noteq> None \<and> al_coll als \<noteq> None \<and> po_pollingInstance po \<noteq> None \<and>
   (pf_cm P \<longrightarrow> po_completionInstance po \<noteq> None)"
  using Allocator_initialize_some Polling_initialize_some by (fastforce simp: launch_def rbind_eq_Inr)

text \<open>What an initialization that returns has done.\<close>

lemma Environment_initialize_cases:
  assumes "Environment_initialize P cf required provided automatic L = Inr (provided', L', wn)"
  obtains "automatic" "\<not> es_autoInitialize (li_state L)" "L' = L" "provided' = provided" "es_preinitialized (li_state L)"
  | als po tasking ins h bl nbl where
    "bl = (shouldEnableBlocking cf required \<and> es_nativeThreadLevel (li_state L) = cf_THREAD_MULTIPLE cf)"
    "nbl = (shouldEnableNonBlocking cf required \<and> es_nativeThreadLevel (li_state L) = cf_THREAD_MULTIPLE cf)"
    "es_preinitialized (li_state L)" "es_autoInitialize (li_state L) = automatic"
    "L' = L\<lparr>li_state := (li_state L)\<lparr>es_blockingMode := bl, es_nonBlockingMode := nbl, es_initialized := True\<rparr>,
       li_tasking := tasking, li_instr := ins, li_polling := po, li_sys := set_log h ((li_sys L)\<lparr>sy_alloc := als\<rparr>)\<rparr>"
    "provided' = (if bl then cf_TASK_MULTIPLE cf else es_nativeThreadLevel (li_state L))"
    "bl \<or> nbl \<longrightarrow> al_operation als \<noteq> None \<and> al_coll als \<noteq> None \<and> po_pollingInstance po \<noteq> None \<and>
       (pf_cm P \<longrightarrow> po_completionInstance po \<noteq> None) \<and> tms_pollingFunction tasking \<noteq> None"
proof -
  let ?m = "es_nativeThreadLevel (li_state L) = cf_THREAD_MULTIPLE cf"
  let ?bl = "shouldEnableBlocking cf required \<and> ?m" and ?nbl = "shouldEnableNonBlocking cf required \<and> ?m"
  obtain init where init: "shouldInitialize (li_state L) automatic = Inr init"
    using assms by (auto simp: Environment_initialize_def rbind_eq_Inr)
  then have pre: "es_preinitialized (li_state L)" "init = (\<not> automatic \<or> es_autoInitialize (li_state L))"
    "\<not> (\<not> automatic \<and> es_autoInitialize (li_state L))"
    by (auto simp: shouldInitialize_def fail_def split: if_splits)
  show thesis
  proof (cases init)
    case False
    then show thesis using assms init pre that(1) by (auto simp: Environment_initialize_def)
  next
    case True
    let ?st = "(li_state L)\<lparr>es_blockingMode := ?bl, es_nonBlockingMode := ?nbl, es_initialized := True\<rparr>"
    let ?p = "if ?bl then cf_TASK_MULTIPLE cf else es_nativeThreadLevel (li_state L)"
    have "rbind (TaskingModel_initialize (cf_dlsym cf) (pf_rt P) (cf_pollingMode cf) (li_tasking L) (sy_log (li_sys L)) ?bl ?nbl)
        (\<lambda>(tasking, h, wn).
        rbind (Instrument_initialize (cf_haveOvni cf) (cf_instrument cf) (li_rank L) (li_nranks L) (li_instr L)) (\<lambda>ins.
        rbind (launch P cf (?bl \<or> ?nbl) h L) (\<lambda>(als, po, h).
        Inr (?p, L\<lparr>li_state := ?st, li_tasking := tasking, li_instr := ins, li_polling := po,
              li_sys := set_log h ((li_sys L)\<lparr>sy_alloc := als\<rparr>)\<rparr>, wn)))) = Inr (provided', L', wn)"
      using assms init True by (simp add: Environment_initialize_def Let_def)
    then obtain tasking h1 w where r1:
      "TaskingModel_initialize (cf_dlsym cf) (pf_rt P) (cf_pollingMode cf) (li_tasking L) (sy_log (li_sys L)) ?bl ?nbl =
         Inr (tasking, h1, w)"
      "rbind (Instrument_initialize (cf_haveOvni cf) (cf_instrument cf) (li_rank L) (li_nranks L) (li_instr L)) (\<lambda>ins.
        rbind (launch P cf (?bl \<or> ?nbl) h1 L) (\<lambda>(als, po, h).
        Inr (?p, L\<lparr>li_state := ?st, li_tasking := tasking, li_instr := ins, li_polling := po,
              li_sys := set_log h ((li_sys L)\<lparr>sy_alloc := als\<rparr>)\<rparr>, w))) = Inr (provided', L', wn)"
      by (rule rbind3_InrE)
    obtain ins where "rbind (launch P cf (?bl \<or> ?nbl) h1 L) (\<lambda>(als, po, h).
        Inr (?p, L\<lparr>li_state := ?st, li_tasking := tasking, li_instr := ins, li_polling := po,
              li_sys := set_log h ((li_sys L)\<lparr>sy_alloc := als\<rparr>)\<rparr>, w)) = Inr (provided', L', wn)"
      using r1(2) unfolding rbind_eq_Inr by blast
    then obtain als po h where r2: "launch P cf (?bl \<or> ?nbl) h1 L = Inr (als, po, h)"
      "Inr (?p, L\<lparr>li_state := ?st, li_tasking := tasking, li_instr := ins, li_polling := po,
              li_sys := set_log h ((li_sys L)\<lparr>sy_alloc := als\<rparr>)\<rparr>, w) = (Inr (provided', L', wn) :: _ result)"
      by (rule rbind3_InrE)
    then have r3: "L' = L\<lparr>li_state := ?st, li_tasking := tasking, li_instr := ins, li_polling := po,
         li_sys := set_log h ((li_sys L)\<lparr>sy_alloc := als\<rparr>)\<rparr>" "provided' = ?p"
      by simp_all
    have "?bl \<or> ?nbl \<longrightarrow> al_operation als \<noteq> None \<and> al_coll als \<noteq> None \<and> po_pollingInstance po \<noteq> None \<and>
       (pf_cm P \<longrightarrow> po_completionInstance po \<noteq> None) \<and> tms_pollingFunction tasking \<noteq> None"
      using launch_some [OF r2(1)] TaskingModel_initialize_some [OF r1(1)] by blast
    moreover have "es_autoInitialize (li_state L) = automatic" using True pre(2,3) by auto
    ultimately show thesis by (intro that(2) [OF refl refl pre(1) _ r3])
  qed
qed

lemma Environment_initialize_inv:
  assumes "Environment_initialize P cf required provided automatic L = Inr (provided', L', wn)" "env_ok P cf L"
  shows "env_ok P cf L'"
  using assms(1)
proof (cases rule: Environment_initialize_cases)
  case 1
  then show ?thesis using assms(2) by simp
next
  case (2 als po tasking ins h bl nbl)
  then show ?thesis
    by (auto simp: env_ok_def Let_def shouldEnableBlocking_def shouldEnableNonBlocking_def)
qed

text \<open>What the preparation of the MPI environment leaves.\<close>

lemma preinitialize_state:
  assumes "preinitialize cf nt provided L = Inr L'"
  shows "\<not> es_preinitialized (li_state L) \<and> \<not> es_initialized (li_state L) \<and>
    li_state L' = (li_state L)\<lparr>es_nativeThreadLevel := provided, es_preinitialized := True\<rparr> \<and>
    li_polling L' = li_polling L \<and> li_tasking L' = li_tasking L \<and>
    sy_alloc (li_sys L') = sy_alloc (li_sys L) \<and> sy_log (li_sys L') = sy_log (li_sys L) \<and>
    sy_tm (li_sys L') = sy_tm (li_sys L) \<and> w_cq (sy_world (li_sys L')) = w_cq (sy_world (li_sys L))"
  using assms
  by (auto simp: preinitialize_def Interface_initialize_def rbind_eq_Inr rassert_eq_Inr Let_def case_prod_unfold)

lemma preinitialize_inv:
  assumes "preinitialize cf nt provided L = Inr L'" "env_ok P cf L"
  shows "env_ok P cf L'"
  using preinitialize_state [OF assms(1)] assms(2) by (auto simp: env_ok_def Let_def)

lemma Environment_finalize_cases:
  assumes "Environment_finalize P f1 f2 automatic L = ret (L', wn)"
  shows "L' = L \<or> li_state L' = (li_state L)\<lparr>es_blockingMode := False, es_nonBlockingMode := False, es_initialized := False\<rparr>"
proof -
  obtain fin w where f: "shouldFinalize (li_state L) automatic = Inr (fin, w)"
    using assms by (auto simp: Environment_finalize_def run_bind_eq_ret)
  show ?thesis
  proof (cases fin)
    case True
    then show ?thesis using assms f by (auto simp: Environment_finalize_def Let_def run_bind_eq_ret)
  qed (use assms f in \<open>simp add: Environment_finalize_def\<close>)
qed

lemma Environment_finalize_inv:
  assumes "Environment_finalize P f1 f2 automatic L = ret (L', wn)" "env_ok P cf L"
  shows "env_ok P cf L'"
  using Environment_finalize_cases [OF assms(1)] by (rule disjE) (simp add: assms(2), simp add: env_ok_def)

lemma MPI_Query_thread_state:
  assumes "MPI_Query_thread cf nt tid p L = Inr (err, provided, L')"
  obtains m where "L' = set_mpi m L"
proof -
  have "L = set_mpi (li_mpi L) L" by (simp add: set_mpi_def)
  then show thesis
    using assms that by (auto simp: MPI_Query_thread_def rbind_eq_Inr Let_def case_prod_unfold split: if_splits)
qed

lemma TAMPI_Property_set_state:
  assumes "TAMPI_Property_set cf tid property v L = (err, L')"
  shows "\<exists>aw auto. L' = L\<lparr>li_state := (li_state L)\<lparr>es_threadTaskAwareness := aw, es_autoInitialize := auto\<rparr>\<rparr>"
proof -
  have "\<exists>aw auto. snd (setProperty tid st property v) = st\<lparr>es_threadTaskAwareness := aw, es_autoInitialize := auto\<rparr>" for st
    by (cases st) (auto simp: setProperty_def)
  then obtain aw auto where "snd (setProperty tid (li_state L) property v) =
      (li_state L)\<lparr>es_threadTaskAwareness := aw, es_autoInitialize := auto\<rparr>" by blast
  then show ?thesis
    using assms by (intro exI [of _ aw] exI [of _ auto]) (auto simp: TAMPI_Property_set_def Let_def case_prod_unfold split: if_splits)
qed

lemma MPI_Init_thread_cases:
  assumes "MPI_Init_thread P cf nt tid argc argv required L = Inr (err, provided, L', wn)"
  obtains m where "L' = set_mpi m L"
  | m pr L2 p where "preinitialize cf nt pr (set_mpi m L) = Inr L2"
      "Environment_initialize P cf required pr True L2 = Inr (p, L', wn)"
proof -
  let ?ir = "if required = cf_TASK_MULTIPLE cf then cf_THREAD_MULTIPLE cf else required"
  obtain e pr m where n: "nt_Init_thread nt argc argv ?ir (li_mpi L) = ((e, pr), m)"
    by (metis prod.collapse)
  then show thesis
    using assms that by (cases "e = 0") (auto simp: MPI_Init_thread_def rbind_eq_Inr Let_def fail_def split: if_splits)
qed

lemma env_step_inv:
  assumes "env_step P cf nt L L'" "env_ok P cf L"
  shows "env_ok P cf L'"
  using assms(1)
proof cases
  case (set_property tid property v err)
  then have "\<exists>aw auto. L' = L\<lparr>li_state := (li_state L)\<lparr>es_threadTaskAwareness := aw, es_autoInitialize := auto\<rparr>\<rparr>"
    by (rule TAMPI_Property_set_state)
  then show ?thesis using assms(2) by (elim exE) (simp add: env_ok_def Let_def)
next
  case (mpi_init tid argc argv err wn)
  obtain err1 m where i: "nt_Init nt argc argv (li_mpi L) = (err1, m)" by fastforce
  show ?thesis
  proof (cases "err1 = 0")
    case True
    then obtain err2 provided L1 where q: "MPI_Query_thread cf nt tid 0 (set_mpi m L) = Inr (err2, provided, L1)"
      "err2 \<noteq> 0 \<longrightarrow> L' = L1"
      "err2 = 0 \<longrightarrow> (\<exists>L2 p. preinitialize cf nt provided L1 = Inr L2 \<and>
         Environment_initialize P cf provided provided True L2 = Inr (p, L', wn))"
      using mpi_init i by (auto simp: MPI_Init_def rbind_eq_Inr Let_def split: if_splits)
    obtain m' where "L1 = set_mpi m' (set_mpi m L)" by (rule MPI_Query_thread_state [OF q(1)])
    then have "env_ok P cf L1" using assms(2) by simp
    then show ?thesis using q(2,3) preinitialize_inv Environment_initialize_inv by metis
  next
    case False
    then show ?thesis using mpi_init i assms(2) by (auto simp: MPI_Init_def rbind_eq_Inr Let_def)
  qed
next
  case (mpi_init_thread tid argc argv required err provided wn)
  then consider m where "L' = set_mpi m L"
    | m pr L2 p where "preinitialize cf nt pr (set_mpi m L) = Inr L2"
        "Environment_initialize P cf required pr True L2 = Inr (p, L', wn)"
    by (rule MPI_Init_thread_cases)
  then show ?thesis
    by cases (use assms(2) in simp, metis assms(2) env_ok_set_mpi preinitialize_inv Environment_initialize_inv)
next
  case (tampi_init required provided0 err provided wn)
  then show ?thesis using assms(2) Environment_initialize_inv by (fastforce simp: TAMPI_Init_def rbind_eq_Inr)
next
  case (tampi_finalize f1 f2 err wn)
  then show ?thesis using assms(2) Environment_finalize_inv by (fastforce simp: TAMPI_Finalize_def run_bind_eq_ret)
next
  case (mpi_finalize f1 f2 err wn)
  then consider m where "L' = set_mpi m L"
    | m wn' where "Environment_finalize P f1 f2 True (set_mpi m L) = ret (L', wn')"
    by (fastforce simp: MPI_Finalize_def run_bind_eq_ret Let_def split: if_splits prod.splits)
  then show ?thesis
    by cases (use assms(2) in simp, metis assms(2) env_ok_set_mpi Environment_finalize_inv)
qed

lemma MPI_Init_thread_auto:
  assumes "MPI_Init_thread P cf nt tid argc argv required L = Inr (err, provided, L', wn)"
  shows "es_autoInitialize (li_state L') = es_autoInitialize (li_state L)"
  using assms
proof (cases rule: MPI_Init_thread_cases)
  case (2 m pr L2 p)
  have "es_autoInitialize (li_state L2) = es_autoInitialize (li_state L)" using preinitialize_state [OF 2(1)] by simp
  moreover have "es_autoInitialize (li_state L') = es_autoInitialize (li_state L2)"
    using 2(2) by (cases rule: Environment_initialize_cases) auto
  ultimately show ?thesis by simp
qed simp

interpretation lifecycle: preserved "env_start cf" "env_step P cf nt" "env_ok P cf" for P cf nt
proof
  show "env_ok P cf L" if "env_start cf L" for L using that by (simp add: env_ok_def State_def)
qed (rule env_step_inv)

lemmas env_reach_inv = lifecycle.reachable_inv

section \<open>Initialization that enables the modes\<close>

text \<open>
  What the process provides at initialization: every symbol is found, the runtime reports no more CPUs
  than the library was compiled for, the memory is aligned, Boost constructs empty queues of the
  capacity that was asked for, and the environment variables have the default values.
\<close>

definition resolves :: "dlsym \<Rightarrow> bool" where
  "resolves dlsym \<longleftrightarrow> (\<forall>attr name. \<exists>a. dlsym attr name = Some a)"

definition config_ok :: "('m, 'q, 'c) platform \<Rightarrow> 'q config \<Rightarrow> bool" where
  "config_ok P cf \<longleftrightarrow>
     resolves (cf_dlsym cf) \<and> cf_pollingMode cf = ''auto'' \<and> cf_instrument cf = ''none'' \<and>
     (\<forall>h. snd (alpi_ret (pf_rt P) h alpi_cpu_count) 0 \<le> MaxSystemCPUs) \<and>
     (\<exists>p. cf_mmap1 cf = Some p \<and> p mod CacheAlignment = 0) \<and> (\<exists>p. cf_mmap2 cf = Some p \<and> p mod CacheAlignment = 0) \<and>
     (\<forall>n. spsc_contents (pf_B P) (cf_newq cf n) = [] \<and> spsc_capacity (pf_B P) (cf_newq cf n) = n)"

lemma Symbol_load_ok:
  "resolves dlsym \<Longrightarrow> \<exists>s'. Symbol_load dlsym s attr m = Inr (True, s') \<and> hasSymbol s'"
proof -
  assume "resolves dlsym"
  then obtain a where "dlsym attr (sym_name s) = Some a" by (auto simp: resolves_def)
  then show ?thesis by (auto simp: Symbol_load_def hasSymbol_def Let_def)
qed

lemma Symbol_make_ok: "resolves dlsym \<Longrightarrow> \<exists>s. Symbol_make dlsym name True = Inr s"
  using Symbol_load_ok [of dlsym "\<lparr>sym_name = name, sym_symbol = None\<rparr>" Next True]
  by (auto simp: Symbol_make_def)

lemma load_next_ok: "resolves dlsym \<Longrightarrow> \<exists>syms'. load_next dlsym syms names = Inr syms'"
proof (induction names arbitrary: syms)
  case (Cons n ns)
  obtain s' where "Symbol_load dlsym (syms n) Next True = Inr (True, s')"
    using Symbol_load_ok [OF Cons.prems, where s = "syms n"] by blast
  then show ?case using Cons.IH [OF Cons.prems, of "syms(n := s')"] by (simp add: fun_upd_def)
qed simp

lemma load_symbols_ok:
  assumes "resolves dlsym"
  shows "\<exists>syms'. load_symbols dlsym syms names = Inr syms' \<and>
    (\<forall>n. n \<in> fst ` set names \<or> hasSymbol (syms n) \<longrightarrow> hasSymbol (syms' n))"
proof (induction names arbitrary: syms)
  case (Cons nm ns)
  obtain n m where nm: "nm = (n, m)" by (cases nm)
  obtain s' where s': "Symbol_load dlsym (syms n) First m = Inr (True, s')" "hasSymbol s'"
    using Symbol_load_ok [OF assms, where s = "syms n"] by blast
  obtain syms' where "load_symbols dlsym (syms(n := s')) ns = Inr syms'"
    "\<forall>k. k \<in> fst ` set ns \<or> hasSymbol ((syms(n := s')) k) \<longrightarrow> hasSymbol (syms' k)"
    using Cons.IH [of "syms(n := s')"] by blast
  then show ?case using s' by (auto simp: nm)
qed simp

lemma TaskingModel_initialize_ok:
  assumes "resolves dlsym" "rt_ok rt"
  shows "\<exists>st' calls wn. TaskingModel_initialize dlsym rt ''auto'' st h b e = Inr (st', h @ calls, wn) \<and>
    set calls \<subseteq> {alpi_version_get, alpi_version_check 1 0, alpi_feature_check 8}"
proof (cases "b \<or> e")
  case True
  obtain syms where s: "load_symbols dlsym (tms_symbols st) (alpi_symbols b e) = Inr syms"
    "hasSymbol (syms ''alpi_feature_check'')"
    using load_symbols_ok [OF assms(1), of "tms_symbols st" "alpi_symbols b e"] by (auto simp: alpi_symbols_def)
  have ok: "fst (alpi_ret rt h c) = 0" for h c using assms(2) by (simp add: rt_ok_def)
  show ?thesis
    using True s ok assms(2)
    by (auto simp: TaskingModel_initialize_def choosePolling_def alpi_checked_ok callNative_def Let_def
        case_prod_unfold)
qed (simp add: TaskingModel_initialize_def)

text \<open>
  An allocator that is ready: none of its objects is in use, and a task on any CPU that the runtime counts can
  allocate.
\<close>

definition alloc_ready :: "('m, 'q, 'c) platform \<Rightarrow> 'q objalloc option \<Rightarrow> bool" where
  "alloc_ready P A \<longleftrightarrow> alloc_ok (pf_B P) A {#} \<and>
     (\<forall>cpu. (\<forall>h. cpu < snd (alpi_ret (pf_rt P) h alpi_cpu_count) 0) \<longrightarrow> can_alloc (pf_B P) A cpu)"

lemma ObjAllocator_ready:
  assumes "spsc_ok (pf_B P)" "rt_ok (pf_rt P)" "spsc_contents (pf_B P) q0 = []" "spsc_capacity (pf_B P) q0 = cap"
    and "snd (alpi_ret (pf_rt P) h alpi_cpu_count) 0 \<le> MaxSystemCPUs" "p mod CacheAlignment = 0" "0 < cap"
  obtains A where "ObjAllocator (pf_B P) (pf_rt P) h (Some p) q0 cap = Inr (A, h @ [alpi_cpu_count])" "alloc_ready P (Some A)"
proof -
  obtain A where A: "ObjAllocator (pf_B P) (pf_rt P) h (Some p) q0 cap = Inr (A, h @ [alpi_cpu_count])"
    "oa_inv (pf_B P) A []" "oa_ncaches A = snd (alpi_ret (pf_rt P) h alpi_cpu_count) 0"
    "spsc_contents (pf_B P) (oa_central A) = [1..<cap + 1]"
    using ObjAllocator_new [OF assms(1-6)] by (elim exE conjE) (rule that)
  have "can_alloc (pf_B P) (Some A) cpu" if "\<forall>h. cpu < snd (alpi_ret (pf_rt P) h alpi_cpu_count) 0" for cpu
    using that [rule_format, of h] A(3,4) assms(7) by (simp add: can_alloc_def del: upt_Suc)
  moreover have "alloc_ok (pf_B P) (Some A) {#}"
    unfolding alloc_ok_def using A(2) by (intro exI [of _ A] exI [of _ "[]"]) simp
  ultimately have "alloc_ready P (Some A)" unfolding alloc_ready_def by blast
  with A(1) show thesis by (rule that)
qed

lemma launch_ok:
  assumes "plat_ok P" "config_ok P cf"
  shows "\<exists>als po. launch P cf True h L = Inr (als, po, h @ [alpi_cpu_count, alpi_cpu_count, alpi_task_spawn ''TAMPI''] @
      (if pf_cm P then [alpi_task_spawn ''TAMPI Comp''] else [])) \<and>
    alloc_ready P (al_operation als) \<and> alloc_ready P (al_coll als) \<and>
    po_periodCtrl po = po_periodCtrl (li_polling L) \<and> po_completionPeriodCtrl po = po_completionPeriodCtrl (li_polling L)"
proof -
  have P: "spsc_ok (pf_B P)" "rt_ok (pf_rt P)" using assms(1) by (auto simp: plat_ok_def)
  obtain p q where m: "cf_mmap1 cf = Some p" "p mod CacheAlignment = 0" "cf_mmap2 cf = Some q" "q mod CacheAlignment = 0"
    using assms(2) by (auto simp: config_ok_def)
  have c: "snd (alpi_ret (pf_rt P) h alpi_cpu_count) 0 \<le> MaxSystemCPUs" for h using assms(2) by (simp add: config_ok_def)
  have n: "spsc_contents (pf_B P) (cf_newq cf k) = []" "spsc_capacity (pf_B P) (cf_newq cf k) = k" for k
    using assms(2) by (auto simp: config_ok_def)
  have z: "0 < OperationCapacity" "0 < CollOperationCapacity" by simp_all
  obtain a1 where a1: "ObjAllocator (pf_B P) (pf_rt P) h (Some p) (cf_newq cf OperationCapacity) OperationCapacity =
      Inr (a1, h @ [alpi_cpu_count])" "alloc_ready P (Some a1)"
    by (rule ObjAllocator_ready [OF P n c m(2) z(1)])
  obtain a2 where a2: "ObjAllocator (pf_B P) (pf_rt P) (h @ [alpi_cpu_count]) (Some q) (cf_newq cf CollOperationCapacity) CollOperationCapacity =
      Inr (a2, (h @ [alpi_cpu_count]) @ [alpi_cpu_count])" "alloc_ready P (Some a2)"
    by (rule ObjAllocator_ready [OF P n c m(4) z(2)])
  with a1 m P(2) show ?thesis
    by (auto simp: launch_def Allocator_initialize_def Polling_initialize_def registerPolling_def alpi_checked_ok Let_def)
qed

lemma Environment_initialize_ok:
  assumes "plat_ok P" "config_ok P cf" "es_preinitialized (li_state L)" "es_autoInitialize (li_state L) = automatic"
    and "es_nativeThreadLevel (li_state L) = cf_THREAD_MULTIPLE cf"
    and "shouldEnableBlocking cf required \<or> shouldEnableNonBlocking cf required"
  shows "\<exists>L' calls wn. Environment_initialize P cf required provided automatic L =
      Inr (if shouldEnableBlocking cf required then cf_TASK_MULTIPLE cf else cf_THREAD_MULTIPLE cf, L', wn) \<and>
    li_state L' = (li_state L)\<lparr>es_blockingMode := shouldEnableBlocking cf required,
      es_nonBlockingMode := shouldEnableNonBlocking cf required, es_initialized := True\<rparr> \<and>
    li_mpi L' = li_mpi L \<and> sy_tm (li_sys L') = sy_tm (li_sys L) \<and> w_cq (sy_world (li_sys L')) = w_cq (sy_world (li_sys L)) \<and>
    alloc_ready P (al_operation (sy_alloc (li_sys L'))) \<and> alloc_ready P (al_coll (sy_alloc (li_sys L'))) \<and>
    po_periodCtrl (li_polling L') = po_periodCtrl (li_polling L) \<and>
    po_completionPeriodCtrl (li_polling L') = po_completionPeriodCtrl (li_polling L) \<and>
    sy_log (li_sys L') = sy_log (li_sys L) @ calls \<and> quiet calls \<and>
    count_list calls (alpi_task_spawn ''TAMPI'') = 1 \<and>
    count_list calls (alpi_task_spawn ''TAMPI Comp'') = (if pf_cm P then 1 else 0)"
proof -
  have c: "resolves (cf_dlsym cf)" "cf_pollingMode cf = ''auto''" "cf_instrument cf = ''none''"
    using assms(2) by (auto simp: config_ok_def)
  have rt: "rt_ok (pf_rt P)" using assms(1) by (simp add: plat_ok_def)
  let ?b = "shouldEnableBlocking cf required" and ?e = "shouldEnableNonBlocking cf required"
  obtain tasking calls wn where t: "TaskingModel_initialize (cf_dlsym cf) (pf_rt P) ''auto'' (li_tasking L) (sy_log (li_sys L)) ?b ?e =
      Inr (tasking, sy_log (li_sys L) @ calls, wn)"
    "set calls \<subseteq> {alpi_version_get, alpi_version_check 1 0, alpi_feature_check 8}"
    using TaskingModel_initialize_ok [OF c(1) rt] by blast
  have no_spawn: "count_list calls (alpi_task_spawn n) = 0" for n using t(2) by (auto simp: count_list_0_iff)
  obtain ins where i: "Instrument_initialize (cf_haveOvni cf) (cf_instrument cf) (li_rank L) (li_nranks L) (li_instr L) = Inr ins"
    by (simp add: Instrument_initialize_def c(3))
  let ?spawn = "[alpi_cpu_count, alpi_cpu_count, alpi_task_spawn ''TAMPI''] @ (if pf_cm P then [alpi_task_spawn ''TAMPI Comp''] else [])"
  obtain als po where l: "launch P cf True (sy_log (li_sys L) @ calls) L = Inr (als, po, (sy_log (li_sys L) @ calls) @ ?spawn)"
    "alloc_ready P (al_operation als)" "alloc_ready P (al_coll als)"
    "po_periodCtrl po = po_periodCtrl (li_polling L)" "po_completionPeriodCtrl po = po_completionPeriodCtrl (li_polling L)"
    using launch_ok [OF assms(1,2)] by blast
  let ?L = "L\<lparr>li_state := (li_state L)\<lparr>es_blockingMode := ?b, es_nonBlockingMode := ?e, es_initialized := True\<rparr>,
    li_tasking := tasking, li_instr := ins, li_polling := po,
    li_sys := set_log (sy_log (li_sys L) @ calls @ ?spawn) ((li_sys L)\<lparr>sy_alloc := als\<rparr>)\<rparr>"
  have "shouldInitialize (li_state L) automatic = Inr True"
    using assms(3,4) by (simp add: shouldInitialize_def)
  then have "Environment_initialize P cf required provided automatic L =
      Inr (if ?b then cf_TASK_MULTIPLE cf else cf_THREAD_MULTIPLE cf, ?L, wn)"
    using t(1) i l(1) assms(5,6) by (simp add: Environment_initialize_def c(2) Let_def)
  moreover have "sy_log (li_sys ?L) = sy_log (li_sys L) @ (calls @ ?spawn)" "li_mpi ?L = li_mpi L"
    "sy_tm (li_sys ?L) = sy_tm (li_sys L)" "w_cq (sy_world (li_sys ?L)) = w_cq (sy_world (li_sys L))"
    by (simp_all add: set_log_def)
  moreover have "quiet (calls @ ?spawn)" using t(2) by (auto simp: quiet_def)
  moreover have "count_list (calls @ ?spawn) (alpi_task_spawn ''TAMPI'') = 1"
    "count_list (calls @ ?spawn) (alpi_task_spawn ''TAMPI Comp'') = (if pf_cm P then 1 else 0)"
    using no_spawn by simp_all
  ultimately show ?thesis using l(2-5) by (intro exI [of _ ?L] exI [of _ "calls @ ?spawn"] exI [of _ wn]) simp
qed

lemma preinitialize_ok:
  assumes "config_ok P cf" "\<not> es_preinitialized (li_state L)" "\<not> es_initialized (li_state L)"
  shows "\<exists>L'. preinitialize cf nt provided L = Inr L'"
proof -
  obtain syms where "loadSymbols (cf_dlsym cf) (li_mpi_symbols L) = Inr syms"
    using load_next_ok assms(1) by (fastforce simp: config_ok_def loadSymbols_def)
  then show ?thesis
    using assms(2,3) by (simp add: preinitialize_def Interface_initialize_def Let_def case_prod_unfold)
qed

lemma isAutoInitializeEnabled_eq: "isAutoInitializeEnabled tid st = es_autoInitialize st"
  by (simp add: isAutoInitializeEnabled_def getProperty_def)

lemma MPI_Init_thread_ok:
  assumes "plat_ok P" "config_ok P cf" "li_state L = State cf"
    and "nt_Init_thread nt argc argv (cf_THREAD_MULTIPLE cf) (li_mpi L) = ((0, cf_THREAD_MULTIPLE cf), m)"
    and "required = cf_TASK_MULTIPLE cf \<and> \<not> cf_disableBlocking cf \<or> required = cf_THREAD_MULTIPLE cf \<and> \<not> cf_disableNonBlocking cf"
  shows "\<exists>L' wn. MPI_Init_thread P cf nt tid argc argv required L = Inr (0, required, L', wn) \<and>
    es_blockingMode (li_state L') = (required = cf_TASK_MULTIPLE cf) \<and>
    es_nonBlockingMode (li_state L') = (\<not> cf_disableNonBlocking cf) \<and>
    es_threadTaskAwareness (li_state L') = (\<lambda>_. True) \<and>
    alloc_ready P (al_operation (sy_alloc (li_sys L'))) \<and> alloc_ready P (al_coll (sy_alloc (li_sys L'))) \<and>
    po_periodCtrl (li_polling L') = po_periodCtrl (li_polling L) \<and>
    po_completionPeriodCtrl (li_polling L') = po_completionPeriodCtrl (li_polling L) \<and>
    sy_tm (li_sys L') = sy_tm (li_sys L) \<and> w_cq (sy_world (li_sys L')) = w_cq (sy_world (li_sys L)) \<and>
    (\<exists>calls. sy_log (li_sys L') = sy_log (li_sys L) @ calls \<and> quiet calls)"
proof -
  obtain sym where sym: "Symbol_make (cf_dlsym cf) ''MPI_Init_thread'' True = Inr sym"
    using Symbol_make_ok assms(2) by (fastforce simp: config_ok_def)
  obtain L1 where L1: "preinitialize cf nt (cf_THREAD_MULTIPLE cf) (set_mpi m L) = Inr L1"
    using preinitialize_ok [OF assms(2), of "set_mpi m L"] assms(3) by (auto simp: State_def)
  note st = preinitialize_state [OF L1]
  have sh: "shouldEnableBlocking cf required = (required = cf_TASK_MULTIPLE cf)"
    "shouldEnableNonBlocking cf required = (\<not> cf_disableNonBlocking cf)"
    using assms(5) by (auto simp: shouldEnableBlocking_def shouldEnableNonBlocking_def)
  obtain L' wn calls where L': "Environment_initialize P cf required (cf_THREAD_MULTIPLE cf) True L1 =
      Inr (if shouldEnableBlocking cf required then cf_TASK_MULTIPLE cf else cf_THREAD_MULTIPLE cf, L', wn)"
    "li_state L' = (li_state L1)\<lparr>es_blockingMode := shouldEnableBlocking cf required,
      es_nonBlockingMode := shouldEnableNonBlocking cf required, es_initialized := True\<rparr>"
    "alloc_ready P (al_operation (sy_alloc (li_sys L')))" "alloc_ready P (al_coll (sy_alloc (li_sys L')))"
    "sy_tm (li_sys L') = sy_tm (li_sys L1)" "w_cq (sy_world (li_sys L')) = w_cq (sy_world (li_sys L1))"
    "sy_log (li_sys L') = sy_log (li_sys L1) @ calls" "quiet calls"
    "po_periodCtrl (li_polling L') = po_periodCtrl (li_polling L1)"
    "po_completionPeriodCtrl (li_polling L') = po_completionPeriodCtrl (li_polling L1)"
    using Environment_initialize_ok [OF assms(1,2), of L1 True required "cf_THREAD_MULTIPLE cf"] st sh assms(3,5)
    by (auto simp: State_def)
  have "MPI_Init_thread P cf nt tid argc argv required L = Inr (0, required, L', wn)"
    using sym assms(3,4,5) L1 L'(1) sh
    by (auto simp: MPI_Init_thread_def isAutoInitializeEnabled_eq State_def Let_def)
  then show ?thesis using L'(2-10) sh st assms(3) by (intro exI [of _ L'] exI [of _ wn]) (simp add: State_def)
qed

text \<open>The MPI library reports the level that its initialization provided.\<close>

definition query_ok :: "'m native \<Rightarrow> bool" where
  "query_ok nt \<longleftrightarrow> (\<forall>argc argv req m level m'. nt_Init_thread nt argc argv req m = ((0, level), m') \<longrightarrow>
     fst (nt_Query_thread nt (snd (nt_Comm_size nt (snd (nt_Comm_rank nt m'))))) = (0, level))"

lemma preinitialize_mpi:
  "preinitialize cf nt provided L = Inr L' \<Longrightarrow> li_mpi L' = snd (nt_Comm_size nt (snd (nt_Comm_rank nt (li_mpi L))))"
  by (auto simp: preinitialize_def Interface_initialize_def rbind_eq_Inr Let_def case_prod_unfold)

section \<open>Properties\<close>

text \<open>
  (C30) Initializing MPI with a level that TAMPI extends, on a platform that keeps its contracts and an
  MPI library that provides \<open>MPI_THREAD_MULTIPLE\<close>: the call succeeds and provides the level that was
  required; \<open>MPI_TASK_MULTIPLE\<close> enables the blocking mode and both levels enable the non-blocking one (when built in),
  and both allocators own all their objects and can give one to a task on any CPU.
\<close>

theorem init_enables_modes:
  assumes "plat_ok P" "config_ok P cf" "li_state L = State cf"
    and "nt_Init_thread nt argc argv (cf_THREAD_MULTIPLE cf) (li_mpi L) = ((0, cf_THREAD_MULTIPLE cf), m)"
    and "required = cf_TASK_MULTIPLE cf \<and> \<not> cf_disableBlocking cf \<or> required = cf_THREAD_MULTIPLE cf \<and> \<not> cf_disableNonBlocking cf"
  shows "\<exists>L' wn. MPI_Init_thread P cf nt tid argc argv required L = Inr (0, required, L', wn) \<and>
    isBlockingEnabledForCurrentThread tid' (li_state L') = (required = cf_TASK_MULTIPLE cf) \<and>
    isNonBlockingEnabled (li_state L') = (\<not> cf_disableNonBlocking cf) \<and>
    alloc_ready P (al_operation (sy_alloc (li_sys L'))) \<and> alloc_ready P (al_coll (sy_alloc (li_sys L')))"
  using MPI_Init_thread_ok [OF assms, where tid = tid]
  by (fastforce simp: isBlockingEnabledForCurrentThread_def isBlockingEnabled_def isNonBlockingEnabled_def)

text \<open>
  (C31) In every state that any sequence of initializations, finalizations and changes of properties
  reaches: the library is initialized only after MPI; a mode is enabled only in an initialized library
  over an MPI library with full multithreading, with both allocators, the polling tasks and a polling
  function; the blocking mode comes with the non-blocking one unless that is not built in.
\<close>

theorem env_lifecycle:
  assumes "env_reach P cf nt L"
  shows "(es_initialized (li_state L) \<longrightarrow> es_preinitialized (li_state L)) \<and>
    (isBlockingEnabled (li_state L) \<or> isNonBlockingEnabled (li_state L) \<longrightarrow>
       es_initialized (li_state L) \<and> es_nativeThreadLevel (li_state L) = cf_THREAD_MULTIPLE cf \<and>
       al_operation (sy_alloc (li_sys L)) \<noteq> None \<and> al_coll (sy_alloc (li_sys L)) \<noteq> None \<and>
       po_pollingInstance (li_polling L) \<noteq> None \<and> (pf_cm P \<longrightarrow> po_completionInstance (li_polling L) \<noteq> None) \<and>
       tms_pollingFunction (li_tasking L) \<noteq> None) \<and>
    (isBlockingEnabled (li_state L) \<longrightarrow> isNonBlockingEnabled (li_state L) \<or> cf_disableNonBlocking cf)"
  using env_reach_inv [OF assms] by (simp add: env_ok_def Let_def isBlockingEnabled_def isNonBlockingEnabled_def)

text \<open>
  (C32) The level that \<open>MPI_Init_thread\<close> provides is the one that \<open>MPI_Query_thread\<close> reports afterwards,
  in every build and with automatic or explicit initialization, for an MPI library whose own query
  reports the level that its initialization provided.
\<close>

theorem query_agrees:
  assumes "\<not> es_blockingMode (li_state L)" "resolves (cf_dlsym cf)"
    and "MPI_Init_thread P cf nt tid argc argv required L = Inr (0, provided, L', wn)"
    and "query_ok nt"
  shows "\<exists>L''. MPI_Query_thread cf nt tid' p L' = Inr (0, provided, L'')"
proof -
  let ?ir = "if required = cf_TASK_MULTIPLE cf then cf_THREAD_MULTIPLE cf else required"
  obtain e pr m where n: "nt_Init_thread nt argc argv ?ir (li_mpi L) = ((e, pr), m)" by (metis prod.collapse)
  obtain L1 where i: "preinitialize cf nt pr (set_mpi m L) = Inr L1"
    "Environment_initialize P cf required pr True L1 = Inr (provided, L', wn)" "e = 0"
    using assms(3) n by (cases "e = 0") (auto simp: MPI_Init_thread_def rbind_eq_Inr Let_def fail_def split: if_splits)
  have level: "es_nativeThreadLevel (li_state L1) = pr" "\<not> es_blockingMode (li_state L1)"
    using preinitialize_state [OF i(1)] assms(1) by auto
  have "li_mpi L' = li_mpi L1"
    using i(2) by (cases rule: Environment_initialize_cases) (auto simp: set_log_def)
  then have q: "fst (nt_Query_thread nt (li_mpi L')) = (0, pr)"
    using assms(4) n i(3) preinitialize_mpi [OF i(1)] by (simp add: query_ok_def)
  obtain sym where sym: "Symbol_make (cf_dlsym cf) ''MPI_Query_thread'' True = Inr sym"
    using Symbol_make_ok [OF assms(2)] by blast
  have "provided = (if es_blockingMode (li_state L') then cf_TASK_MULTIPLE cf else pr)"
    using i(2) by (cases rule: Environment_initialize_cases) (use level in auto)
  then show ?thesis
    using q sym by (auto simp: MPI_Query_thread_def getProperty_def Let_def case_prod_unfold)
qed

text \<open>
  (C33) A property that was set successfully is read back, for the thread that set it, and no other
  thread's task-awareness changes; the modes, unknown properties and \<open>AUTO_INIT\<close> once MPI is initialized are
  rejected with \<open>MPI_ERR_ARG\<close> and change nothing.
\<close>

theorem property_set_get:
  assumes "cf_ERR_ARG cf \<noteq> MPI_SUCCESS" "TAMPI_Property_set cf tid property v L = (err, L')"
  shows "err = MPI_SUCCESS \<and> TAMPI_Property_get cf tid property w L' = (MPI_SUCCESS, of_bool (v \<noteq> 0)) \<and>
      (\<forall>t'. t' \<noteq> tid \<longrightarrow> TAMPI_Property_get cf t' TAMPI_PROPERTY_THREAD_TASKAWARE w L' =
         TAMPI_Property_get cf t' TAMPI_PROPERTY_THREAD_TASKAWARE w L) \<and>
      (property = TAMPI_PROPERTY_THREAD_TASKAWARE \<or>
       property = TAMPI_PROPERTY_AUTO_INIT \<and> \<not> es_preinitialized (li_state L)) \<or>
    err = cf_ERR_ARG cf \<and> L' = L \<and> property \<noteq> TAMPI_PROPERTY_THREAD_TASKAWARE \<and>
      (property = TAMPI_PROPERTY_AUTO_INIT \<longrightarrow> es_preinitialized (li_state L))"
  using assms by (auto simp: TAMPI_Property_set_def TAMPI_Property_get_def setProperty_def getProperty_def Let_def
      split: if_splits)

text \<open>
  (C34) Finalizing an initialized library, explicitly or with MPI: once the polling tasks end, the call
  returns without a warning; both modes are disabled, the library is not initialized, and if a mode was
  enabled the allocators and the polling instances are gone.
\<close>

theorem finalize_disables:
  assumes "plat_ok P" "env_reach P cf nt L" "es_initialized (li_state L)" "es_autoInitialize (li_state L) = automatic"
    and "finished1 K1" "\<forall>k < K1. \<not> finished1 k" "finished2 K2" "\<forall>k < K2. \<not> finished2 k"
  shows "\<exists>L'. Environment_finalize P finished1 finished2 automatic L = ret (L', []) \<and>
    \<not> isBlockingEnabled (li_state L') \<and> \<not> isNonBlockingEnabled (li_state L') \<and> \<not> es_initialized (li_state L') \<and>
    (isBlockingEnabled (li_state L) \<or> isNonBlockingEnabled (li_state L) \<longrightarrow>
       al_operation (sy_alloc (li_sys L')) = None \<and> al_coll (sy_alloc (li_sys L')) = None \<and>
       po_pollingInstance (li_polling L') = None)"
proof -
  have rt: "rt_ok (pf_rt P)" using assms(1) by (simp add: plat_ok_def)
  have fin: "shouldFinalize (li_state L) automatic = Inr (True, [])"
    using assms(3,4) by (simp add: shouldFinalize_def)
  show ?thesis
  proof (cases "es_blockingMode (li_state L) \<or> es_nonBlockingMode (li_state L)")
    case True
    then obtain i where i: "po_pollingInstance (li_polling L) = Some i"
      "pf_cm P \<longrightarrow> (\<exists>j. po_completionInstance (li_polling L) = Some j)"
      using env_reach_inv [OF assms(2)] by (auto simp: env_ok_def Let_def)
    then obtain j where j: "pf_cm P \<Longrightarrow> po_completionInstance (li_polling L) = Some j" by blast
    have "Polling_finalize P finished1 finished2 (li_polling L) (sy_log (li_sys L)) =
      ret ((li_polling L)\<lparr>po_pollingInstance := None,
             po_completionInstance := (if pf_cm P then None else po_completionInstance (li_polling L))\<rparr>,
           sy_log (li_sys L) @ replicate (K1 + (if pf_cm P then K2 else 0)) (alpi_task_waitfor_ns 1000000))"
      by (rule Polling_finalize_ok [OF rt i(1) j]) (use assms(5-8) in auto)
    then show ?thesis
      using True fin by (simp add: Environment_finalize_def Let_def isBlockingEnabled_def isNonBlockingEnabled_def
          Allocator_finalize_def Instrument_finalize_def)
  next
    case False
    then show ?thesis
      using fin by (simp add: Environment_finalize_def Let_def isBlockingEnabled_def isNonBlockingEnabled_def)
  qed
qed

text \<open>
  (C35) Wrong uses of the life cycle end the process: \<open>TAMPI_Init\<close> before MPI, \<open>TAMPI_Init\<close> and \<open>TAMPI_Finalize\<close>
  while the initialization is automatic, \<open>TAMPI_Finalize\<close> of a library that is not initialized, and
  \<open>MPI_Init_thread\<close> with \<open>MPI_TASK_MULTIPLE\<close> while the initialization is explicit.
\<close>

theorem lifecycle_misuse:
  assumes "resolves (cf_dlsym cf)"
  shows "(\<not> es_preinitialized (li_state L) \<longrightarrow>
      TAMPI_Init P cf required provided L = fail [Str ''Intializing TAMPI before MPI is invalid'']) \<and>
    (es_preinitialized (li_state L) \<and> es_autoInitialize (li_state L) \<longrightarrow>
      TAMPI_Init P cf required provided L = fail [Str ''Explicitly initializing TAMPI is invalid by default'']) \<and>
    (es_autoInitialize (li_state L) \<longrightarrow>
      TAMPI_Finalize P f1 f2 L = Some (fail [Str ''Explicitly initializing TAMPI is invalid by default''])) \<and>
    (\<not> es_autoInitialize (li_state L) \<and> \<not> es_initialized (li_state L) \<longrightarrow>
      TAMPI_Finalize P f1 f2 L = Some (fail [Str ''Finalizing TAMPI before initializing is invalid''])) \<and>
    (\<not> es_autoInitialize (li_state L) \<longrightarrow>
      MPI_Init_thread P cf nt tid argc argv (cf_TASK_MULTIPLE cf) L =
        fail [Str ''The MPI_TASK_MULTIPLE must be passed to TAMPI_Init''])"
proof -
  obtain sym where "Symbol_make (cf_dlsym cf) ''MPI_Init_thread'' True = Inr sym"
    using Symbol_make_ok [OF assms] by blast
  then show ?thesis
    by (simp add: TAMPI_Init_def TAMPI_Finalize_def Environment_initialize_def Environment_finalize_def
        shouldInitialize_def shouldFinalize_def MPI_Init_thread_def isAutoInitializeEnabled_eq rbind_fail)
qed

text \<open>
  Nothing rejects a second \<open>TAMPI_Init\<close>: it succeeds like the first, spawns a second polling task beside
  the first and keeps only the second instance, so that a later finalization ends only one of them.
\<close>

lemma second_init_spawns_again:
  assumes "plat_ok P" "config_ok P cf" "es_preinitialized (li_state L)" "\<not> es_autoInitialize (li_state L)"
    and "es_nativeThreadLevel (li_state L) = cf_THREAD_MULTIPLE cf" "\<not> cf_disableNonBlocking cf"
    and "required = cf_TASK_MULTIPLE cf \<or> required = cf_THREAD_MULTIPLE cf"
  shows "\<exists>p1 L1 w1 p2 L2 w2. TAMPI_Init P cf required p L = Inr (0, p1, L1, w1) \<and>
    TAMPI_Init P cf required p L1 = Inr (0, p2, L2, w2) \<and> isNonBlockingEnabled (li_state L2) \<and>
    count_list (sy_log (li_sys L2)) (alpi_task_spawn ''TAMPI'') =
      count_list (sy_log (li_sys L)) (alpi_task_spawn ''TAMPI'') + 2"
proof -
  have sh: "shouldEnableNonBlocking cf required" using assms(6,7) by (auto simp: shouldEnableNonBlocking_def)
  have step: "\<exists>p1 L1 w1 calls. TAMPI_Init P cf required p L0 = Inr (0, p1, L1, w1) \<and>
      es_preinitialized (li_state L1) \<and> \<not> es_autoInitialize (li_state L1) \<and>
      es_nativeThreadLevel (li_state L1) = cf_THREAD_MULTIPLE cf \<and> es_nonBlockingMode (li_state L1) \<and>
      sy_log (li_sys L1) = sy_log (li_sys L0) @ calls \<and> count_list calls (alpi_task_spawn ''TAMPI'') = 1"
    if "es_preinitialized (li_state L0)" "\<not> es_autoInitialize (li_state L0)"
      "es_nativeThreadLevel (li_state L0) = cf_THREAD_MULTIPLE cf" for L0 :: "('a, 'b, 'c) lib"
    using Environment_initialize_ok [OF assms(1,2) that(1) _ that(3), of False required p] sh that
    by (fastforce simp: TAMPI_Init_def)
  obtain p1 L1 w1 c1 where 1: "TAMPI_Init P cf required p L = Inr (0, p1, L1, w1)"
    "es_preinitialized (li_state L1)" "\<not> es_autoInitialize (li_state L1)"
    "es_nativeThreadLevel (li_state L1) = cf_THREAD_MULTIPLE cf"
    "sy_log (li_sys L1) = sy_log (li_sys L) @ c1" "count_list c1 (alpi_task_spawn ''TAMPI'') = 1"
    using step [OF assms(3-5)] by blast
  obtain p2 L2 w2 c2 where 2: "TAMPI_Init P cf required p L1 = Inr (0, p2, L2, w2)" "es_nonBlockingMode (li_state L2)"
    "sy_log (li_sys L2) = sy_log (li_sys L1) @ c2" "count_list c2 (alpi_task_spawn ''TAMPI'') = 1"
    using step [OF 1(2-4)] by blast
  have "count_list (sy_log (li_sys L2)) (alpi_task_spawn ''TAMPI'') =
      count_list (sy_log (li_sys L)) (alpi_task_spawn ''TAMPI'') + 2" using 1(5,6) 2(3,4) by simp
  with 1(1) 2(1,2) show ?thesis by (auto simp: isNonBlockingEnabled_def)
qed

section \<open>A sample process\<close>

text \<open>Queues that know their capacity, and an MPI library whose state is the thread level.\<close>

definition cap_spsc :: "(nat \<times> 'a list, 'a) spsc" where
  "cap_spsc = \<lparr>
     spsc_push = (\<lambda>xs (n, q). let k = min (length xs) (n - length (take n q)) in (k, n, take n q @ take k xs)),
     spsc_pop = (\<lambda>k (n, q). (take k (take n q), n, drop k (take n q))),
     spsc_consume_all = (\<lambda>(n, q). (take n q, n, [])),
     spsc_read_available = (\<lambda>(n, q). length (take n q)),
     spsc_contents = (\<lambda>(n, q). take n q), spsc_capacity = fst \<rparr>"

lemma cap_spsc_ok: "spsc_ok cap_spsc"
  by (auto simp: spsc_ok_def cap_spsc_def Let_def)

definition sample_boot :: "(nat, nat \<times> nat list, TaskContext list) platform" where
  "sample_boot = \<lparr>pf_mpi = eager_mpi, pf_rt = const_rt 1, pf_B = cap_spsc, pf_C = list_spsc 100, pf_cm = True\<rparr>"

definition sample_config :: "(nat \<times> nat list) config" where
  "sample_config = \<lparr>cf_THREAD_SINGLE = 0, cf_THREAD_MULTIPLE = 3, cf_ERR_ARG = 13, cf_disableBlocking = False,
     cf_disableNonBlocking = False, cf_haveOvni = False, cf_pollingMode = ''auto'', cf_instrument = ''none'',
     cf_dlsym = (\<lambda>_ _. Some 1), cf_mmap1 = Some 4096, cf_mmap2 = Some 8192, cf_newq = (\<lambda>n. (n, []))\<rparr>"

definition sample_native :: "nat native" where
  "sample_native = \<lparr>nt_Init = (\<lambda>_ _ m. (0, 0)), nt_Init_thread = (\<lambda>_ _ req m. ((0, int (nat req)), nat req)),
     nt_Query_thread = (\<lambda>m. ((0, int m), m)), nt_Finalize = (\<lambda>m. (0, m)),
     nt_Comm_rank = (\<lambda>m. (1, m)), nt_Comm_size = (\<lambda>m. (2, m))\<rparr>"

definition sample_empty_mq :: "nat mlfq" where
  "sample_empty_mq = \<lparr> mq_capacity = 4, mq_queues = 2, mq_data = [replicate 4 0, replicate 4 0],
     mq_fullFailure = True, mq_tail = [0, 0], mq_remaining = [0, 0], mq_head = [0, 0],
     mq_available = [0, 0], mq_totalRemaining = 0, mq_current = 0 \<rparr>"

definition sample_lib :: "env_state \<Rightarrow> (nat, nat \<times> nat list, TaskContext list) lib" where
  "sample_lib st = \<lparr>li_state = st, li_mpi_symbols = initialSymbols, li_rank = 0, li_nranks = 0,
     li_tasking = \<lparr>tms_symbols = initialSymbols, tms_pollingFunction = None\<rparr>,
     li_instr = \<lparr>in_backend = False, in_threadInit = False, in_calls = []\<rparr>,
     li_polling = \<lparr>po_pollingInstance = None, po_completionInstance = None,
       po_periodCtrl = sample_period, po_completionPeriodCtrl = sample_period\<rparr>,
     li_sys = \<lparr>sy_tm = \<lparr>tm_generalTesting = Approach_Test, tm_immediateTesting = Approach_Test,
         tm_capacityCtrl = tm_capacityCtrl (sample_tm Approach_Test), tm_pending = 0, tm_arrays = tm_arrays (sample_tm Approach_Test),
         tm_p2pOperations = sample_empty_mq,
         tm_collOperations = \<lparr>bq_multipleProducers = True, bq_fullFailure = False, bq_queue = (8, [])\<rparr>\<rparr>,
       sy_world = sample_world, sy_alloc = \<lparr>al_operation = None, al_coll = None\<rparr>,
       sy_ops = sy_ops (sample_sys Approach_Test), sy_colls = sy_colls (sample_sys Approach_Test)\<rparr>\<rparr>"

definition sample_fresh :: "(nat, nat \<times> nat list, TaskContext list) lib" where
  "sample_fresh = sample_lib (State sample_config)"

lemma sample_boot_ok: "plat_ok sample_boot"
  using sample_plat_ok [of True] by (simp add: plat_ok_def sample_boot_def sample_plat_def cap_spsc_ok eager_mpi_ok)

lemma sample_config_ok: "config_ok sample_boot sample_config" "resolves (cf_dlsym sample_config)" "query_ok sample_native"
  by (simp_all add: config_ok_def resolves_def sample_boot_def sample_config_def const_rt_def cap_spsc_def query_ok_def
      sample_native_def)

lemma sample_levels:
  "cf_THREAD_MULTIPLE sample_config = 3" "\<not> cf_disableBlocking sample_config" "\<not> cf_disableNonBlocking sample_config"
  "li_state sample_fresh = State sample_config" "li_mpi sample_fresh = 0"
  "nt_Init_thread sample_native a b req m = ((0, int (nat req)), nat req)"
  by (simp_all add: sample_config_def sample_fresh_def sample_lib_def sample_native_def sample_world_def)

theorem init_enables_modes_witness:
  "\<exists>L' wn. MPI_Init_thread sample_boot sample_config sample_native 0 0 0 4 sample_fresh = Inr (0, 4, L', wn) \<and>
     isBlockingEnabledForCurrentThread 7 (li_state L') \<and> isNonBlockingEnabled (li_state L')"
  using init_enables_modes [OF sample_boot_ok sample_config_ok(1) sample_levels(4), of sample_native 0 0 3 4 0 7]
  by (auto simp: sample_levels)

lemma sample_reach:
  obtains L wn where "MPI_Init_thread sample_boot sample_config sample_native 0 0 0 4 sample_fresh = Inr (0, 4, L, wn)"
    "env_reach sample_boot sample_config sample_native L" "es_blockingMode (li_state L)" "es_initialized (li_state L)"
    "es_autoInitialize (li_state L)"
proof -
  obtain L wn where L: "MPI_Init_thread sample_boot sample_config sample_native 0 0 0 4 sample_fresh = Inr (0, 4, L, wn)"
    "es_blockingMode (li_state L)"
    using MPI_Init_thread_ok [OF sample_boot_ok sample_config_ok(1) sample_levels(4), of sample_native 0 0 3 4 0]
    by (auto simp: sample_levels)
  have r: "env_reach sample_boot sample_config sample_native L"
  proof (rule reach_step)
    show "env_reach sample_boot sample_config sample_native sample_fresh" by (rule reach_start) (rule sample_levels(4))
    show "env_step sample_boot sample_config sample_native sample_fresh L" by (rule env_step.mpi_init_thread [OF L(1)])
  qed
  have "es_initialized (li_state L)" using env_reach_inv [OF r] L(2) by (simp add: env_ok_def Let_def)
  moreover have "es_autoInitialize (li_state L)"
    using MPI_Init_thread_auto [OF L(1)] L(2) sample_levels(4) by (auto simp: State_def)
  ultimately show thesis using that L r by blast
qed

theorem env_lifecycle_witness:
  "\<exists>L. env_reach sample_boot sample_config sample_native L \<and> isBlockingEnabled (li_state L) \<and>
     isNonBlockingEnabled (li_state L) \<and> al_operation (sy_alloc (li_sys L)) \<noteq> None \<and>
     es_nativeThreadLevel (li_state L) = 3"
proof -
  obtain L where L: "env_reach sample_boot sample_config sample_native L" "es_blockingMode (li_state L)"
    by (rule sample_reach)
  show ?thesis using env_lifecycle [OF L(1)] L by (auto simp: isBlockingEnabled_def sample_levels)
qed

theorem query_agrees_witness:
  "\<exists>L' wn L''. MPI_Init_thread sample_boot sample_config sample_native 0 0 0 4 sample_fresh = Inr (0, 4, L', wn) \<and>
     MPI_Query_thread sample_config sample_native 5 0 L' = Inr (0, 4, L'')"
proof -
  obtain L' wn where L: "MPI_Init_thread sample_boot sample_config sample_native 0 0 0 4 sample_fresh = Inr (0, 4, L', wn)"
    by (rule sample_reach)
  show ?thesis
    using query_agrees [OF _ sample_config_ok(2) L sample_config_ok(3), of 5 0] L by (auto simp: sample_levels State_def)
qed

theorem property_set_get_witness:
  "fst (TAMPI_Property_set sample_config 2 4 0 sample_fresh) = 0 \<and>
   TAMPI_Property_get sample_config 2 4 9 (snd (TAMPI_Property_set sample_config 2 4 0 sample_fresh)) = (0, 0) \<and>
   fst (TAMPI_Property_set sample_config 2 1 0 sample_fresh) = 13"
  using property_set_get [of sample_config 2 4 0 sample_fresh "fst (TAMPI_Property_set sample_config 2 4 0 sample_fresh)"
      "snd (TAMPI_Property_set sample_config 2 4 0 sample_fresh)" 9]
    property_set_get [of sample_config 2 1 0 sample_fresh "fst (TAMPI_Property_set sample_config 2 1 0 sample_fresh)"
      "snd (TAMPI_Property_set sample_config 2 1 0 sample_fresh)" 9]
  by (simp add: sample_config_def)

theorem finalize_disables_witness:
  "\<exists>L L'. env_reach sample_boot sample_config sample_native L \<and> isBlockingEnabled (li_state L) \<and>
     Environment_finalize sample_boot (\<lambda>k. 3 \<le> k) (\<lambda>k. 1 \<le> k) True L = ret (L', []) \<and>
     \<not> isBlockingEnabled (li_state L') \<and> al_coll (sy_alloc (li_sys L')) = None"
proof -
  obtain L where L: "env_reach sample_boot sample_config sample_native L" "es_blockingMode (li_state L)"
    "es_initialized (li_state L)" "es_autoInitialize (li_state L)"
    by (rule sample_reach)
  have "es_autoInitialize (li_state L) = True" using L(4) by simp
  then show ?thesis
    using finalize_disables [OF sample_boot_ok L(1,3), of True "\<lambda>k. 3 \<le> k" 3 "\<lambda>k. 1 \<le> k" 1] L(1,2)
    by (auto simp: isBlockingEnabled_def)
qed

theorem lifecycle_misuse_witness:
  "TAMPI_Init sample_boot sample_config 4 0 sample_fresh = fail [Str ''Intializing TAMPI before MPI is invalid''] \<and>
   TAMPI_Finalize sample_boot (\<lambda>_. True) (\<lambda>_. True) sample_fresh =
     Some (fail [Str ''Explicitly initializing TAMPI is invalid by default''])"
  using lifecycle_misuse [OF sample_config_ok(2), of sample_fresh sample_boot 4 0 "\<lambda>_. True" "\<lambda>_. True" sample_native 0 0 0]
  by (simp add: sample_levels State_def)

end
