(* ===== verification/C_Api.thy ===== *)
theory C_Api
  imports Environment
begin

text \<open>
  The functions of the application interface that communicate (src/src/c, all files but
  InitFinalize.cpp and Utils.cpp): the blocking MPI functions that the library intercepts and the
  non-blocking functions \<open>TAMPI_I...\<close> it adds. A blocking function becomes a task-aware operation when
  the mode is enabled for the thread, and otherwise calls the function of MPI; a non-blocking one
  becomes an operation or fails.
\<close>

section \<open>Callers\<close>

text \<open>
  The functions of MPI that the library intercepts, as calls with their arguments. Arrays, buffers and
  statuses are addresses.
\<close>

datatype (plugins only: code) ncall =
    Native_Bsend ptr int mpi_datatype int int mpi_comm
  | Native_Recv ptr int mpi_datatype int int mpi_comm ptr
  | Native_Rsend ptr int mpi_datatype int int mpi_comm
  | Native_Send ptr int mpi_datatype int int mpi_comm
  | Native_Ssend ptr int mpi_datatype int int mpi_comm
  | Native_Allgather ptr int mpi_datatype ptr int mpi_datatype mpi_comm
  | Native_Allgatherv ptr int mpi_datatype ptr ptr ptr mpi_datatype mpi_comm
  | Native_Allreduce ptr ptr int mpi_datatype mpi_op mpi_comm
  | Native_Alltoall ptr int mpi_datatype ptr int mpi_datatype mpi_comm
  | Native_Alltoallv ptr ptr ptr mpi_datatype ptr ptr ptr mpi_datatype mpi_comm
  | Native_Alltoallw ptr ptr ptr ptr ptr ptr ptr ptr mpi_comm
  | Native_Barrier mpi_comm
  | Native_Bcast ptr int mpi_datatype int mpi_comm
  | Native_Exscan ptr ptr int mpi_datatype mpi_op mpi_comm
  | Native_Gather ptr int mpi_datatype ptr int mpi_datatype int mpi_comm
  | Native_Gatherv ptr int mpi_datatype ptr ptr ptr mpi_datatype int mpi_comm
  | Native_Reduce ptr ptr int mpi_datatype mpi_op int mpi_comm
  | Native_Reduce_scatter ptr ptr ptr mpi_datatype mpi_op mpi_comm
  | Native_Reduce_scatter_block ptr ptr int mpi_datatype mpi_op mpi_comm
  | Native_Scan ptr ptr int mpi_datatype mpi_op mpi_comm
  | Native_Scatter ptr int mpi_datatype ptr int mpi_datatype int mpi_comm
  | Native_Scatterv ptr ptr ptr mpi_datatype ptr int mpi_datatype int mpi_comm
  | Native_Wait ptr ptr
  | Native_Waitall int ptr ptr

text \<open>
  What a call depends on beside its arguments and the state of the library: the platform seen by the
  task, the dynamic linker, the functions of MPI, the thread, and what the consumers of the
  pre-queues do while a push spins on a full queue.
\<close>

record ('m, 'q, 'c) caller =
  cx_P :: "('m, 'q, 'c) platform"
  cx_dlsym :: dlsym
  cx_native :: "ncall \<Rightarrow> 'm \<Rightarrow> int \<times> 'm"
  cx_thread :: nat
  cx_env :: "nat \<Rightarrow> nat mlfq \<Rightarrow> nat mlfq"
  cx_envc :: "nat \<Rightarrow> 'q \<Rightarrow> 'q"

abbreviation cx_mpi :: "('m, 'q, 'c) caller \<Rightarrow> 'm mpi" where
  "cx_mpi cx \<equiv> pf_mpi (cx_P cx)"

text \<open>The two ways of a function: an operation, with \<open>MPI_SUCCESS\<close>, or the function of MPI itself.\<close>

definition process_Operation ::
    "('m, 'q, 'c) caller \<Rightarrow> OpNature \<Rightarrow> (task \<Rightarrow> Operation) \<Rightarrow> ('m, 'q, 'c) lib \<Rightarrow> (int \<times> ('m, 'q, 'c) lib) run" where
  "process_Operation cx nature mk L =
     run_bind (process_p2p (cx_P cx) (cx_env cx) nature mk (li_sys L)) (\<lambda>s. ret (MPI_SUCCESS, L\<lparr>li_sys := s\<rparr>))"

definition process_CollOperation ::
    "('m, 'q, 'c) caller \<Rightarrow> OpNature \<Rightarrow> (task \<Rightarrow> CollOperation) \<Rightarrow> ('m, 'q, 'c) lib \<Rightarrow> (int \<times> ('m, 'q, 'c) lib) run" where
  "process_CollOperation cx nature mk L =
     run_bind (process_coll (cx_P cx) (cx_envc cx) nature mk (li_sys L)) (\<lambda>s. ret (MPI_SUCCESS, L\<lparr>li_sys := s\<rparr>))"

definition call_native ::
    "('m, 'q, 'c) caller \<Rightarrow> string \<Rightarrow> ncall \<Rightarrow> ('m, 'q, 'c) lib \<Rightarrow> (int \<times> ('m, 'q, 'c) lib) run" where
  "call_native cx name call L =
     run_bind (Some (Symbol_make (cx_dlsym cx) name True)) (\<lambda>_.
     let (err, m) = cx_native cx call (li_mpi L) in ret (err, set_mpi m L))"

section \<open>Point-to-point functions\<close>

definition MPI_Bsend ::
    "('m, 'q, 'c) caller \<Rightarrow> ptr \<Rightarrow> int \<Rightarrow> mpi_datatype \<Rightarrow> int \<Rightarrow> int \<Rightarrow> mpi_comm \<Rightarrow>
     ('m, 'q, 'c) lib \<Rightarrow> (int \<times> ('m, 'q, 'c) lib) run" where
  "MPI_Bsend cx buf cnt dtype dest tag comm L =
     (if isBlockingEnabledForCurrentThread (cx_thread cx) (li_state L) then
        process_Operation cx BLK
          (\<lambda>task. Operation_new task BSEND BLK buf cnt dtype dest tag comm (MPI_STATUS_IGNORE (cx_mpi cx))) L
      else call_native cx ''MPI_Bsend'' (Native_Bsend buf cnt dtype dest tag comm) L)"

definition TAMPI_Ibsend ::
    "('m, 'q, 'c) caller \<Rightarrow> ptr \<Rightarrow> int \<Rightarrow> mpi_datatype \<Rightarrow> int \<Rightarrow> int \<Rightarrow> mpi_comm \<Rightarrow>
     ('m, 'q, 'c) lib \<Rightarrow> (int \<times> ('m, 'q, 'c) lib) run" where
  "TAMPI_Ibsend cx buf cnt dtype dest tag comm L =
     (if isNonBlockingEnabled (li_state L) then
        process_Operation cx NONBLK
          (\<lambda>task. Operation_new task BSEND NONBLK buf cnt dtype dest tag comm (MPI_STATUS_IGNORE (cx_mpi cx))) L
      else Some (fail [Str ''TAMPI_Ibsend'', Str '' not enabled'']))"

definition MPI_Recv ::
    "('m, 'q, 'c) caller \<Rightarrow> ptr \<Rightarrow> int \<Rightarrow> mpi_datatype \<Rightarrow> int \<Rightarrow> int \<Rightarrow> mpi_comm \<Rightarrow> ptr \<Rightarrow>
     ('m, 'q, 'c) lib \<Rightarrow> (int \<times> ('m, 'q, 'c) lib) run" where
  "MPI_Recv cx buf cnt dtype source tag comm status L =
     (if isBlockingEnabledForCurrentThread (cx_thread cx) (li_state L) then
        process_Operation cx BLK
          (\<lambda>task. Operation_new task RECV BLK buf cnt dtype source tag comm status) L
      else call_native cx ''MPI_Recv'' (Native_Recv buf cnt dtype source tag comm status) L)"

definition TAMPI_Irecv ::
    "('m, 'q, 'c) caller \<Rightarrow> ptr \<Rightarrow> int \<Rightarrow> mpi_datatype \<Rightarrow> int \<Rightarrow> int \<Rightarrow> mpi_comm \<Rightarrow> ptr \<Rightarrow>
     ('m, 'q, 'c) lib \<Rightarrow> (int \<times> ('m, 'q, 'c) lib) run" where
  "TAMPI_Irecv cx buf cnt dtype source tag comm status L =
     (if isNonBlockingEnabled (li_state L) then
        process_Operation cx NONBLK
          (\<lambda>task. Operation_new task RECV NONBLK buf cnt dtype source tag comm status) L
      else Some (fail [Str ''TAMPI_Irecv'', Str '' not enabled'']))"

definition MPI_Rsend ::
    "('m, 'q, 'c) caller \<Rightarrow> ptr \<Rightarrow> int \<Rightarrow> mpi_datatype \<Rightarrow> int \<Rightarrow> int \<Rightarrow> mpi_comm \<Rightarrow>
     ('m, 'q, 'c) lib \<Rightarrow> (int \<times> ('m, 'q, 'c) lib) run" where
  "MPI_Rsend cx buf cnt dtype dest tag comm L =
     (if isBlockingEnabledForCurrentThread (cx_thread cx) (li_state L) then
        process_Operation cx BLK
          (\<lambda>task. Operation_new task RSEND BLK buf cnt dtype dest tag comm (MPI_STATUS_IGNORE (cx_mpi cx))) L
      else call_native cx ''MPI_Rsend'' (Native_Rsend buf cnt dtype dest tag comm) L)"

definition TAMPI_Irsend ::
    "('m, 'q, 'c) caller \<Rightarrow> ptr \<Rightarrow> int \<Rightarrow> mpi_datatype \<Rightarrow> int \<Rightarrow> int \<Rightarrow> mpi_comm \<Rightarrow>
     ('m, 'q, 'c) lib \<Rightarrow> (int \<times> ('m, 'q, 'c) lib) run" where
  "TAMPI_Irsend cx buf cnt dtype dest tag comm L =
     (if isNonBlockingEnabled (li_state L) then
        process_Operation cx NONBLK
          (\<lambda>task. Operation_new task RSEND NONBLK buf cnt dtype dest tag comm (MPI_STATUS_IGNORE (cx_mpi cx))) L
      else Some (fail [Str ''TAMPI_Irsend'', Str '' not enabled'']))"

definition MPI_Send ::
    "('m, 'q, 'c) caller \<Rightarrow> ptr \<Rightarrow> int \<Rightarrow> mpi_datatype \<Rightarrow> int \<Rightarrow> int \<Rightarrow> mpi_comm \<Rightarrow>
     ('m, 'q, 'c) lib \<Rightarrow> (int \<times> ('m, 'q, 'c) lib) run" where
  "MPI_Send cx buf cnt dtype dest tag comm L =
     (if isBlockingEnabledForCurrentThread (cx_thread cx) (li_state L) then
        process_Operation cx BLK
          (\<lambda>task. Operation_new task SEND BLK buf cnt dtype dest tag comm (MPI_STATUS_IGNORE (cx_mpi cx))) L
      else call_native cx ''MPI_Send'' (Native_Send buf cnt dtype dest tag comm) L)"

definition TAMPI_Isend ::
    "('m, 'q, 'c) caller \<Rightarrow> ptr \<Rightarrow> int \<Rightarrow> mpi_datatype \<Rightarrow> int \<Rightarrow> int \<Rightarrow> mpi_comm \<Rightarrow>
     ('m, 'q, 'c) lib \<Rightarrow> (int \<times> ('m, 'q, 'c) lib) run" where
  "TAMPI_Isend cx buf cnt dtype dest tag comm L =
     (if isNonBlockingEnabled (li_state L) then
        process_Operation cx NONBLK
          (\<lambda>task. Operation_new task SEND NONBLK buf cnt dtype dest tag comm (MPI_STATUS_IGNORE (cx_mpi cx))) L
      else Some (fail [Str ''TAMPI_Isend'', Str '' not enabled'']))"

definition MPI_Ssend ::
    "('m, 'q, 'c) caller \<Rightarrow> ptr \<Rightarrow> int \<Rightarrow> mpi_datatype \<Rightarrow> int \<Rightarrow> int \<Rightarrow> mpi_comm \<Rightarrow>
     ('m, 'q, 'c) lib \<Rightarrow> (int \<times> ('m, 'q, 'c) lib) run" where
  "MPI_Ssend cx buf cnt dtype dest tag comm L =
     (if isBlockingEnabledForCurrentThread (cx_thread cx) (li_state L) then
        process_Operation cx BLK
          (\<lambda>task. Operation_new task SSEND BLK buf cnt dtype dest tag comm (MPI_STATUS_IGNORE (cx_mpi cx))) L
      else call_native cx ''MPI_Ssend'' (Native_Ssend buf cnt dtype dest tag comm) L)"

definition TAMPI_Issend ::
    "('m, 'q, 'c) caller \<Rightarrow> ptr \<Rightarrow> int \<Rightarrow> mpi_datatype \<Rightarrow> int \<Rightarrow> int \<Rightarrow> mpi_comm \<Rightarrow>
     ('m, 'q, 'c) lib \<Rightarrow> (int \<times> ('m, 'q, 'c) lib) run" where
  "TAMPI_Issend cx buf cnt dtype dest tag comm L =
     (if isNonBlockingEnabled (li_state L) then
        process_Operation cx NONBLK
          (\<lambda>task. Operation_new task SSEND NONBLK buf cnt dtype dest tag comm (MPI_STATUS_IGNORE (cx_mpi cx))) L
      else Some (fail [Str ''TAMPI_Issend'', Str '' not enabled'']))"

section \<open>Collective functions\<close>

definition MPI_Allgather ::
    "('m, 'q, 'c) caller \<Rightarrow> ptr \<Rightarrow> int \<Rightarrow> mpi_datatype \<Rightarrow> ptr \<Rightarrow> int \<Rightarrow> mpi_datatype \<Rightarrow> mpi_comm \<Rightarrow>
     ('m, 'q, 'c) lib \<Rightarrow> (int \<times> ('m, 'q, 'c) lib) run" where
  "MPI_Allgather cx sendbuf sendcount sendtype recvbuf recvcount recvtype comm L =
     (if isBlockingEnabledForCurrentThread (cx_thread cx) (li_state L) then
        process_CollOperation cx BLK
          (\<lambda>task. CollOperation_cc task ALLGATHER BLK comm sendbuf sendcount sendtype recvbuf recvcount recvtype (MPI_OP_NULL (cx_mpi cx)) 0) L
      else call_native cx ''MPI_Allgather'' (Native_Allgather sendbuf sendcount sendtype recvbuf recvcount recvtype comm) L)"

definition TAMPI_Iallgather ::
    "('m, 'q, 'c) caller \<Rightarrow> ptr \<Rightarrow> int \<Rightarrow> mpi_datatype \<Rightarrow> ptr \<Rightarrow> int \<Rightarrow> mpi_datatype \<Rightarrow> mpi_comm \<Rightarrow>
     ('m, 'q, 'c) lib \<Rightarrow> (int \<times> ('m, 'q, 'c) lib) run" where
  "TAMPI_Iallgather cx sendbuf sendcount sendtype recvbuf recvcount recvtype comm L =
     (if isNonBlockingEnabled (li_state L) then
        process_CollOperation cx NONBLK
          (\<lambda>task. CollOperation_cc task ALLGATHER NONBLK comm sendbuf sendcount sendtype recvbuf recvcount recvtype (MPI_OP_NULL (cx_mpi cx)) 0) L
      else Some (fail [Str ''TAMPI_Iallgather'', Str '' not enabled'']))"

definition MPI_Allgatherv ::
    "('m, 'q, 'c) caller \<Rightarrow> ptr \<Rightarrow> int \<Rightarrow> mpi_datatype \<Rightarrow> ptr \<Rightarrow> ptr \<Rightarrow> ptr \<Rightarrow> mpi_datatype \<Rightarrow> mpi_comm \<Rightarrow>
     ('m, 'q, 'c) lib \<Rightarrow> (int \<times> ('m, 'q, 'c) lib) run" where
  "MPI_Allgatherv cx sendbuf sendcount sendtype recvbuf recvcounts displs recvtype comm L =
     (if isBlockingEnabledForCurrentThread (cx_thread cx) (li_state L) then
        process_CollOperation cx BLK
          (\<lambda>task. CollOperation_cv task ALLGATHERV BLK comm sendbuf sendcount sendtype recvbuf recvcounts displs recvtype (MPI_OP_NULL (cx_mpi cx)) 0) L
      else call_native cx ''MPI_Allgatherv'' (Native_Allgatherv sendbuf sendcount sendtype recvbuf recvcounts displs recvtype comm) L)"

definition TAMPI_Iallgatherv ::
    "('m, 'q, 'c) caller \<Rightarrow> ptr \<Rightarrow> int \<Rightarrow> mpi_datatype \<Rightarrow> ptr \<Rightarrow> ptr \<Rightarrow> ptr \<Rightarrow> mpi_datatype \<Rightarrow> mpi_comm \<Rightarrow>
     ('m, 'q, 'c) lib \<Rightarrow> (int \<times> ('m, 'q, 'c) lib) run" where
  "TAMPI_Iallgatherv cx sendbuf sendcount sendtype recvbuf recvcounts displs recvtype comm L =
     (if isNonBlockingEnabled (li_state L) then
        process_CollOperation cx NONBLK
          (\<lambda>task. CollOperation_cv task ALLGATHERV NONBLK comm sendbuf sendcount sendtype recvbuf recvcounts displs recvtype (MPI_OP_NULL (cx_mpi cx)) 0) L
      else Some (fail [Str ''TAMPI_Iallgatherv'', Str '' not enabled'']))"

definition MPI_Allreduce ::
    "('m, 'q, 'c) caller \<Rightarrow> ptr \<Rightarrow> ptr \<Rightarrow> int \<Rightarrow> mpi_datatype \<Rightarrow> mpi_op \<Rightarrow> mpi_comm \<Rightarrow>
     ('m, 'q, 'c) lib \<Rightarrow> (int \<times> ('m, 'q, 'c) lib) run" where
  "MPI_Allreduce cx sendbuf recvbuf cnt dtype oper comm L =
     (if isBlockingEnabledForCurrentThread (cx_thread cx) (li_state L) then
        process_CollOperation cx BLK
          (\<lambda>task. CollOperation_cc task ALLREDUCE BLK comm sendbuf cnt dtype recvbuf cnt dtype oper 0) L
      else call_native cx ''MPI_Allreduce'' (Native_Allreduce sendbuf recvbuf cnt dtype oper comm) L)"

definition TAMPI_Iallreduce ::
    "('m, 'q, 'c) caller \<Rightarrow> ptr \<Rightarrow> ptr \<Rightarrow> int \<Rightarrow> mpi_datatype \<Rightarrow> mpi_op \<Rightarrow> mpi_comm \<Rightarrow>
     ('m, 'q, 'c) lib \<Rightarrow> (int \<times> ('m, 'q, 'c) lib) run" where
  "TAMPI_Iallreduce cx sendbuf recvbuf cnt dtype oper comm L =
     (if isNonBlockingEnabled (li_state L) then
        process_CollOperation cx NONBLK
          (\<lambda>task. CollOperation_cc task ALLREDUCE NONBLK comm sendbuf cnt dtype recvbuf cnt dtype oper 0) L
      else Some (fail [Str ''TAMPI_Iallreduce'', Str '' not enabled'']))"

definition MPI_Alltoall ::
    "('m, 'q, 'c) caller \<Rightarrow> ptr \<Rightarrow> int \<Rightarrow> mpi_datatype \<Rightarrow> ptr \<Rightarrow> int \<Rightarrow> mpi_datatype \<Rightarrow> mpi_comm \<Rightarrow>
     ('m, 'q, 'c) lib \<Rightarrow> (int \<times> ('m, 'q, 'c) lib) run" where
  "MPI_Alltoall cx sendbuf sendcount sendtype recvbuf recvcount recvtype comm L =
     (if isBlockingEnabledForCurrentThread (cx_thread cx) (li_state L) then
        process_CollOperation cx BLK
          (\<lambda>task. CollOperation_cc task ALLTOALL BLK comm sendbuf sendcount sendtype recvbuf recvcount recvtype (MPI_OP_NULL (cx_mpi cx)) 0) L
      else call_native cx ''MPI_Alltoall'' (Native_Alltoall sendbuf sendcount sendtype recvbuf recvcount recvtype comm) L)"

definition TAMPI_Ialltoall ::
    "('m, 'q, 'c) caller \<Rightarrow> ptr \<Rightarrow> int \<Rightarrow> mpi_datatype \<Rightarrow> ptr \<Rightarrow> int \<Rightarrow> mpi_datatype \<Rightarrow> mpi_comm \<Rightarrow>
     ('m, 'q, 'c) lib \<Rightarrow> (int \<times> ('m, 'q, 'c) lib) run" where
  "TAMPI_Ialltoall cx sendbuf sendcount sendtype recvbuf recvcount recvtype comm L =
     (if isNonBlockingEnabled (li_state L) then
        process_CollOperation cx NONBLK
          (\<lambda>task. CollOperation_cc task ALLTOALL NONBLK comm sendbuf sendcount sendtype recvbuf recvcount recvtype (MPI_OP_NULL (cx_mpi cx)) 0) L
      else Some (fail [Str ''TAMPI_Ialltoall'', Str '' not enabled'']))"

definition MPI_Alltoallv ::
    "('m, 'q, 'c) caller \<Rightarrow> ptr \<Rightarrow> ptr \<Rightarrow> ptr \<Rightarrow> mpi_datatype \<Rightarrow> ptr \<Rightarrow> ptr \<Rightarrow> ptr \<Rightarrow> mpi_datatype \<Rightarrow> mpi_comm \<Rightarrow>
     ('m, 'q, 'c) lib \<Rightarrow> (int \<times> ('m, 'q, 'c) lib) run" where
  "MPI_Alltoallv cx sendbuf sendcounts sdispls sendtype recvbuf recvcounts rdispls recvtype comm L =
     (if isBlockingEnabledForCurrentThread (cx_thread cx) (li_state L) then
        process_CollOperation cx BLK
          (\<lambda>task. CollOperation_vv task ALLTOALLV BLK comm sendbuf sendcounts sdispls sendtype recvbuf recvcounts rdispls recvtype (MPI_OP_NULL (cx_mpi cx)) 0) L
      else call_native cx ''MPI_Alltoallv'' (Native_Alltoallv sendbuf sendcounts sdispls sendtype recvbuf recvcounts rdispls recvtype comm) L)"

definition TAMPI_Ialltoallv ::
    "('m, 'q, 'c) caller \<Rightarrow> ptr \<Rightarrow> ptr \<Rightarrow> ptr \<Rightarrow> mpi_datatype \<Rightarrow> ptr \<Rightarrow> ptr \<Rightarrow> ptr \<Rightarrow> mpi_datatype \<Rightarrow> mpi_comm \<Rightarrow>
     ('m, 'q, 'c) lib \<Rightarrow> (int \<times> ('m, 'q, 'c) lib) run" where
  "TAMPI_Ialltoallv cx sendbuf sendcounts sdispls sendtype recvbuf recvcounts rdispls recvtype comm L =
     (if isNonBlockingEnabled (li_state L) then
        process_CollOperation cx NONBLK
          (\<lambda>task. CollOperation_vv task ALLTOALLV NONBLK comm sendbuf sendcounts sdispls sendtype recvbuf recvcounts rdispls recvtype (MPI_OP_NULL (cx_mpi cx)) 0) L
      else Some (fail [Str ''TAMPI_Ialltoallv'', Str '' not enabled'']))"

definition MPI_Alltoallw ::
    "('m, 'q, 'c) caller \<Rightarrow> ptr \<Rightarrow> ptr \<Rightarrow> ptr \<Rightarrow> ptr \<Rightarrow> ptr \<Rightarrow> ptr \<Rightarrow> ptr \<Rightarrow> ptr \<Rightarrow> mpi_comm \<Rightarrow>
     ('m, 'q, 'c) lib \<Rightarrow> (int \<times> ('m, 'q, 'c) lib) run" where
  "MPI_Alltoallw cx sendbuf sendcounts sdispls sendtypes recvbuf recvcounts rdispls recvtypes comm L =
     (if isBlockingEnabledForCurrentThread (cx_thread cx) (li_state L) then
        process_CollOperation cx BLK
          (\<lambda>task. CollOperation_ww task ALLTOALLW BLK comm sendbuf sendcounts sdispls sendtypes recvbuf recvcounts rdispls recvtypes (MPI_OP_NULL (cx_mpi cx)) 0) L
      else Some (fail [Str ''TAMPI: '', Str ''MPI_Alltoallw'', Str '' not supported'']))"

definition TAMPI_Ialltoallw ::
    "('m, 'q, 'c) caller \<Rightarrow> ptr \<Rightarrow> ptr \<Rightarrow> ptr \<Rightarrow> ptr \<Rightarrow> ptr \<Rightarrow> ptr \<Rightarrow> ptr \<Rightarrow> ptr \<Rightarrow> mpi_comm \<Rightarrow>
     ('m, 'q, 'c) lib \<Rightarrow> (int \<times> ('m, 'q, 'c) lib) run" where
  "TAMPI_Ialltoallw cx sendbuf sendcounts sdispls sendtypes recvbuf recvcounts rdispls recvtypes comm L =
     (if isNonBlockingEnabled (li_state L) then
        process_CollOperation cx NONBLK
          (\<lambda>task. CollOperation_ww task ALLTOALLW NONBLK comm sendbuf sendcounts sdispls sendtypes recvbuf recvcounts rdispls recvtypes (MPI_OP_NULL (cx_mpi cx)) 0) L
      else Some (fail [Str ''TAMPI_Ialltoallw'', Str '' not enabled'']))"

definition MPI_Barrier ::
    "('m, 'q, 'c) caller \<Rightarrow> mpi_comm \<Rightarrow>
     ('m, 'q, 'c) lib \<Rightarrow> (int \<times> ('m, 'q, 'c) lib) run" where
  "MPI_Barrier cx comm L =
     (if isBlockingEnabledForCurrentThread (cx_thread cx) (li_state L) then
        process_CollOperation cx BLK
          (\<lambda>task. CollOperation_cc task BARRIER BLK comm 0 0 (MPI_DATATYPE_NULL (cx_mpi cx)) 0 0 (MPI_DATATYPE_NULL (cx_mpi cx)) (MPI_OP_NULL (cx_mpi cx)) 0) L
      else call_native cx ''MPI_Barrier'' (Native_Barrier comm) L)"

definition TAMPI_Ibarrier ::
    "('m, 'q, 'c) caller \<Rightarrow> mpi_comm \<Rightarrow>
     ('m, 'q, 'c) lib \<Rightarrow> (int \<times> ('m, 'q, 'c) lib) run" where
  "TAMPI_Ibarrier cx comm L =
     (if isNonBlockingEnabled (li_state L) then
        process_CollOperation cx NONBLK
          (\<lambda>task. CollOperation_cc task BARRIER NONBLK comm 0 0 (MPI_DATATYPE_NULL (cx_mpi cx)) 0 0 (MPI_DATATYPE_NULL (cx_mpi cx)) (MPI_OP_NULL (cx_mpi cx)) 0) L
      else Some (fail [Str ''TAMPI_Ibarrier'', Str '' not enabled'']))"

definition MPI_Bcast ::
    "('m, 'q, 'c) caller \<Rightarrow> ptr \<Rightarrow> int \<Rightarrow> mpi_datatype \<Rightarrow> int \<Rightarrow> mpi_comm \<Rightarrow>
     ('m, 'q, 'c) lib \<Rightarrow> (int \<times> ('m, 'q, 'c) lib) run" where
  "MPI_Bcast cx buffer cnt dtype rk comm L =
     (if isBlockingEnabledForCurrentThread (cx_thread cx) (li_state L) then
        process_CollOperation cx BLK
          (\<lambda>task. CollOperation_cc task BCAST BLK comm 0 0 (MPI_DATATYPE_NULL (cx_mpi cx)) buffer cnt dtype (MPI_OP_NULL (cx_mpi cx)) rk) L
      else call_native cx ''MPI_Bcast'' (Native_Bcast buffer cnt dtype rk comm) L)"

definition TAMPI_Ibcast ::
    "('m, 'q, 'c) caller \<Rightarrow> ptr \<Rightarrow> int \<Rightarrow> mpi_datatype \<Rightarrow> int \<Rightarrow> mpi_comm \<Rightarrow>
     ('m, 'q, 'c) lib \<Rightarrow> (int \<times> ('m, 'q, 'c) lib) run" where
  "TAMPI_Ibcast cx buffer cnt dtype rk comm L =
     (if isNonBlockingEnabled (li_state L) then
        process_CollOperation cx NONBLK
          (\<lambda>task. CollOperation_cc task BCAST NONBLK comm 0 0 (MPI_DATATYPE_NULL (cx_mpi cx)) buffer cnt dtype (MPI_OP_NULL (cx_mpi cx)) rk) L
      else Some (fail [Str ''TAMPI_Ibcast'', Str '' not enabled'']))"

definition MPI_Exscan ::
    "('m, 'q, 'c) caller \<Rightarrow> ptr \<Rightarrow> ptr \<Rightarrow> int \<Rightarrow> mpi_datatype \<Rightarrow> mpi_op \<Rightarrow> mpi_comm \<Rightarrow>
     ('m, 'q, 'c) lib \<Rightarrow> (int \<times> ('m, 'q, 'c) lib) run" where
  "MPI_Exscan cx sendbuf recvbuf cnt dtype oper comm L =
     (if isBlockingEnabledForCurrentThread (cx_thread cx) (li_state L) then
        process_CollOperation cx BLK
          (\<lambda>task. CollOperation_cc task EXSCAN BLK comm sendbuf cnt dtype recvbuf 0 (MPI_DATATYPE_NULL (cx_mpi cx)) oper 0) L
      else call_native cx ''MPI_Exscan'' (Native_Exscan sendbuf recvbuf cnt dtype oper comm) L)"

definition TAMPI_Iexscan ::
    "('m, 'q, 'c) caller \<Rightarrow> ptr \<Rightarrow> ptr \<Rightarrow> int \<Rightarrow> mpi_datatype \<Rightarrow> mpi_op \<Rightarrow> mpi_comm \<Rightarrow>
     ('m, 'q, 'c) lib \<Rightarrow> (int \<times> ('m, 'q, 'c) lib) run" where
  "TAMPI_Iexscan cx sendbuf recvbuf cnt dtype oper comm L =
     (if isNonBlockingEnabled (li_state L) then
        process_CollOperation cx NONBLK
          (\<lambda>task. CollOperation_cc task EXSCAN NONBLK comm sendbuf cnt dtype recvbuf 0 (MPI_DATATYPE_NULL (cx_mpi cx)) oper 0) L
      else Some (fail [Str ''TAMPI_Iexscan'', Str '' not enabled'']))"

definition MPI_Gather ::
    "('m, 'q, 'c) caller \<Rightarrow> ptr \<Rightarrow> int \<Rightarrow> mpi_datatype \<Rightarrow> ptr \<Rightarrow> int \<Rightarrow> mpi_datatype \<Rightarrow> int \<Rightarrow> mpi_comm \<Rightarrow>
     ('m, 'q, 'c) lib \<Rightarrow> (int \<times> ('m, 'q, 'c) lib) run" where
  "MPI_Gather cx sendbuf sendcount sendtype recvbuf recvcount recvtype rk comm L =
     (if isBlockingEnabledForCurrentThread (cx_thread cx) (li_state L) then
        process_CollOperation cx BLK
          (\<lambda>task. CollOperation_cc task GATHER BLK comm sendbuf sendcount sendtype recvbuf recvcount recvtype (MPI_OP_NULL (cx_mpi cx)) rk) L
      else call_native cx ''MPI_Gather'' (Native_Gather sendbuf sendcount sendtype recvbuf recvcount recvtype rk comm) L)"

definition TAMPI_Igather ::
    "('m, 'q, 'c) caller \<Rightarrow> ptr \<Rightarrow> int \<Rightarrow> mpi_datatype \<Rightarrow> ptr \<Rightarrow> int \<Rightarrow> mpi_datatype \<Rightarrow> int \<Rightarrow> mpi_comm \<Rightarrow>
     ('m, 'q, 'c) lib \<Rightarrow> (int \<times> ('m, 'q, 'c) lib) run" where
  "TAMPI_Igather cx sendbuf sendcount sendtype recvbuf recvcount recvtype rk comm L =
     (if isNonBlockingEnabled (li_state L) then
        process_CollOperation cx NONBLK
          (\<lambda>task. CollOperation_cc task GATHER NONBLK comm sendbuf sendcount sendtype recvbuf recvcount recvtype (MPI_OP_NULL (cx_mpi cx)) rk) L
      else Some (fail [Str ''TAMPI_Igather'', Str '' not enabled'']))"

definition MPI_Gatherv ::
    "('m, 'q, 'c) caller \<Rightarrow> ptr \<Rightarrow> int \<Rightarrow> mpi_datatype \<Rightarrow> ptr \<Rightarrow> ptr \<Rightarrow> ptr \<Rightarrow> mpi_datatype \<Rightarrow> int \<Rightarrow> mpi_comm \<Rightarrow>
     ('m, 'q, 'c) lib \<Rightarrow> (int \<times> ('m, 'q, 'c) lib) run" where
  "MPI_Gatherv cx sendbuf sendcount sendtype recvbuf recvcounts displs recvtype rk comm L =
     (if isBlockingEnabledForCurrentThread (cx_thread cx) (li_state L) then
        process_CollOperation cx BLK
          (\<lambda>task. CollOperation_cv task GATHERV BLK comm sendbuf sendcount sendtype recvbuf recvcounts displs recvtype (MPI_OP_NULL (cx_mpi cx)) rk) L
      else call_native cx ''MPI_Gatherv'' (Native_Gatherv sendbuf sendcount sendtype recvbuf recvcounts displs recvtype rk comm) L)"

definition TAMPI_Igatherv ::
    "('m, 'q, 'c) caller \<Rightarrow> ptr \<Rightarrow> int \<Rightarrow> mpi_datatype \<Rightarrow> ptr \<Rightarrow> ptr \<Rightarrow> ptr \<Rightarrow> mpi_datatype \<Rightarrow> int \<Rightarrow> mpi_comm \<Rightarrow>
     ('m, 'q, 'c) lib \<Rightarrow> (int \<times> ('m, 'q, 'c) lib) run" where
  "TAMPI_Igatherv cx sendbuf sendcount sendtype recvbuf recvcounts displs recvtype rk comm L =
     (if isNonBlockingEnabled (li_state L) then
        process_CollOperation cx NONBLK
          (\<lambda>task. CollOperation_cv task GATHERV NONBLK comm sendbuf sendcount sendtype recvbuf recvcounts displs recvtype (MPI_OP_NULL (cx_mpi cx)) rk) L
      else Some (fail [Str ''TAMPI_Igatherv'', Str '' not enabled'']))"

definition MPI_Reduce ::
    "('m, 'q, 'c) caller \<Rightarrow> ptr \<Rightarrow> ptr \<Rightarrow> int \<Rightarrow> mpi_datatype \<Rightarrow> mpi_op \<Rightarrow> int \<Rightarrow> mpi_comm \<Rightarrow>
     ('m, 'q, 'c) lib \<Rightarrow> (int \<times> ('m, 'q, 'c) lib) run" where
  "MPI_Reduce cx sendbuf recvbuf cnt dtype oper rk comm L =
     (if isBlockingEnabledForCurrentThread (cx_thread cx) (li_state L) then
        process_CollOperation cx BLK
          (\<lambda>task. CollOperation_cc task REDUCE BLK comm sendbuf cnt dtype recvbuf cnt dtype oper rk) L
      else call_native cx ''MPI_Reduce'' (Native_Reduce sendbuf recvbuf cnt dtype oper rk comm) L)"

definition TAMPI_Ireduce ::
    "('m, 'q, 'c) caller \<Rightarrow> ptr \<Rightarrow> ptr \<Rightarrow> int \<Rightarrow> mpi_datatype \<Rightarrow> mpi_op \<Rightarrow> int \<Rightarrow> mpi_comm \<Rightarrow>
     ('m, 'q, 'c) lib \<Rightarrow> (int \<times> ('m, 'q, 'c) lib) run" where
  "TAMPI_Ireduce cx sendbuf recvbuf cnt dtype oper rk comm L =
     (if isNonBlockingEnabled (li_state L) then
        process_CollOperation cx NONBLK
          (\<lambda>task. CollOperation_cc task REDUCE NONBLK comm sendbuf cnt dtype recvbuf cnt dtype oper rk) L
      else Some (fail [Str ''TAMPI_Ireduce'', Str '' not enabled'']))"

definition MPI_Reduce_scatter ::
    "('m, 'q, 'c) caller \<Rightarrow> ptr \<Rightarrow> ptr \<Rightarrow> ptr \<Rightarrow> mpi_datatype \<Rightarrow> mpi_op \<Rightarrow> mpi_comm \<Rightarrow>
     ('m, 'q, 'c) lib \<Rightarrow> (int \<times> ('m, 'q, 'c) lib) run" where
  "MPI_Reduce_scatter cx sendbuf recvbuf recvcounts dtype oper comm L =
     (if isBlockingEnabledForCurrentThread (cx_thread cx) (li_state L) then
        process_CollOperation cx BLK
          (\<lambda>task. CollOperation_cv task REDUCESCATTER BLK comm sendbuf 0 dtype recvbuf recvcounts 0 (MPI_DATATYPE_NULL (cx_mpi cx)) oper 0) L
      else call_native cx ''MPI_Reduce_scatter'' (Native_Reduce_scatter sendbuf recvbuf recvcounts dtype oper comm) L)"

definition TAMPI_Ireduce_scatter ::
    "('m, 'q, 'c) caller \<Rightarrow> ptr \<Rightarrow> ptr \<Rightarrow> ptr \<Rightarrow> mpi_datatype \<Rightarrow> mpi_op \<Rightarrow> mpi_comm \<Rightarrow>
     ('m, 'q, 'c) lib \<Rightarrow> (int \<times> ('m, 'q, 'c) lib) run" where
  "TAMPI_Ireduce_scatter cx sendbuf recvbuf recvcounts dtype oper comm L =
     (if isNonBlockingEnabled (li_state L) then
        process_CollOperation cx NONBLK
          (\<lambda>task. CollOperation_cv task REDUCESCATTER NONBLK comm sendbuf 0 dtype recvbuf recvcounts 0 (MPI_DATATYPE_NULL (cx_mpi cx)) oper 0) L
      else Some (fail [Str ''TAMPI_Ireduce_scatter'', Str '' not enabled'']))"

definition MPI_Reduce_scatter_block ::
    "('m, 'q, 'c) caller \<Rightarrow> ptr \<Rightarrow> ptr \<Rightarrow> int \<Rightarrow> mpi_datatype \<Rightarrow> mpi_op \<Rightarrow> mpi_comm \<Rightarrow>
     ('m, 'q, 'c) lib \<Rightarrow> (int \<times> ('m, 'q, 'c) lib) run" where
  "MPI_Reduce_scatter_block cx sendbuf recvbuf recvcount dtype oper comm L =
     (if isBlockingEnabledForCurrentThread (cx_thread cx) (li_state L) then
        process_CollOperation cx BLK
          (\<lambda>task. CollOperation_cc task REDUCESCATTERBLOCK BLK comm sendbuf 0 dtype recvbuf recvcount (MPI_DATATYPE_NULL (cx_mpi cx)) oper 0) L
      else call_native cx ''MPI_Reduce_scatter_block'' (Native_Reduce_scatter_block sendbuf recvbuf recvcount dtype oper comm) L)"

definition TAMPI_Ireduce_scatter_block ::
    "('m, 'q, 'c) caller \<Rightarrow> ptr \<Rightarrow> ptr \<Rightarrow> int \<Rightarrow> mpi_datatype \<Rightarrow> mpi_op \<Rightarrow> mpi_comm \<Rightarrow>
     ('m, 'q, 'c) lib \<Rightarrow> (int \<times> ('m, 'q, 'c) lib) run" where
  "TAMPI_Ireduce_scatter_block cx sendbuf recvbuf recvcount dtype oper comm L =
     (if isNonBlockingEnabled (li_state L) then
        process_CollOperation cx NONBLK
          (\<lambda>task. CollOperation_cc task REDUCESCATTERBLOCK NONBLK comm sendbuf 0 dtype recvbuf recvcount (MPI_DATATYPE_NULL (cx_mpi cx)) oper 0) L
      else Some (fail [Str ''TAMPI_Ireduce_scatter_block'', Str '' not enabled'']))"

definition MPI_Scan ::
    "('m, 'q, 'c) caller \<Rightarrow> ptr \<Rightarrow> ptr \<Rightarrow> int \<Rightarrow> mpi_datatype \<Rightarrow> mpi_op \<Rightarrow> mpi_comm \<Rightarrow>
     ('m, 'q, 'c) lib \<Rightarrow> (int \<times> ('m, 'q, 'c) lib) run" where
  "MPI_Scan cx sendbuf recvbuf cnt dtype oper comm L =
     (if isBlockingEnabledForCurrentThread (cx_thread cx) (li_state L) then
        process_CollOperation cx BLK
          (\<lambda>task. CollOperation_cc task SCAN BLK comm sendbuf cnt dtype recvbuf 0 (MPI_DATATYPE_NULL (cx_mpi cx)) oper 0) L
      else call_native cx ''MPI_Scan'' (Native_Scan sendbuf recvbuf cnt dtype oper comm) L)"

definition TAMPI_Iscan ::
    "('m, 'q, 'c) caller \<Rightarrow> ptr \<Rightarrow> ptr \<Rightarrow> int \<Rightarrow> mpi_datatype \<Rightarrow> mpi_op \<Rightarrow> mpi_comm \<Rightarrow>
     ('m, 'q, 'c) lib \<Rightarrow> (int \<times> ('m, 'q, 'c) lib) run" where
  "TAMPI_Iscan cx sendbuf recvbuf cnt dtype oper comm L =
     (if isNonBlockingEnabled (li_state L) then
        process_CollOperation cx NONBLK
          (\<lambda>task. CollOperation_cc task SCAN NONBLK comm sendbuf cnt dtype recvbuf 0 (MPI_DATATYPE_NULL (cx_mpi cx)) oper 0) L
      else Some (fail [Str ''TAMPI_Iscan'', Str '' not enabled'']))"

definition MPI_Scatter ::
    "('m, 'q, 'c) caller \<Rightarrow> ptr \<Rightarrow> int \<Rightarrow> mpi_datatype \<Rightarrow> ptr \<Rightarrow> int \<Rightarrow> mpi_datatype \<Rightarrow> int \<Rightarrow> mpi_comm \<Rightarrow>
     ('m, 'q, 'c) lib \<Rightarrow> (int \<times> ('m, 'q, 'c) lib) run" where
  "MPI_Scatter cx sendbuf sendcount sendtype recvbuf recvcount recvtype rk comm L =
     (if isBlockingEnabledForCurrentThread (cx_thread cx) (li_state L) then
        process_CollOperation cx BLK
          (\<lambda>task. CollOperation_cc task SCATTER BLK comm sendbuf sendcount sendtype recvbuf recvcount recvtype (MPI_OP_NULL (cx_mpi cx)) rk) L
      else call_native cx ''MPI_Scatter'' (Native_Scatter sendbuf sendcount sendtype recvbuf recvcount recvtype rk comm) L)"

definition TAMPI_Iscatter ::
    "('m, 'q, 'c) caller \<Rightarrow> ptr \<Rightarrow> int \<Rightarrow> mpi_datatype \<Rightarrow> ptr \<Rightarrow> int \<Rightarrow> mpi_datatype \<Rightarrow> int \<Rightarrow> mpi_comm \<Rightarrow>
     ('m, 'q, 'c) lib \<Rightarrow> (int \<times> ('m, 'q, 'c) lib) run" where
  "TAMPI_Iscatter cx sendbuf sendcount sendtype recvbuf recvcount recvtype rk comm L =
     (if isNonBlockingEnabled (li_state L) then
        process_CollOperation cx NONBLK
          (\<lambda>task. CollOperation_cc task SCATTER NONBLK comm sendbuf sendcount sendtype recvbuf recvcount recvtype (MPI_OP_NULL (cx_mpi cx)) rk) L
      else Some (fail [Str ''TAMPI_Iscatter'', Str '' not enabled'']))"

definition MPI_Scatterv ::
    "('m, 'q, 'c) caller \<Rightarrow> ptr \<Rightarrow> ptr \<Rightarrow> ptr \<Rightarrow> mpi_datatype \<Rightarrow> ptr \<Rightarrow> int \<Rightarrow> mpi_datatype \<Rightarrow> int \<Rightarrow> mpi_comm \<Rightarrow>
     ('m, 'q, 'c) lib \<Rightarrow> (int \<times> ('m, 'q, 'c) lib) run" where
  "MPI_Scatterv cx sendbuf sendcounts displs sendtype recvbuf recvcount recvtype rk comm L =
     (if isBlockingEnabledForCurrentThread (cx_thread cx) (li_state L) then
        process_CollOperation cx BLK
          (\<lambda>task. CollOperation_vc task SCATTERV BLK comm sendbuf sendcounts displs sendtype recvbuf recvcount recvtype (MPI_OP_NULL (cx_mpi cx)) rk) L
      else call_native cx ''MPI_Scatterv'' (Native_Scatterv sendbuf sendcounts displs sendtype recvbuf recvcount recvtype rk comm) L)"

definition TAMPI_Iscatterv ::
    "('m, 'q, 'c) caller \<Rightarrow> ptr \<Rightarrow> ptr \<Rightarrow> ptr \<Rightarrow> mpi_datatype \<Rightarrow> ptr \<Rightarrow> int \<Rightarrow> mpi_datatype \<Rightarrow> int \<Rightarrow> mpi_comm \<Rightarrow>
     ('m, 'q, 'c) lib \<Rightarrow> (int \<times> ('m, 'q, 'c) lib) run" where
  "TAMPI_Iscatterv cx sendbuf sendcounts displs sendtype recvbuf recvcount recvtype rk comm L =
     (if isNonBlockingEnabled (li_state L) then
        process_CollOperation cx NONBLK
          (\<lambda>task. CollOperation_vc task SCATTERV NONBLK comm sendbuf sendcounts displs sendtype recvbuf recvcount recvtype (MPI_OP_NULL (cx_mpi cx)) rk) L
      else Some (fail [Str ''TAMPI_Iscatterv'', Str '' not enabled'']))"

section \<open>Functions on requests\<close>

definition MPI_Wait ::
    "('m, 'q, 'c) caller \<Rightarrow> ptr \<Rightarrow> ptr \<Rightarrow> ('m, 'q, 'c) lib \<Rightarrow> (int \<times> ('m, 'q, 'c) lib) run" where
  "MPI_Wait cx request status L =
     (if isBlockingEnabledForCurrentThread (cx_thread cx) (li_state L) then
        Some (fail [Str ''MPI_Wait'', Str '' with task-aware behavior not supported''])
      else call_native cx ''MPI_Wait'' (Native_Wait request status) L)"

definition MPI_Waitall ::
    "('m, 'q, 'c) caller \<Rightarrow> int \<Rightarrow> ptr \<Rightarrow> ptr \<Rightarrow> ('m, 'q, 'c) lib \<Rightarrow> (int \<times> ('m, 'q, 'c) lib) run" where
  "MPI_Waitall cx cnt requests statuses L =
     (if isBlockingEnabledForCurrentThread (cx_thread cx) (li_state L) then
        Some (fail [Str ''MPI_Waitall'', Str '' with task-aware behavior not supported''])
      else call_native cx ''MPI_Waitall'' (Native_Waitall cnt requests statuses) L)"

definition TAMPI_Iwait :: "('m, 'q, 'c) lib \<Rightarrow> (int \<times> ('m, 'q, 'c) lib) run" where
  "TAMPI_Iwait L = Some (fail [Str ''TAMPI_Iwait'', Str '' not supported''])"

definition TAMPI_Iwaitall :: "('m, 'q, 'c) lib \<Rightarrow> (int \<times> ('m, 'q, 'c) lib) run" where
  "TAMPI_Iwaitall L = Some (fail [Str ''TAMPI: '', Str ''TAMPI_Iwaitall'', Str '' not supported''])"

section \<open>The interface as a whole\<close>

text \<open>The function of the library for each function of MPI, blocking and non-blocking.\<close>

fun blocking_call :: "('m, 'q, 'c) caller \<Rightarrow> ncall \<Rightarrow> ('m, 'q, 'c) lib \<Rightarrow> (int \<times> ('m, 'q, 'c) lib) run" where
  "blocking_call cx (Native_Bsend buf cnt dtype dest tag comm) L = MPI_Bsend cx buf cnt dtype dest tag comm L"
| "blocking_call cx (Native_Recv buf cnt dtype source tag comm status) L = MPI_Recv cx buf cnt dtype source tag comm status L"
| "blocking_call cx (Native_Rsend buf cnt dtype dest tag comm) L = MPI_Rsend cx buf cnt dtype dest tag comm L"
| "blocking_call cx (Native_Send buf cnt dtype dest tag comm) L = MPI_Send cx buf cnt dtype dest tag comm L"
| "blocking_call cx (Native_Ssend buf cnt dtype dest tag comm) L = MPI_Ssend cx buf cnt dtype dest tag comm L"
| "blocking_call cx (Native_Allgather sendbuf sendcount sendtype recvbuf recvcount recvtype comm) L = MPI_Allgather cx sendbuf sendcount sendtype recvbuf recvcount recvtype comm L"
| "blocking_call cx (Native_Allgatherv sendbuf sendcount sendtype recvbuf recvcounts displs recvtype comm) L = MPI_Allgatherv cx sendbuf sendcount sendtype recvbuf recvcounts displs recvtype comm L"
| "blocking_call cx (Native_Allreduce sendbuf recvbuf cnt dtype oper comm) L = MPI_Allreduce cx sendbuf recvbuf cnt dtype oper comm L"
| "blocking_call cx (Native_Alltoall sendbuf sendcount sendtype recvbuf recvcount recvtype comm) L = MPI_Alltoall cx sendbuf sendcount sendtype recvbuf recvcount recvtype comm L"
| "blocking_call cx (Native_Alltoallv sendbuf sendcounts sdispls sendtype recvbuf recvcounts rdispls recvtype comm) L = MPI_Alltoallv cx sendbuf sendcounts sdispls sendtype recvbuf recvcounts rdispls recvtype comm L"
| "blocking_call cx (Native_Alltoallw sendbuf sendcounts sdispls sendtypes recvbuf recvcounts rdispls recvtypes comm) L = MPI_Alltoallw cx sendbuf sendcounts sdispls sendtypes recvbuf recvcounts rdispls recvtypes comm L"
| "blocking_call cx (Native_Barrier comm) L = MPI_Barrier cx comm L"
| "blocking_call cx (Native_Bcast buffer cnt dtype rk comm) L = MPI_Bcast cx buffer cnt dtype rk comm L"
| "blocking_call cx (Native_Exscan sendbuf recvbuf cnt dtype oper comm) L = MPI_Exscan cx sendbuf recvbuf cnt dtype oper comm L"
| "blocking_call cx (Native_Gather sendbuf sendcount sendtype recvbuf recvcount recvtype rk comm) L = MPI_Gather cx sendbuf sendcount sendtype recvbuf recvcount recvtype rk comm L"
| "blocking_call cx (Native_Gatherv sendbuf sendcount sendtype recvbuf recvcounts displs recvtype rk comm) L = MPI_Gatherv cx sendbuf sendcount sendtype recvbuf recvcounts displs recvtype rk comm L"
| "blocking_call cx (Native_Reduce sendbuf recvbuf cnt dtype oper rk comm) L = MPI_Reduce cx sendbuf recvbuf cnt dtype oper rk comm L"
| "blocking_call cx (Native_Reduce_scatter sendbuf recvbuf recvcounts dtype oper comm) L = MPI_Reduce_scatter cx sendbuf recvbuf recvcounts dtype oper comm L"
| "blocking_call cx (Native_Reduce_scatter_block sendbuf recvbuf recvcount dtype oper comm) L = MPI_Reduce_scatter_block cx sendbuf recvbuf recvcount dtype oper comm L"
| "blocking_call cx (Native_Scan sendbuf recvbuf cnt dtype oper comm) L = MPI_Scan cx sendbuf recvbuf cnt dtype oper comm L"
| "blocking_call cx (Native_Scatter sendbuf sendcount sendtype recvbuf recvcount recvtype rk comm) L = MPI_Scatter cx sendbuf sendcount sendtype recvbuf recvcount recvtype rk comm L"
| "blocking_call cx (Native_Scatterv sendbuf sendcounts displs sendtype recvbuf recvcount recvtype rk comm) L = MPI_Scatterv cx sendbuf sendcounts displs sendtype recvbuf recvcount recvtype rk comm L"
| "blocking_call cx (Native_Wait request status) L = MPI_Wait cx request status L"
| "blocking_call cx (Native_Waitall cnt requests statuses) L = MPI_Waitall cx cnt requests statuses L"

fun nonblocking_call :: "('m, 'q, 'c) caller \<Rightarrow> ncall \<Rightarrow> ('m, 'q, 'c) lib \<Rightarrow> (int \<times> ('m, 'q, 'c) lib) run" where
  "nonblocking_call cx (Native_Bsend buf cnt dtype dest tag comm) L = TAMPI_Ibsend cx buf cnt dtype dest tag comm L"
| "nonblocking_call cx (Native_Recv buf cnt dtype source tag comm status) L = TAMPI_Irecv cx buf cnt dtype source tag comm status L"
| "nonblocking_call cx (Native_Rsend buf cnt dtype dest tag comm) L = TAMPI_Irsend cx buf cnt dtype dest tag comm L"
| "nonblocking_call cx (Native_Send buf cnt dtype dest tag comm) L = TAMPI_Isend cx buf cnt dtype dest tag comm L"
| "nonblocking_call cx (Native_Ssend buf cnt dtype dest tag comm) L = TAMPI_Issend cx buf cnt dtype dest tag comm L"
| "nonblocking_call cx (Native_Allgather sendbuf sendcount sendtype recvbuf recvcount recvtype comm) L = TAMPI_Iallgather cx sendbuf sendcount sendtype recvbuf recvcount recvtype comm L"
| "nonblocking_call cx (Native_Allgatherv sendbuf sendcount sendtype recvbuf recvcounts displs recvtype comm) L = TAMPI_Iallgatherv cx sendbuf sendcount sendtype recvbuf recvcounts displs recvtype comm L"
| "nonblocking_call cx (Native_Allreduce sendbuf recvbuf cnt dtype oper comm) L = TAMPI_Iallreduce cx sendbuf recvbuf cnt dtype oper comm L"
| "nonblocking_call cx (Native_Alltoall sendbuf sendcount sendtype recvbuf recvcount recvtype comm) L = TAMPI_Ialltoall cx sendbuf sendcount sendtype recvbuf recvcount recvtype comm L"
| "nonblocking_call cx (Native_Alltoallv sendbuf sendcounts sdispls sendtype recvbuf recvcounts rdispls recvtype comm) L = TAMPI_Ialltoallv cx sendbuf sendcounts sdispls sendtype recvbuf recvcounts rdispls recvtype comm L"
| "nonblocking_call cx (Native_Alltoallw sendbuf sendcounts sdispls sendtypes recvbuf recvcounts rdispls recvtypes comm) L = TAMPI_Ialltoallw cx sendbuf sendcounts sdispls sendtypes recvbuf recvcounts rdispls recvtypes comm L"
| "nonblocking_call cx (Native_Barrier comm) L = TAMPI_Ibarrier cx comm L"
| "nonblocking_call cx (Native_Bcast buffer cnt dtype rk comm) L = TAMPI_Ibcast cx buffer cnt dtype rk comm L"
| "nonblocking_call cx (Native_Exscan sendbuf recvbuf cnt dtype oper comm) L = TAMPI_Iexscan cx sendbuf recvbuf cnt dtype oper comm L"
| "nonblocking_call cx (Native_Gather sendbuf sendcount sendtype recvbuf recvcount recvtype rk comm) L = TAMPI_Igather cx sendbuf sendcount sendtype recvbuf recvcount recvtype rk comm L"
| "nonblocking_call cx (Native_Gatherv sendbuf sendcount sendtype recvbuf recvcounts displs recvtype rk comm) L = TAMPI_Igatherv cx sendbuf sendcount sendtype recvbuf recvcounts displs recvtype rk comm L"
| "nonblocking_call cx (Native_Reduce sendbuf recvbuf cnt dtype oper rk comm) L = TAMPI_Ireduce cx sendbuf recvbuf cnt dtype oper rk comm L"
| "nonblocking_call cx (Native_Reduce_scatter sendbuf recvbuf recvcounts dtype oper comm) L = TAMPI_Ireduce_scatter cx sendbuf recvbuf recvcounts dtype oper comm L"
| "nonblocking_call cx (Native_Reduce_scatter_block sendbuf recvbuf recvcount dtype oper comm) L = TAMPI_Ireduce_scatter_block cx sendbuf recvbuf recvcount dtype oper comm L"
| "nonblocking_call cx (Native_Scan sendbuf recvbuf cnt dtype oper comm) L = TAMPI_Iscan cx sendbuf recvbuf cnt dtype oper comm L"
| "nonblocking_call cx (Native_Scatter sendbuf sendcount sendtype recvbuf recvcount recvtype rk comm) L = TAMPI_Iscatter cx sendbuf sendcount sendtype recvbuf recvcount recvtype rk comm L"
| "nonblocking_call cx (Native_Scatterv sendbuf sendcounts displs sendtype recvbuf recvcount recvtype rk comm) L = TAMPI_Iscatterv cx sendbuf sendcounts displs sendtype recvbuf recvcount recvtype rk comm L"
| "nonblocking_call cx (Native_Wait request status) L = TAMPI_Iwait L"
| "nonblocking_call cx (Native_Waitall cnt requests statuses) L = TAMPI_Iwaitall L"

text \<open>
  Reference: the non-blocking function of MPI that does the same communication with the same
  arguments, the part of the name that the functions share, and the functions that communicate with one peer.
\<close>

fun icall_of :: "ncall \<Rightarrow> icall option" where
  "icall_of (Native_Bsend buf cnt dtype dest tag comm) = Some (MPI_Ibsend buf cnt dtype dest tag comm)"
| "icall_of (Native_Recv buf cnt dtype source tag comm status) = Some (MPI_Irecv buf cnt dtype source tag comm)"
| "icall_of (Native_Rsend buf cnt dtype dest tag comm) = Some (MPI_Irsend buf cnt dtype dest tag comm)"
| "icall_of (Native_Send buf cnt dtype dest tag comm) = Some (MPI_Isend buf cnt dtype dest tag comm)"
| "icall_of (Native_Ssend buf cnt dtype dest tag comm) = Some (MPI_Issend buf cnt dtype dest tag comm)"
| "icall_of (Native_Allgather sendbuf sendcount sendtype recvbuf recvcount recvtype comm) = Some (MPI_Iallgather sendbuf sendcount sendtype recvbuf recvcount recvtype comm)"
| "icall_of (Native_Allgatherv sendbuf sendcount sendtype recvbuf recvcounts displs recvtype comm) = Some (MPI_Iallgatherv sendbuf sendcount sendtype recvbuf recvcounts displs recvtype comm)"
| "icall_of (Native_Allreduce sendbuf recvbuf cnt dtype oper comm) = Some (MPI_Iallreduce sendbuf recvbuf cnt dtype oper comm)"
| "icall_of (Native_Alltoall sendbuf sendcount sendtype recvbuf recvcount recvtype comm) = Some (MPI_Ialltoall sendbuf sendcount sendtype recvbuf recvcount recvtype comm)"
| "icall_of (Native_Alltoallv sendbuf sendcounts sdispls sendtype recvbuf recvcounts rdispls recvtype comm) = Some (MPI_Ialltoallv sendbuf sendcounts sdispls sendtype recvbuf recvcounts rdispls recvtype comm)"
| "icall_of (Native_Alltoallw sendbuf sendcounts sdispls sendtypes recvbuf recvcounts rdispls recvtypes comm) = Some (MPI_Ialltoallw sendbuf sendcounts sdispls sendtypes recvbuf recvcounts rdispls recvtypes comm)"
| "icall_of (Native_Barrier comm) = Some (MPI_Ibarrier comm)"
| "icall_of (Native_Bcast buffer cnt dtype rk comm) = Some (MPI_Ibcast buffer cnt dtype rk comm)"
| "icall_of (Native_Exscan sendbuf recvbuf cnt dtype oper comm) = Some (MPI_Iexscan sendbuf recvbuf cnt dtype oper comm)"
| "icall_of (Native_Gather sendbuf sendcount sendtype recvbuf recvcount recvtype rk comm) = Some (MPI_Igather sendbuf sendcount sendtype recvbuf recvcount recvtype rk comm)"
| "icall_of (Native_Gatherv sendbuf sendcount sendtype recvbuf recvcounts displs recvtype rk comm) = Some (MPI_Igatherv sendbuf sendcount sendtype recvbuf recvcounts displs recvtype rk comm)"
| "icall_of (Native_Reduce sendbuf recvbuf cnt dtype oper rk comm) = Some (MPI_Ireduce sendbuf recvbuf cnt dtype oper rk comm)"
| "icall_of (Native_Reduce_scatter sendbuf recvbuf recvcounts dtype oper comm) = Some (MPI_Ireduce_scatter sendbuf recvbuf recvcounts dtype oper comm)"
| "icall_of (Native_Reduce_scatter_block sendbuf recvbuf recvcount dtype oper comm) = Some (MPI_Ireduce_scatter_block sendbuf recvbuf recvcount dtype oper comm)"
| "icall_of (Native_Scan sendbuf recvbuf cnt dtype oper comm) = Some (MPI_Iscan sendbuf recvbuf cnt dtype oper comm)"
| "icall_of (Native_Scatter sendbuf sendcount sendtype recvbuf recvcount recvtype rk comm) = Some (MPI_Iscatter sendbuf sendcount sendtype recvbuf recvcount recvtype rk comm)"
| "icall_of (Native_Scatterv sendbuf sendcounts displs sendtype recvbuf recvcount recvtype rk comm) = Some (MPI_Iscatterv sendbuf sendcounts displs sendtype recvbuf recvcount recvtype rk comm)"
| "icall_of (Native_Wait request status) = None"
| "icall_of (Native_Waitall cnt requests statuses) = None"

fun ncall_name :: "ncall \<Rightarrow> string" where
  "ncall_name (Native_Bsend _ _ _ _ _ _) = ''Bsend''"
| "ncall_name (Native_Recv _ _ _ _ _ _ _) = ''Recv''"
| "ncall_name (Native_Rsend _ _ _ _ _ _) = ''Rsend''"
| "ncall_name (Native_Send _ _ _ _ _ _) = ''Send''"
| "ncall_name (Native_Ssend _ _ _ _ _ _) = ''Ssend''"
| "ncall_name (Native_Allgather _ _ _ _ _ _ _) = ''Allgather''"
| "ncall_name (Native_Allgatherv _ _ _ _ _ _ _ _) = ''Allgatherv''"
| "ncall_name (Native_Allreduce _ _ _ _ _ _) = ''Allreduce''"
| "ncall_name (Native_Alltoall _ _ _ _ _ _ _) = ''Alltoall''"
| "ncall_name (Native_Alltoallv _ _ _ _ _ _ _ _ _) = ''Alltoallv''"
| "ncall_name (Native_Alltoallw _ _ _ _ _ _ _ _ _) = ''Alltoallw''"
| "ncall_name (Native_Barrier _) = ''Barrier''"
| "ncall_name (Native_Bcast _ _ _ _ _) = ''Bcast''"
| "ncall_name (Native_Exscan _ _ _ _ _ _) = ''Exscan''"
| "ncall_name (Native_Gather _ _ _ _ _ _ _ _) = ''Gather''"
| "ncall_name (Native_Gatherv _ _ _ _ _ _ _ _ _) = ''Gatherv''"
| "ncall_name (Native_Reduce _ _ _ _ _ _ _) = ''Reduce''"
| "ncall_name (Native_Reduce_scatter _ _ _ _ _ _) = ''Reduce_scatter''"
| "ncall_name (Native_Reduce_scatter_block _ _ _ _ _ _) = ''Reduce_scatter_block''"
| "ncall_name (Native_Scan _ _ _ _ _ _) = ''Scan''"
| "ncall_name (Native_Scatter _ _ _ _ _ _ _ _) = ''Scatter''"
| "ncall_name (Native_Scatterv _ _ _ _ _ _ _ _ _) = ''Scatterv''"
| "ncall_name (Native_Wait _ _) = ''Wait''"
| "ncall_name (Native_Waitall _ _ _) = ''Waitall''"

fun is_p2p :: "ncall \<Rightarrow> bool" where
  "is_p2p (Native_Bsend _ _ _ _ _ _) = True"
| "is_p2p (Native_Recv _ _ _ _ _ _ _) = True"
| "is_p2p (Native_Rsend _ _ _ _ _ _) = True"
| "is_p2p (Native_Send _ _ _ _ _ _) = True"
| "is_p2p (Native_Ssend _ _ _ _ _ _) = True"
| "is_p2p _ = False"

lemmas api_defs =
  MPI_Bsend_def TAMPI_Ibsend_def MPI_Recv_def TAMPI_Irecv_def MPI_Rsend_def TAMPI_Irsend_def MPI_Send_def
  TAMPI_Isend_def MPI_Ssend_def TAMPI_Issend_def MPI_Allgather_def TAMPI_Iallgather_def MPI_Allgatherv_def
  TAMPI_Iallgatherv_def MPI_Allreduce_def TAMPI_Iallreduce_def MPI_Alltoall_def TAMPI_Ialltoall_def
  MPI_Alltoallv_def TAMPI_Ialltoallv_def MPI_Alltoallw_def TAMPI_Ialltoallw_def MPI_Barrier_def
  TAMPI_Ibarrier_def MPI_Bcast_def TAMPI_Ibcast_def MPI_Exscan_def TAMPI_Iexscan_def MPI_Gather_def
  TAMPI_Igather_def MPI_Gatherv_def TAMPI_Igatherv_def MPI_Reduce_def TAMPI_Ireduce_def MPI_Reduce_scatter_def
  TAMPI_Ireduce_scatter_def MPI_Reduce_scatter_block_def TAMPI_Ireduce_scatter_block_def MPI_Scan_def
  TAMPI_Iscan_def MPI_Scatter_def TAMPI_Iscatter_def MPI_Scatterv_def TAMPI_Iscatterv_def
  MPI_Wait_def MPI_Waitall_def TAMPI_Iwait_def TAMPI_Iwaitall_def

section \<open>What a call adds\<close>

text \<open>
  A task that can call: its platform keeps its contracts, the library is well-formed, and there are
  objects to allocate and room in the queue of its CPU and in the queue of collective operations.
\<close>

definition can_call :: "('m, 'q, 'c) caller \<Rightarrow> task \<Rightarrow> nat \<Rightarrow> ('m, 'q, 'c) lib \<Rightarrow> bool" where
  "can_call cx t cpu L \<longleftrightarrow> (let P = cx_P cx; s = li_sys L; q = tm_p2pOperations (sy_tm s); c = tm_collOperations (sy_tm s) in
     plat_ok P \<and> sys_ok P s \<and> caller_ok (pf_rt P) t cpu \<and>
     can_alloc (pf_B P) (al_operation (sy_alloc s)) cpu \<and> can_alloc (pf_B P) (al_coll (sy_alloc s)) cpu \<and>
     cpu < mq_queues q \<and> mq_used q cpu + 1 < mq_capacity q \<and>
     length (bq_contents (pf_B P) c) + 1 \<le> spsc_capacity (pf_B P) (bq_queue c))"

text \<open>A receive has a place for its status or ignores it, as MPI requires.\<close>

fun status_given :: "'m mpi \<Rightarrow> ncall \<Rightarrow> bool" where
  "status_given mpi (Native_Recv buf cnt dtype source tag comm status) = (status = MPI_STATUS_IGNORE mpi \<or> status \<noteq> 0)"
| "status_given mpi _ = True"

text \<open>
  The effect of a function on the library: one more queued operation, with the context of the task, which
  stands for the MPI call \<open>c\<close>; the runtime saw the calls of an operation of this nature; the rest of the
  library is unchanged. It is a step of the runs of the library on the platform of the polling tasks.
\<close>

definition delegates ::
    "('m, 'q, 'c) caller \<Rightarrow> OpNature \<Rightarrow> task \<Rightarrow> bool \<Rightarrow> icall \<Rightarrow> ('m, 'q, 'c) lib \<Rightarrow> (int \<times> ('m, 'q, 'c) lib) run \<Rightarrow> bool" where
  "delegates cx nature t p2p c L r \<longleftrightarrow> (\<exists>s'. r = ret (MPI_SUCCESS, L\<lparr>li_sys := s'\<rparr>) \<and>
     adds_operation (cx_P cx) \<lparr>tc_blocking = (nature = BLK), tc_taskHandle = t\<rparr> (Inr c)
       (process_calls nature t (if p2p then [alpi_cpu_logical_id] else [])) (li_sys L) s' \<and>
     (\<forall>P. cx_P cx = as_task (pf_rt (cx_P cx)) P \<longrightarrow> tampi_step P (li_sys L) s'))"

lemma process_Operation_delegates:
  assumes "can_call cx t cpu L" "op_call (mk t) = Inr c" "op_task (mk t) = t" "op_nature (mk t) = nature"
    and "op_status (mk t) = MPI_STATUS_IGNORE (cx_mpi cx) \<or> op_status (mk t) \<noteq> 0"
  shows "delegates cx nature t True c L (process_Operation cx nature mk L)"
proof -
  note C = assms(1) [unfolded can_call_def Let_def]
  have "t \<noteq> 0" using C by (simp add: caller_ok_def)
  then have mk: "op_ok (cx_mpi cx) (mk t)" "op_context (mk t) = \<lparr>tc_blocking = (nature = BLK), tc_taskHandle = t\<rparr>"
    using assms(2-5) by (simp_all add: op_ok_def op_context_def)
  obtain s' where "process_p2p (cx_P cx) (cx_env cx) nature mk (li_sys L) = ret s'"
    "adds_operation (cx_P cx) \<lparr>tc_blocking = (nature = BLK), tc_taskHandle = t\<rparr> (op_call (mk t))
      (process_calls nature t [alpi_cpu_logical_id]) (li_sys L) s'"
    using process_p2p_adds [of "cx_P cx" "li_sys L" t cpu mk nature "cx_env cx"] C mk by blast
  moreover have "tampi_step P (li_sys L) s'" if P: "cx_P cx = as_task (pf_rt (cx_P cx)) P" for P
  proof -
    have f: "pf_B P = pf_B (cx_P cx)" "pf_mpi P = cx_mpi cx" by (subst P, simp)+
    show ?thesis
      by (rule tampi_step.call_p2p [of "pf_rt (cx_P cx)" t cpu P "li_sys L" mk nature "cx_env cx"])
         (use C mk calculation(1) P in \<open>simp_all add: f plat_ok_def\<close>)
  qed
  ultimately show ?thesis using assms(2) by (auto simp: delegates_def process_Operation_def)
qed

lemma process_CollOperation_delegates:
  assumes "can_call cx t cpu L" "coll_call (mk t) = Inr c" "co_task (mk t) = t" "co_nature (mk t) = nature"
  shows "delegates cx nature t False c L (process_CollOperation cx nature mk L)"
proof -
  note C = assms(1) [unfolded can_call_def Let_def]
  have "t \<noteq> 0" using C by (simp add: caller_ok_def)
  then have mk: "coll_ok (mk t)" "coll_context (mk t) = \<lparr>tc_blocking = (nature = BLK), tc_taskHandle = t\<rparr>"
    using assms(2-4) by (simp_all add: coll_ok_def coll_context_def)
  obtain s' where "process_coll (cx_P cx) (cx_envc cx) nature mk (li_sys L) = ret s'"
    "adds_operation (cx_P cx) \<lparr>tc_blocking = (nature = BLK), tc_taskHandle = t\<rparr> (coll_call (mk t))
      (process_calls nature t []) (li_sys L) s'"
    using process_coll_adds [of "cx_P cx" "li_sys L" t cpu mk nature "cx_envc cx"] C mk by blast
  moreover have "tampi_step P (li_sys L) s'" if P: "cx_P cx = as_task (pf_rt (cx_P cx)) P" for P
  proof -
    have f: "pf_B P = pf_B (cx_P cx)" "pf_mpi P = cx_mpi cx" by (subst P, simp)+
    show ?thesis
      by (rule tampi_step.call_coll [of "pf_rt (cx_P cx)" t cpu P "li_sys L" mk nature "cx_envc cx"])
         (use C mk calculation(1) P in \<open>simp_all add: f plat_ok_def\<close>)
  qed
  ultimately show ?thesis using assms(2) by (auto simp: delegates_def process_CollOperation_def)
qed

lemmas operation_facts = Operation_new_def op_call_def CollOperation_new_defs coll_call_def

lemma blocking_call_delegates:
  assumes "can_call cx t cpu L" "status_given (cx_mpi cx) call" "icall_of call = Some c"
    and "isBlockingEnabledForCurrentThread (cx_thread cx) (li_state L)"
  shows "delegates cx BLK t (is_p2p call) c L (blocking_call cx call L)"
  by (insert assms(2,3), cases call; simp add: api_defs assms(4);
      (rule process_Operation_delegates [OF assms(1)] | rule process_CollOperation_delegates [OF assms(1)]);
      simp add: operation_facts)

lemma nonblocking_call_delegates:
  assumes "can_call cx t cpu L" "status_given (cx_mpi cx) call" "icall_of call = Some c"
    and "isNonBlockingEnabled (li_state L)"
  shows "delegates cx NONBLK t (is_p2p call) c L (nonblocking_call cx call L)"
  by (insert assms(2,3), cases call; simp add: api_defs assms(4);
      (rule process_Operation_delegates [OF assms(1)] | rule process_CollOperation_delegates [OF assms(1)]);
      simp add: operation_facts)

section \<open>Properties\<close>



text \<open>
  (C28) The library is transparent: when the blocking mode is not enabled for the thread, every
  blocking function except \<open>MPI_Alltoallw\<close> is exactly the function of MPI with the same arguments, and its
  result is returned unchanged.
\<close>

theorem blocking_functions_transparent:
  assumes "resolves (cx_dlsym cx)" "\<not> isBlockingEnabledForCurrentThread (cx_thread cx) (li_state L)"
    and "ncall_name call \<noteq> ''Alltoallw''"
  shows "blocking_call cx call L =
    ret (fst (cx_native cx call (li_mpi L)), set_mpi (snd (cx_native cx call (li_mpi L))) L)"
proof -
  have nat: "call_native cx name c L = ret (fst (cx_native cx c (li_mpi L)), set_mpi (snd (cx_native cx c (li_mpi L))) L)" for name c
    using Symbol_make_ok [OF assms(1), of name] by (auto simp: call_native_def case_prod_unfold Let_def)
  show ?thesis
    by (insert assms(3), cases call; simp add: api_defs assms(2) nat)
qed


section \<open>A sample caller\<close>

definition sample_cx :: "nat \<Rightarrow> (nat, nat list, TaskContext list) caller" where
  "sample_cx tid = \<lparr>cx_P = sample_plat True, cx_dlsym = (\<lambda>_ _. Some 1), cx_native = (\<lambda>c m. (0, m + 1)), cx_thread = tid,
     cx_env = (\<lambda>_ q. q), cx_envc = (\<lambda>_ q. q)\<rparr>"

definition sample_app :: "bool \<Rightarrow> (nat, nat list, TaskContext list) lib" where
  "sample_app modes = \<lparr>li_state = (State sample_config)\<lparr>es_preinitialized := True, es_initialized := True,
       es_nativeThreadLevel := 3, es_blockingMode := modes, es_nonBlockingMode := modes\<rparr>,
     li_mpi_symbols = initialSymbols, li_rank = 0, li_nranks = 1,
     li_tasking = \<lparr>tms_symbols = initialSymbols, tms_pollingFunction = Some genericPolling_fn\<rparr>,
     li_instr = \<lparr>in_backend = False, in_threadInit = False, in_calls = []\<rparr>,
     li_polling = \<lparr>po_pollingInstance = Some sample_instance, po_completionInstance = Some sample_instance,
       po_periodCtrl = sample_period, po_completionPeriodCtrl = sample_period\<rparr>,
     li_sys = sample_sys Approach_Test\<rparr>"

lemma sample_can_call: "can_call (sample_cx tid) 1 1 (sample_app modes)"
  using sample_plat_ok [of True] sample_sys_ok [of True Approach_Test] sample_caller [of True]
    sample_can [of True Approach_Test] sample_room(1,2) [of Approach_Test] sample_room(3) [of True Approach_Test]
  by (simp add: can_call_def Let_def sample_cx_def sample_app_def)

lemma sample_app_modes:
  "isBlockingEnabledForCurrentThread tid (li_state (sample_app modes)) = modes"
  "isNonBlockingEnabled (li_state (sample_app modes)) = modes"
  "li_sys (sample_app modes) = sample_sys Approach_Test"
  by (simp_all add: isBlockingEnabledForCurrentThread_def isBlockingEnabled_def isNonBlockingEnabled_def sample_app_def State_def)



theorem blocking_functions_transparent_witness:
  "MPI_Barrier (sample_cx 0) 5 (sample_app False) = ret (0, set_mpi 1 (sample_app False))"
  using blocking_functions_transparent [of "sample_cx 0" "sample_app False" "Native_Barrier 5"]
  by (simp add: resolves_def sample_app_modes) (simp add: sample_cx_def sample_app_def sample_sys_def sample_world_def)


end
