(* ===== verification/Library_Runs.thy ===== *)
theory Library_Runs
  imports C_Api
begin

text \<open>
  A process that uses the library: the construction of its parts, the initialization with MPI, and then the
  functions of the interface, the properties and the polling tasks in any order.
\<close>

section \<open>Construction\<close>

text \<open>
  A library as its constructors leave it: the ticket manager with the capacity and the queues of the
  source (32K operations for each CPU), on tests of requests that keep their contract, no call made to the
  runtime, and no completion queued.
\<close>

definition fresh_lib :: "('m, 'q, 'c) platform \<Rightarrow> 'q config \<Rightarrow> ('m, 'q, 'c) lib \<Rightarrow> bool" where
  "fresh_lib P cf L \<longleftrightarrow> li_state L = State cf \<and> sy_log (li_sys L) = [] \<and>
     spsc_contents (pf_C P) (w_cq (sy_world (li_sys L))) = [] \<and>
     (\<exists>getenv min0 max0 begin0 arrs n mem ff coll.
        TicketManager getenv (TicketManagerCapacityCtrl getenv min0 max0 begin0) arrs
          (MultiLockFreeQueue MaxSystemCPUs (32 * 1024) n mem ff) coll = Inr (sy_tm (li_sys L)) \<and>
        ar_ok 32768 arrs 0 \<and> 0 < n \<and> length mem = n \<and> (\<forall>d \<in> set mem. length d = 32 * 1024) \<and>
        bq_contents (pf_B P) coll = []) \<and>
     mpi_test_ok (pf_mpi P) \<and> mpi_testany_ok (pf_mpi P) \<and> mpi_testsome_ok (pf_mpi P)"

lemma TicketManager_fresh:
  assumes "TicketManager getenv (TicketManagerCapacityCtrl getenv min0 max0 begin0) arrs
      (MultiLockFreeQueue maxQueues (32 * 1024) n mem ff) coll = Inr tm"
    and "ar_ok 32768 arrs 0" "0 < n" "length mem = n" "\<forall>d \<in> set mem. length d = 32 * 1024"
    and "bq_contents B coll = []" "mpi_test_ok mpi" "mpi_testany_ok mpi" "mpi_testsome_ok mpi"
  shows "tm_ok mpi tm \<and> tm_pending tm = 0 \<and> cc_ok (tm_capacityCtrl tm) \<and> mq_ok (tm_p2pOperations tm) \<and>
    mq_elems (tm_p2pOperations tm) = {#} \<and> bq_elems B (tm_collOperations tm) = {#}"
proof -
  obtain g i c w q where t: "TicketManagerCapacityCtrl getenv min0 max0 begin0 = Inr (c, w)"
    "MultiLockFreeQueue maxQueues (32 * 1024) n mem ff = Inr q"
    "tm = \<lparr>tm_generalTesting = g, tm_immediateTesting = i, tm_capacityCtrl = c, tm_pending = 0,
       tm_arrays = arrs, tm_p2pOperations = q, tm_collOperations = coll\<rparr>" "g \<noteq> Approach_None"
    using assms(1) by (auto simp: TicketManager_def rbind_eq_Inr fail_def split: if_splits)
  have "approach_ok mpi a" for a using assms(7-9) by (cases a) (auto simp: approach_ok_def)
  then have "tm_ok mpi tm" using assms(2) t(4) by (simp add: tm_ok_def t(3) tm_flight_def ar_entries_def)
  moreover have "mq_ok q" "mq_elems q = {#}"
    using MultiLockFreeQueue_fresh(1,2) [OF t(2) assms(3) _ _ assms(4,5)] by simp_all
  ultimately show ?thesis
    using TicketManagerCapacityCtrl_ok [OF t(1)] assms(6) by (simp add: t(3) bq_elems_def)
qed

section \<open>Runs of a process\<close>

inductive lib_step :: "('m, 'q, 'c) platform \<Rightarrow> 'q config \<Rightarrow> ('m, 'q, 'c) lib \<Rightarrow> ('m, 'q, 'c) lib \<Rightarrow> bool"
  for P cf where
  blocking: "cx_P cx = as_task (pf_rt (cx_P cx)) P \<Longrightarrow> can_call cx t cpu L \<Longrightarrow> status_given (cx_mpi cx) call \<Longrightarrow>
    icall_of call = Some c \<Longrightarrow> isBlockingEnabledForCurrentThread (cx_thread cx) (li_state L) \<Longrightarrow>
    blocking_call cx call L = ret (err, L') \<Longrightarrow> lib_step P cf L L'"
| nonblocking: "cx_P cx = as_task (pf_rt (cx_P cx)) P \<Longrightarrow> can_call cx t cpu L \<Longrightarrow> status_given (cx_mpi cx) call \<Longrightarrow>
    icall_of call = Some c \<Longrightarrow> isNonBlockingEnabled (li_state L) \<Longrightarrow>
    nonblocking_call cx call L = ret (err, L') \<Longrightarrow> lib_step P cf L L'"
| native_call: "\<not> isBlockingEnabledForCurrentThread (cx_thread cx) (li_state L) \<Longrightarrow>
    blocking_call cx call L = ret (err, L') \<Longrightarrow> lib_step P cf L L'"
| poll: "sys_room P (li_sys L) \<Longrightarrow>
    polling P now (li_sys L) (po_periodCtrl (li_polling L)) = ret (period, s', ctrl', wn) \<Longrightarrow>
    lib_step P cf L (L\<lparr>li_sys := s', li_polling := (li_polling L)\<lparr>po_periodCtrl := ctrl'\<rparr>\<rparr>)"
| complete: "pf_cm P \<Longrightarrow>
    completions P (li_sys L) (po_completionPeriodCtrl (li_polling L)) = Inr (period, s', ctrl') \<Longrightarrow>
    lib_step P cf L (L\<lparr>li_sys := s', li_polling := (li_polling L)\<lparr>po_completionPeriodCtrl := ctrl'\<rparr>\<rparr>)"
| property: "TAMPI_Property_set cf tid p v L = (err, L') \<Longrightarrow> lib_step P cf L L'"

text \<open>The initialization with MPI, at a level that enables a mode.\<close>

definition booted :: "('m, 'q, 'c) platform \<Rightarrow> 'q config \<Rightarrow> 'm native \<Rightarrow> ('m, 'q, 'c) lib \<Rightarrow> bool" where
  "booted P cf nt L \<longleftrightarrow> (\<exists>L0 argc argv m required tid err provided wn. fresh_lib P cf L0 \<and>
     nt_Init_thread nt argc argv (cf_THREAD_MULTIPLE cf) (li_mpi L0) = ((0, cf_THREAD_MULTIPLE cf), m) \<and>
     (required = cf_TASK_MULTIPLE cf \<and> \<not> cf_disableBlocking cf \<or> required = cf_THREAD_MULTIPLE cf \<and> \<not> cf_disableNonBlocking cf) \<and>
     MPI_Init_thread P cf nt tid argc argv required L0 = Inr (err, provided, L, wn))"

abbreviation lib_run :: "('m, 'q, 'c) platform \<Rightarrow> 'q config \<Rightarrow> 'm native \<Rightarrow> ('m, 'q, 'c) lib \<Rightarrow> bool" where
  "lib_run P cf nt \<equiv> reachable (booted P cf nt) (lib_step P cf)"

section \<open>Invariant\<close>

text \<open>What a process has promised to its tasks, as a state of the notifier.\<close>

abbreviation lib_abs :: "('m, 'q, 'c) platform \<Rightarrow> ('m, 'q, 'c) lib \<Rightarrow> notifier" where
  "lib_abs P L \<equiv> sys_abs P (li_sys L)"

lemma boot_inv:
  assumes "plat_ok P" "config_ok P cf" "fresh_lib P cf L0"
    and "nt_Init_thread nt argc argv (cf_THREAD_MULTIPLE cf) (li_mpi L0) = ((0, cf_THREAD_MULTIPLE cf), m)"
    and "required = cf_TASK_MULTIPLE cf \<and> \<not> cf_disableBlocking cf \<or> required = cf_THREAD_MULTIPLE cf \<and> \<not> cf_disableNonBlocking cf"
    and "MPI_Init_thread P cf nt tid argc argv required L0 = Inr (err, provided, L, wn)"
  shows "sys_ok P (li_sys L) \<and> notifier_start (lib_abs P L)"
proof -
  note F = assms(3) [unfolded fresh_lib_def]
  obtain calls where L: "alloc_ready P (al_operation (sy_alloc (li_sys L)))"
    "alloc_ready P (al_coll (sy_alloc (li_sys L)))" "sy_tm (li_sys L) = sy_tm (li_sys L0)"
    "w_cq (sy_world (li_sys L)) = w_cq (sy_world (li_sys L0))" "sy_log (li_sys L) = calls" "quiet calls"
    using MPI_Init_thread_ok [OF assms(1,2) _ assms(4,5), of tid] assms(6) F by auto
  have tm: "tm_ok (pf_mpi P) (sy_tm (li_sys L0)) \<and> tm_pending (sy_tm (li_sys L0)) = 0 \<and>
      cc_ok (tm_capacityCtrl (sy_tm (li_sys L0))) \<and> mq_ok (tm_p2pOperations (sy_tm (li_sys L0))) \<and>
      mq_elems (tm_p2pOperations (sy_tm (li_sys L0))) = {#} \<and>
      bq_elems (pf_B P) (tm_collOperations (sy_tm (li_sys L0))) = {#}"
    using F by (elim exE conjE) (rule TicketManager_fresh; assumption)
  then have "sys_ok P (li_sys L)" using L(1-3) cc_get_bounds by (auto simp: sys_ok_def alloc_ready_def)
  moreover have "sys_pending P (li_sys L) = {#}"
    using tm L(3,4) F by (simp add: sys_pending_def sys_queued_def sys_flight_def tm_flight_def ar_entries_def)
  ultimately show ?thesis using L(5) log_history_quiet [OF L(6)] by (simp add: sys_abs_def)
qed

lemma native_only_mpi:
  assumes "\<not> isBlockingEnabledForCurrentThread (cx_thread cx) (li_state L)" "blocking_call cx call L = ret (err, L')"
  shows "\<exists>m. L' = set_mpi m L"
proof -
  have "\<exists>m. L' = set_mpi m L" if "call_native cx name c L = ret (err, L')" for name c
    using that by (auto simp: call_native_def run_bind_eq_ret Let_def case_prod_unfold)
  then show ?thesis by (insert assms(2), cases call; simp add: api_defs assms(1) fail_def; blast)
qed

lemma lib_step_effect:
  assumes "lib_step P cf L L'" "plat_ok P" "sys_ok P (li_sys L)"
  shows "sys_ok P (li_sys L') \<and> notifier_step\<^sup>*\<^sup>* (lib_abs P L) (lib_abs P L')"
proof -
  have st: ?thesis if "tampi_step P (li_sys L) (li_sys L')"
    using tampi_step_effect [OF that assms(2,3)] submits_refines notifies_refines by blast
  have same: ?thesis if "sys_ok P (li_sys L') = sys_ok P (li_sys L)" "lib_abs P L' = lib_abs P L"
    using that assms(3) by simp
  show ?thesis
    using assms(1)
  proof cases
    case (blocking cx t cpu call c err)
    then have "tampi_step P (li_sys L) (li_sys L')"
      using blocking_call_delegates [of cx t cpu L call c] by (auto simp: delegates_def)
    then show ?thesis by (rule st)
  next
    case (nonblocking cx t cpu call c err)
    then have "tampi_step P (li_sys L) (li_sys L')"
      using nonblocking_call_delegates [of cx t cpu L call c] by (auto simp: delegates_def)
    then show ?thesis by (rule st)
  next
    case (native_call cx call err)
    then obtain m where "L' = set_mpi m L" using native_only_mpi by blast
    then show ?thesis
      by (intro same) (simp_all add: set_mpi_def sys_ok_def sys_abs_def sys_pending_def sys_queued_def sys_flight_def)
  next
    case (poll now period s' ctrl' wn)
    then show ?thesis using tampi_step.poll [OF poll(2,3)] by (intro st) simp
  next
    case (complete period s' ctrl')
    then show ?thesis using tampi_step.complete [OF complete(2,3)] by (intro st) simp
  next
    case (property tid p v err)
    then obtain aw auto where "L' = L\<lparr>li_state := (li_state L)\<lparr>es_threadTaskAwareness := aw, es_autoInitialize := auto\<rparr>\<rparr>"
      using TAMPI_Property_set_state by blast
    then show ?thesis by (intro same) simp_all
  qed
qed

interpretation processes: refinement "\<lambda>L. plat_ok P \<and> config_ok P cf \<and> booted P cf nt L" "lib_step P cf"
  "\<lambda>L. plat_ok P \<and> sys_ok P (li_sys L)" notifier_start notifier_step "lib_abs P" for P cf nt
proof
  have boot: "sys_ok P (li_sys L) \<and> notifier_start (lib_abs P L)" if "plat_ok P \<and> config_ok P cf \<and> booted P cf nt L" for L
    using that unfolding booted_def by (elim exE conjE) (rule boot_inv; assumption)
  then show "plat_ok P \<and> sys_ok P (li_sys L)" "notifier_start (lib_abs P L)"
    if "plat_ok P \<and> config_ok P cf \<and> booted P cf nt L" for L
    using that by blast+
  show "plat_ok P \<and> sys_ok P (li_sys L')" "notifier_step\<^sup>*\<^sup>* (lib_abs P L) (lib_abs P L')"
    if "plat_ok P \<and> sys_ok P (li_sys L)" "lib_step P cf L L'" for L L'
    using lib_step_effect [OF that(2)] that(1) by blast+
qed

lemma lib_run_inv:
  assumes "plat_ok P" "config_ok P cf" "lib_run P cf nt L"
  shows "sys_ok P (li_sys L)" "notifier_run (lib_abs P L)"
  using processes.reachable_inv [of P cf nt L] processes.reachable_spec [of P cf nt L] assms by simp_all

section \<open>A sample process\<close>

definition sample_proc :: "(nat, nat \<times> nat list, TaskContext list) lib" where
  "sample_proc = sample_fresh\<lparr>li_sys := (li_sys sample_fresh)\<lparr>sy_tm :=
     \<lparr>tm_generalTesting = Approach_TestSome, tm_immediateTesting = Approach_TestSome,
       tm_capacityCtrl = \<lparr>cc_capacityMin = 128, cc_capacityMax = CapacityLimit, cc_dynamic = True, cc_capacity = 128,
         cc_timeout = 10, cc_saturation = False, cc_saturationBegin = 0\<rparr>,
       tm_pending = 0,
       tm_arrays = \<lparr>ar_requests = replicate 32768 0, ar_mappings = replicate 32768 (None, 0), ar_tickets = replicate 32768 sample_flight\<rparr>,
       tm_p2pOperations = \<lparr> mq_capacity = 32 * 1024, mq_queues = 2, mq_data = replicate 2 (replicate (32 * 1024) 0),
         mq_fullFailure = True, mq_tail = replicate 2 0, mq_remaining = replicate 2 0, mq_head = replicate 2 0,
         mq_available = replicate 2 0, mq_totalRemaining = 0, mq_current = 0 \<rparr>,
       tm_collOperations = \<lparr>bq_multipleProducers = True, bq_fullFailure = False, bq_queue = (8192, [])\<rparr>\<rparr>\<rparr>\<rparr>"

lemma sample_proc_fresh: "fresh_lib sample_boot sample_config sample_proc"
proof -
  let ?arrs = "\<lparr>ar_requests = replicate 32768 0, ar_mappings = replicate 32768 (None, 0), ar_tickets = replicate 32768 sample_flight\<rparr>"
  let ?coll = "\<lparr>bq_multipleProducers = True, bq_fullFailure = False, bq_queue = (8192 :: nat, [] :: nat list)\<rparr>"
  let ?mem = "replicate 2 (replicate (32 * 1024) 0) :: nat list list"
  have "TicketManager (\<lambda>_. None) (TicketManagerCapacityCtrl (\<lambda>_. None) 0 0 0) ?arrs
      (MultiLockFreeQueue MaxSystemCPUs (32 * 1024) 2 ?mem True) ?coll = Inr (sy_tm (li_sys sample_proc))"
    by (simp add: TicketManager_def TicketManagerCapacityCtrl_def parseTestingOption_def EnvironmentVariable_def
        MultiLockFreeQueue_def sample_proc_def)
  moreover have "ar_ok 32768 ?arrs 0" by (simp add: ar_ok_def)
  moreover have "bq_contents (pf_B sample_boot) ?coll = []" by (simp add: bq_contents_def sample_boot_def cap_spsc_def)
  moreover have "(0 :: nat) < 2" "length ?mem = 2" "\<forall>d \<in> set ?mem. length d = 32 * 1024" by simp_all
  ultimately have "\<exists>getenv min0 max0 begin0 arrs n mem ff coll.
        TicketManager getenv (TicketManagerCapacityCtrl getenv min0 max0 begin0) arrs
          (MultiLockFreeQueue MaxSystemCPUs (32 * 1024) n mem ff) coll = Inr (sy_tm (li_sys sample_proc)) \<and>
        ar_ok 32768 arrs 0 \<and> 0 < n \<and> length mem = n \<and> (\<forall>d \<in> set mem. length d = 32 * 1024) \<and>
        bq_contents (pf_B sample_boot) coll = []" by blast
  moreover have "li_state sample_proc = State sample_config" "sy_log (li_sys sample_proc) = []"
    "w_cq (sy_world (li_sys sample_proc)) = []"
    by (simp_all add: sample_proc_def sample_fresh_def sample_lib_def sample_world_def)
  ultimately show ?thesis
    using eager_mpi_ok by (simp add: fresh_lib_def) (simp add: sample_boot_def list_spsc_def)
qed

text \<open>The platform as a task with handle 7 on the first CPU sees it.\<close>

definition sample_task_rt :: alpi where
  "sample_task_rt = \<lparr>alpi_ret = (\<lambda>_ c. (0, \<lambda>_. if c = alpi_task_self then 7 else 0)), alpi_error_string = (\<lambda>_. [])\<rparr>"

definition sample_task :: "(nat, nat \<times> nat list, TaskContext list) caller" where
  "sample_task = \<lparr>cx_P = as_task sample_task_rt sample_boot, cx_dlsym = (\<lambda>_ _. Some 1), cx_native = (\<lambda>c m. (0, m + 1)),
     cx_thread = 3, cx_env = (\<lambda>_ q. q), cx_envc = (\<lambda>_ q. q)\<rparr>"

lemma sample_task_rt_ok: "rt_ok sample_task_rt" "caller_ok sample_task_rt 7 0"
  by (simp_all add: rt_ok_def caller_ok_def sample_task_rt_def)

lemma sample_proc_queues:
  "0 < mq_queues (tm_p2pOperations (sy_tm (li_sys sample_proc)))"
  "mq_used (tm_p2pOperations (sy_tm (li_sys sample_proc))) 0 + 1 < mq_capacity (tm_p2pOperations (sy_tm (li_sys sample_proc)))"
  "length (bq_contents (pf_B sample_boot) (tm_collOperations (sy_tm (li_sys sample_proc)))) + 1 \<le>
     spsc_capacity (pf_B sample_boot) (bq_queue (tm_collOperations (sy_tm (li_sys sample_proc))))"
proof -
  let ?q = "tm_p2pOperations (sy_tm (li_sys sample_proc))" and ?c = "tm_collOperations (sy_tm (li_sys sample_proc))"
  have q: "mq_queues ?q = 2" "mq_capacity ?q = 32768" "mq_head ?q ! 0 = 0" "mq_tail ?q ! 0 = 0" "bq_queue ?c = (8192, [])"
    by (simp_all add: sample_proc_def)
  show "0 < mq_queues ?q" by (simp add: q)
  show "mq_used ?q 0 + 1 < mq_capacity ?q" by (simp add: mq_used_def q ring_used_def)
  show "length (bq_contents (pf_B sample_boot) ?c) + 1 \<le> spsc_capacity (pf_B sample_boot) (bq_queue ?c)"
    by (simp add: bq_contents_def q sample_boot_def cap_spsc_def)
qed

lemma sample_booted:
  obtains L where "booted sample_boot sample_config sample_native L" "es_blockingMode (li_state L)"
    "isBlockingEnabledForCurrentThread 3 (li_state L)" "can_call sample_task 7 0 L"
    "w_cq (sy_world (li_sys L)) = []" "cc_get (tm_capacityCtrl (sy_tm (li_sys L))) = 128"
    "po_periodCtrl (li_polling L) = sample_period" "po_completionPeriodCtrl (li_polling L) = sample_period"
proof -
  have st: "li_state sample_proc = State sample_config" "li_mpi sample_proc = 0"
    by (simp_all add: sample_proc_def sample_fresh_def sample_lib_def sample_world_def)
  have n: "nt_Init_thread sample_native 0 0 (cf_THREAD_MULTIPLE sample_config) (li_mpi sample_proc) =
      ((0, cf_THREAD_MULTIPLE sample_config), 3)"
    by (simp add: sample_levels)
  have r: "(4 :: int) = cf_TASK_MULTIPLE sample_config \<and> \<not> cf_disableBlocking sample_config \<or>
      4 = cf_THREAD_MULTIPLE sample_config \<and> \<not> cf_disableNonBlocking sample_config"
    by (simp add: sample_levels)
  obtain L wn where L: "MPI_Init_thread sample_boot sample_config sample_native 0 0 0 4 sample_proc = Inr (0, 4, L, wn)"
    "es_blockingMode (li_state L) = (4 = cf_TASK_MULTIPLE sample_config)" "es_threadTaskAwareness (li_state L) = (\<lambda>_. True)"
    "alloc_ready sample_boot (al_operation (sy_alloc (li_sys L)))" "alloc_ready sample_boot (al_coll (sy_alloc (li_sys L)))"
    "sy_tm (li_sys L) = sy_tm (li_sys sample_proc)" "w_cq (sy_world (li_sys L)) = w_cq (sy_world (li_sys sample_proc))"
    "po_periodCtrl (li_polling L) = po_periodCtrl (li_polling sample_proc)"
    "po_completionPeriodCtrl (li_polling L) = po_completionPeriodCtrl (li_polling sample_proc)"
    using MPI_Init_thread_ok [OF sample_boot_ok sample_config_ok(1) st(1) n r, of 0] by blast
  have b: "booted sample_boot sample_config sample_native L"
    unfolding booted_def by (intro exI conjI) (rule sample_proc_fresh n r L(1))+
  have s: "sys_ok sample_boot (li_sys L)"
    by (rule lib_run_inv(1) [OF sample_boot_ok sample_config_ok(1) reach_start [of "booted sample_boot sample_config sample_native", OF b]])
  have "0 < snd (alpi_ret (pf_rt sample_boot) h alpi_cpu_count) 0" for h by (simp add: sample_boot_def)
  then have cpu: "can_alloc (pf_B sample_boot) (al_operation (sy_alloc (li_sys L))) 0"
    "can_alloc (pf_B sample_boot) (al_coll (sy_alloc (li_sys L))) 0"
    using L(4,5) unfolding alloc_ready_def by blast+
  have q: "0 < mq_queues (tm_p2pOperations (sy_tm (li_sys L)))"
    "mq_used (tm_p2pOperations (sy_tm (li_sys L))) 0 + 1 < mq_capacity (tm_p2pOperations (sy_tm (li_sys L)))"
    "length (bq_contents (pf_B sample_boot) (tm_collOperations (sy_tm (li_sys L)))) + 1 \<le>
       spsc_capacity (pf_B sample_boot) (bq_queue (tm_collOperations (sy_tm (li_sys L))))"
    unfolding L(6) by (rule sample_proc_queues)+
  have "can_call sample_task 7 0 L"
    using sample_boot_ok s cpu q sample_task_rt_ok by (simp add: can_call_def sample_task_def)
  moreover have "isBlockingEnabledForCurrentThread 3 (li_state L)"
    using L(2,3) by (simp add: isBlockingEnabledForCurrentThread_def isBlockingEnabled_def sample_levels)
  moreover have "w_cq (sy_world (li_sys L)) = []" "cc_get (tm_capacityCtrl (sy_tm (li_sys L))) = 128"
    "po_periodCtrl (li_polling L) = sample_period" "po_completionPeriodCtrl (li_polling L) = sample_period"
    using L(6-9) by (simp_all add: sample_proc_def sample_fresh_def sample_lib_def sample_world_def cc_get_def)
  ultimately show thesis using that [OF b] L(2) by (simp add: sample_levels)
qed

text \<open>The task waits in a collective operation.\<close>

lemma sample_run:
  obtains L where "lib_run sample_boot sample_config sample_native L" "es_blockingMode (li_state L)"
    "log_history (sy_log (li_sys L)) = [Submit \<lparr>tc_blocking = True, tc_taskHandle = 7\<rparr>]"
    "sys_calls sample_boot (li_sys L) = {#Inr (MPI_Ialltoallv 64 128 192 1 256 320 384 1 0)#}"
proof -
  obtain L where L: "booted sample_boot sample_config sample_native L" "es_blockingMode (li_state L)"
    "isBlockingEnabledForCurrentThread 3 (li_state L)" "can_call sample_task 7 0 L"
    by (rule sample_booted)
  let ?call = "Native_Alltoallv 64 128 192 1 256 320 384 1 0" and ?c = "MPI_Ialltoallv 64 128 192 1 256 320 384 1 0"
  have run: "lib_run sample_boot sample_config sample_native L" by (rule reach_start [of "booted sample_boot sample_config sample_native", OF L(1)])
  have a: "notifier_start (lib_abs sample_boot L)"
    using processes.refine_start [of sample_boot sample_config sample_native L] sample_boot_ok sample_config_ok(1) L(1) by blast
  have "delegates sample_task BLK 7 (is_p2p ?call) ?c L (blocking_call sample_task ?call L)"
    by (rule blocking_call_delegates [OF L(4)]) (simp_all add: L(3) sample_task_def)
  then obtain s' where s': "blocking_call sample_task ?call L = ret (0, L\<lparr>li_sys := s'\<rparr>)"
    "adds_operation (as_task sample_task_rt sample_boot) \<lparr>tc_blocking = True, tc_taskHandle = 7\<rparr> (Inr ?c)
       (process_calls BLK 7 []) (li_sys L) s'"
    by (auto simp: delegates_def sample_task_def)
  have "lib_step sample_boot sample_config L (L\<lparr>li_sys := s'\<rparr>)"
    by (rule lib_step.blocking [OF _ L(4) _ _ _ s'(1)]) (simp_all add: L(3) sample_task_def)
  then have "lib_run sample_boot sample_config sample_native (L\<lparr>li_sys := s'\<rparr>)" by (rule reach_step [OF run])
  moreover have "sys_calls sample_boot (li_sys L) = {#}"
    using a by (auto simp: sys_abs_def sys_pending_def sys_queued_def sys_calls_def)
  moreover from this have "log_history (sy_log s') = [Submit \<lparr>tc_blocking = True, tc_taskHandle = 7\<rparr>]"
    "sys_calls sample_boot s' = {#Inr ?c#}"
    using s'(2) a unfolding adds_operation_as_task by (simp_all add: adds_operation_def process_calls_def sys_abs_def)
  ultimately show thesis using L(2) by (intro that [of "L\<lparr>li_sys := s'\<rparr>"]) simp_all
qed

end
