(* ===== verification/Interleaving.thy ===== *)
theory Interleaving
  imports Tampi_Runs
begin

text \<open>
  The calls of the tasks at a finer grain. \<open>OperationManager::process\<close> (src/src/common/OperationManager.hpp) is split where other threads
  can see what it does: it binds the event, allocates and constructs the operation, pushes it, and
  pauses the task. Between any two of these phases the polling tasks and other tasks may run. In particular the operation of a
  blocking call can complete, and its task be unblocked, before the task has paused.
\<close>

section \<open>Phases\<close>

text \<open>The operation that a call constructs, of one of the two classes.\<close>

datatype job = Job_p2p Operation | Job_coll CollOperation

fun job_context :: "job \<Rightarrow> TaskContext" where
  "job_context (Job_p2p opn) = op_context opn"
| "job_context (Job_coll opn) = coll_context opn"

fun job_ok :: "'m mpi \<Rightarrow> job \<Rightarrow> bool" where
  "job_ok mpi (Job_p2p opn) = op_ok mpi opn"
| "job_ok mpi (Job_coll opn) = coll_ok opn"

definition process_bind :: "('m, 'q, 'c) platform \<Rightarrow> OpNature \<Rightarrow> ('m, 'q, 'c) sys \<Rightarrow> (TaskContext \<times> ('m, 'q, 'c) sys) result" where
  "process_bind P nature s =
     rbind (TaskContext_current (pf_rt P) (sy_log s) (nature = BLK)) (\<lambda>(tc, h).
     rbind (bindEvents (pf_rt P) h tc 1) (\<lambda>h. Inr (tc, set_log h s)))"

fun process_alloc :: "('m, 'q, 'c) platform \<Rightarrow> job \<Rightarrow> ('m, 'q, 'c) sys \<Rightarrow> (nat \<times> ('m, 'q, 'c) sys) result" where
  "process_alloc P (Job_p2p opn) s =
     rbind (Allocator_alloc (pf_B P) (pf_rt P) (sy_log s) (al_operation (sy_alloc s))) (\<lambda>(p, A, h).
     Inr (p, set_log h (s\<lparr>sy_alloc := (sy_alloc s)\<lparr>al_operation := A\<rparr>, sy_ops := (sy_ops s)(p := opn)\<rparr>)))"
| "process_alloc P (Job_coll opn) s =
     rbind (Allocator_alloc (pf_B P) (pf_rt P) (sy_log s) (al_coll (sy_alloc s))) (\<lambda>(p, A, h).
     Inr (p, set_log h (s\<lparr>sy_alloc := (sy_alloc s)\<lparr>al_coll := A\<rparr>, sy_colls := (sy_colls s)(p := opn)\<rparr>)))"

fun process_push ::
    "('m, 'q, 'c) platform \<Rightarrow> (nat \<Rightarrow> nat mlfq \<Rightarrow> nat mlfq) \<Rightarrow> (nat \<Rightarrow> 'q \<Rightarrow> 'q) \<Rightarrow> job \<Rightarrow> nat \<Rightarrow>
     ('m, 'q, 'c) sys \<Rightarrow> ('m, 'q, 'c) sys run" where
  "process_push P env envc (Job_p2p opn) p s =
     run_bind (addOperation_p2p env (pf_rt P) (sy_log s) (sy_tm s) p) (\<lambda>(tm, h). ret (set_log h (s\<lparr>sy_tm := tm\<rparr>)))"
| "process_push P env envc (Job_coll opn) p s =
     run_bind (addOperation_coll (pf_B P) envc (sy_tm s) p) (\<lambda>tm. ret (s\<lparr>sy_tm := tm\<rparr>))"

definition process_wait :: "('m, 'q, 'c) platform \<Rightarrow> TaskContext \<Rightarrow> ('m, 'q, 'c) sys \<Rightarrow> ('m, 'q, 'c) sys result" where
  "process_wait P tc s =
     (if tc_blocking tc then rbind (waitEventsCompletion (pf_rt P) (sy_log s) tc) (\<lambda>h. Inr (set_log h s)) else Inr s)"

text \<open>The phases one after the other are \<open>process\<close>.\<close>

definition process_job ::
    "('m, 'q, 'c) platform \<Rightarrow> (nat \<Rightarrow> nat mlfq \<Rightarrow> nat mlfq) \<Rightarrow> (nat \<Rightarrow> 'q \<Rightarrow> 'q) \<Rightarrow> OpNature \<Rightarrow> (task \<Rightarrow> job) \<Rightarrow>
     ('m, 'q, 'c) sys \<Rightarrow> ('m, 'q, 'c) sys run" where
  "process_job P env envc nature mk s =
     run_bind (Some (process_bind P nature s)) (\<lambda>(tc, s).
     run_bind (Some (process_alloc P (mk (tc_taskHandle tc)) s)) (\<lambda>(p, s).
     run_bind (process_push P env envc (mk (tc_taskHandle tc)) p s) (\<lambda>s.
     Some (process_wait P tc s))))"

lemma set_log_simps [simp]:
  "sy_tm (set_log h s) = sy_tm s" "sy_alloc (set_log h s) = sy_alloc s" "sy_ops (set_log h s) = sy_ops s"
  "sy_colls (set_log h s) = sy_colls s" "sy_log (set_log h s) = h" "w_cq (sy_world (set_log h s)) = w_cq (sy_world s)"
  "set_log h' (set_log h s) = set_log h' s" "set_log h (s\<lparr>sy_tm := tm\<rparr>) = (set_log h s)\<lparr>sy_tm := tm\<rparr>"
  "set_log h (s\<lparr>sy_alloc := al\<rparr>) = (set_log h s)\<lparr>sy_alloc := al\<rparr>" "set_log h (s\<lparr>sy_ops := f\<rparr>) = (set_log h s)\<lparr>sy_ops := f\<rparr>"
  "set_log h (s\<lparr>sy_colls := g\<rparr>) = (set_log h s)\<lparr>sy_colls := g\<rparr>"
  by (simp_all add: set_log_def)

lemma run_bind_assoc: "run_bind (run_bind m f) g = run_bind m (\<lambda>x. run_bind (f x) g)"
  by (auto simp: run_bind_def split: option.splits sum.splits bind_splits)

lemma run_bind_Some: "run_bind (Some r) f = (case r of Inl e \<Rightarrow> Some (Inl e) | Inr a \<Rightarrow> f a)"
  by (simp add: run_bind_def)

lemma process_job_p2p: "process_job P env envc nature (\<lambda>t. Job_p2p (mk t)) s = process_p2p P env nature mk s"
  by (auto simp: process_job_def process_p2p_def process_bind_def process_wait_def run_bind_Some Let_def rbind_def run_bind_assoc
      case_prod_unfold run_bind_def intro!: bind_option_cong [OF refl] split: sum.splits if_splits)

lemma process_job_coll: "process_job P env envc nature (\<lambda>t. Job_coll (mk t)) s = process_coll P envc nature mk s"
  by (auto simp: process_job_def process_coll_def process_bind_def process_wait_def run_bind_Some Let_def rbind_def run_bind_assoc
      case_prod_unfold run_bind_def intro!: bind_option_cong [OF refl] split: sum.splits if_splits)

section \<open>Steps\<close>

text \<open>
  Where a task is: in its own code, or in a call that has bound its event, that holds an allocated object, that has
  queued a blocking operation, or that has paused the task.
\<close>

datatype phase = Outside | Bound job | Holding job nat | Queued | Paused

text \<open>A task is resumed when the runtime saw as many calls to unblock it as to block it.\<close>

abbreviation blk :: "task \<Rightarrow> TaskContext" where
  "blk t \<equiv> \<lparr>tc_blocking = True, tc_taskHandle = t\<rparr>"

abbreviation evt :: "task \<Rightarrow> TaskContext" where
  "evt t \<equiv> \<lparr>tc_blocking = False, tc_taskHandle = t\<rparr>"

definition blocks :: "('m, 'q, 'c) sys \<Rightarrow> task \<Rightarrow> nat" where
  "blocks s t = count_list (sy_log s) (alpi_task_block t)"

definition unblocks :: "('m, 'q, 'c) sys \<Rightarrow> task \<Rightarrow> nat" where
  "unblocks s t = count_list (sy_log s) (alpi_task_unblock t)"

text \<open>There is an object to allocate, and room in the queue.\<close>

fun job_can_alloc :: "('m, 'q, 'c) platform \<Rightarrow> ('m, 'q, 'c) sys \<Rightarrow> nat \<Rightarrow> job \<Rightarrow> bool" where
  "job_can_alloc P s cpu (Job_p2p opn) = can_alloc (pf_B P) (al_operation (sy_alloc s)) cpu"
| "job_can_alloc P s cpu (Job_coll opn) = can_alloc (pf_B P) (al_coll (sy_alloc s)) cpu"

fun job_room :: "('m, 'q, 'c) platform \<Rightarrow> ('m, 'q, 'c) sys \<Rightarrow> nat \<Rightarrow> job \<Rightarrow> bool" where
  "job_room P s cpu (Job_p2p opn) = (cpu < mq_queues (tm_p2pOperations (sy_tm s)) \<and>
     mq_used (tm_p2pOperations (sy_tm s)) cpu + 1 < mq_capacity (tm_p2pOperations (sy_tm s)))"
| "job_room P s cpu (Job_coll opn) = (length (bq_contents (pf_B P) (tm_collOperations (sy_tm s))) + 1 \<le>
     spsc_capacity (pf_B P) (bq_queue (tm_collOperations (sy_tm s))))"

text \<open>
  The phases of one call. The task may be on another CPU in each of them. A push takes its step when there is room, which is what
  a push into a full queue waits for.
\<close>

inductive task_step ::
    "('m, 'q, 'c) platform \<Rightarrow> ('m, 'q, 'c) sys \<times> (task \<Rightarrow> phase) \<Rightarrow> ('m, 'q, 'c) sys \<times> (task \<Rightarrow> phase) \<Rightarrow> bool"
  for P :: "('m, 'q, 'c) platform" where
  alloc: "rt_ok rt \<Longrightarrow> caller_ok rt t cpu \<Longrightarrow> ph t = Bound J \<Longrightarrow> job_can_alloc P s cpu J \<Longrightarrow>
    process_alloc (as_task rt P) J s = Inr (p, s') \<Longrightarrow> task_step P (s, ph) (s', ph(t := Holding J p))"
| push: "rt_ok rt \<Longrightarrow> caller_ok rt t cpu \<Longrightarrow> ph t = Holding J p \<Longrightarrow> job_room P s cpu J \<Longrightarrow>
    process_push (as_task rt P) env envc J p s = ret s' \<Longrightarrow>
    task_step P (s, ph) (s', ph(t := if tc_blocking (job_context J) then Queued else Outside))"
| wait: "rt_ok rt \<Longrightarrow> caller_ok rt t cpu \<Longrightarrow> ph t = Queued \<Longrightarrow>
    process_wait (as_task rt P) (blk t) s = Inr s' \<Longrightarrow> task_step P (s, ph) (s', ph(t := Paused))"
| resume: "ph t = Paused \<Longrightarrow> blocks s t \<le> unblocks s t \<Longrightarrow> task_step P (s, ph) (s, ph(t := Outside))"

inductive phase_step ::
    "('m, 'q, 'c) platform \<Rightarrow> ('m, 'q, 'c) sys \<times> (task \<Rightarrow> phase) \<Rightarrow> ('m, 'q, 'c) sys \<times> (task \<Rightarrow> phase) \<Rightarrow> bool"
  for P :: "('m, 'q, 'c) platform" where
  enter: "rt_ok rt \<Longrightarrow> caller_ok rt t cpu \<Longrightarrow> ph t = Outside \<Longrightarrow> job_ok (pf_mpi P) J \<Longrightarrow>
    process_bind (as_task rt P) nature s = Inr (job_context J, s') \<Longrightarrow> phase_step P (s, ph) (s', ph(t := Bound J))"
| continue: "task_step P S S' \<Longrightarrow> phase_step P S S'"
| poll: "sys_room P s \<Longrightarrow> polling P now s ctrl = ret (period, s', ctrl', wn) \<Longrightarrow> phase_step P (s, ph) (s', ph)"
| complete: "pf_cm P \<Longrightarrow> completions P s ctrl = Inr (period, s', ctrl') \<Longrightarrow> phase_step P (s, ph) (s', ph)"

section \<open>Sums over the tasks\<close>

text \<open>What the tasks hold together; a task in its own code holds nothing.\<close>

definition tasks_sum :: "(task \<Rightarrow> phase \<Rightarrow> 'a :: comm_monoid_add) \<Rightarrow> (task \<Rightarrow> phase) \<Rightarrow> 'a" where
  "tasks_sum f ph = (\<Sum>t \<in> {t. ph t \<noteq> Outside}. f t (ph t))"

lemma tasks_sum_superset:
  assumes "finite A" "{t. ph t \<noteq> Outside} \<subseteq> A" "\<And>t. f t Outside = 0"
  shows "tasks_sum f ph = (\<Sum>t \<in> A. f t (ph t))"
  unfolding tasks_sum_def using assms by (intro sum.mono_neutral_left) auto

lemma tasks_sum_upd:
  assumes "finite {t. ph t \<noteq> Outside}" "\<And>t. f t Outside = 0"
  shows "tasks_sum f (ph(t := x)) + f t (ph t) = tasks_sum f ph + f t x"
proof -
  let ?A = "insert t {t. ph t \<noteq> Outside}"
  have "tasks_sum f (ph(t := x)) = (\<Sum>u \<in> ?A. f u ((ph(t := x)) u))" "tasks_sum f ph = (\<Sum>u \<in> ?A. f u (ph u))"
    using assms by (intro tasks_sum_superset; auto)+
  moreover have "(\<Sum>u \<in> ?A. f u ((ph(t := x)) u)) = f t x + (\<Sum>u \<in> ?A - {t}. f u (ph u))"
    using assms(1) by (subst sum.remove [of _ t]) auto
  moreover have "(\<Sum>u \<in> ?A. f u (ph u)) = f t (ph t) + (\<Sum>u \<in> ?A - {t}. f u (ph u))"
    using assms(1) by (subst sum.remove [of _ t]) auto
  ultimately show ?thesis by (simp add: ac_simps)
qed

lemma tasks_sum_member:
  assumes "finite {t. ph t \<noteq> Outside}" "\<And>t. f t Outside = {#}" "p \<in># f t (ph t)"
  shows "p \<in># tasks_sum f ph"
proof -
  have "t \<in> {t. ph t \<noteq> Outside}" using assms(2,3) by (cases "ph t") auto
  then show ?thesis using assms(1,3) unfolding tasks_sum_def by (subst sum.remove [of _ t]) auto
qed

section \<open>What the phases change\<close>

fun held_p2p :: "task \<Rightarrow> phase \<Rightarrow> nat multiset" where
  "held_p2p t (Holding (Job_p2p opn) p) = {#p#}"
| "held_p2p t _ = {#}"

fun held_coll :: "task \<Rightarrow> phase \<Rightarrow> nat multiset" where
  "held_coll t (Holding (Job_coll opn) p) = {#p#}"
| "held_coll t _ = {#}"

fun job_at :: "('m, 'q, 'c) sys \<Rightarrow> job \<Rightarrow> nat \<Rightarrow> bool" where
  "job_at s (Job_p2p opn) p = (sy_ops s p = opn)"
| "job_at s (Job_coll opn) p = (sy_colls s p = opn)"

text \<open>The objects in use: those that are queued and those that tasks hold.\<close>

definition in_use :: "('m, 'q, 'c) platform \<Rightarrow> ('m, 'q, 'c) sys \<Rightarrow> nat multiset \<Rightarrow> nat multiset \<Rightarrow> bool" where
  "in_use P s hp hc \<longleftrightarrow> alloc_ok (pf_B P) (al_operation (sy_alloc s)) (sy_p2p s + hp) \<and>
     alloc_ok (pf_B P) (al_coll (sy_alloc s)) (sy_coll P s + hc)"

lemma alloc_ok_mono: "alloc_ok B A (ptrs + rest) \<Longrightarrow> alloc_ok B A ptrs"
  unfolding alloc_ok_def using subset_mset.order_trans mset_subset_eq_add_left by blast

lemma process_bind_ok:
  assumes "rt_ok (pf_rt P)" "caller_ok (pf_rt P) t cpu"
  shows "process_bind P nature s = Inr (\<lparr>tc_blocking = (nature = BLK), tc_taskHandle = t\<rparr>,
    set_log (sy_log s @ [alpi_task_self] @ (if nature = BLK then [] else [alpi_task_events_increase t 1])) s)"
  using TaskContext_current_ok [OF assms] bindEvents_ok [OF assms(1)] by (simp add: process_bind_def)

lemma process_alloc_ok:
  assumes "plat_ok P" "caller_ok (pf_rt P) t cpu" "job_can_alloc P s cpu J" "in_use P s hp hc"
  obtains p s' where "process_alloc P J s = Inr (p, s')" "p \<noteq> 0" "job_at s' J p" "sy_tm s' = sy_tm s"
    "sy_log s' = sy_log s @ [alpi_cpu_logical_id]" "w_cq (sy_world s') = w_cq (sy_world s)"
    "in_use P s' (hp + held_p2p t (Holding J p)) (hc + held_coll t (Holding J p))"
    "\<And>q. q \<in># sy_p2p s + hp \<Longrightarrow> sy_ops s' q = sy_ops s q"
    "\<And>q. q \<in># sy_coll P s + hc \<Longrightarrow> sy_colls s' q = sy_colls s q"
proof -
  have p: "rt_ok (pf_rt P)" "spsc_ok (pf_B P)" using assms(1) by (auto simp: plat_ok_def)
  show thesis
  proof (cases J)
    case (Job_p2p opn)
    have A: "alloc_ok (pf_B P) (al_operation (sy_alloc s)) (sy_p2p s + hp)" using assms(4) by (simp add: in_use_def)
    obtain ptr A' where a: "Allocator_alloc (pf_B P) (pf_rt P) (sy_log s) (al_operation (sy_alloc s)) =
        Inr (ptr, A', sy_log s @ [alpi_cpu_logical_id])" "ptr \<noteq> 0" "ptr \<notin># sy_p2p s + hp"
      "alloc_ok (pf_B P) A' (add_mset ptr (sy_p2p s + hp))"
      by (rule Allocator_alloc_ok [OF p(2,1) A assms(2)]) (use assms(3) Job_p2p in simp)
    show thesis
      by (rule that [of ptr "set_log (sy_log s @ [alpi_cpu_logical_id])
            (s\<lparr>sy_alloc := (sy_alloc s)\<lparr>al_operation := A'\<rparr>, sy_ops := (sy_ops s)(ptr := opn)\<rparr>)"])
        (use Job_p2p a assms(4) in \<open>auto simp: in_use_def\<close>)
  next
    case (Job_coll opn)
    have A: "alloc_ok (pf_B P) (al_coll (sy_alloc s)) (sy_coll P s + hc)" using assms(4) by (simp add: in_use_def)
    obtain ptr A' where a: "Allocator_alloc (pf_B P) (pf_rt P) (sy_log s) (al_coll (sy_alloc s)) =
        Inr (ptr, A', sy_log s @ [alpi_cpu_logical_id])" "ptr \<noteq> 0" "ptr \<notin># sy_coll P s + hc"
      "alloc_ok (pf_B P) A' (add_mset ptr (sy_coll P s + hc))"
      by (rule Allocator_alloc_ok [OF p(2,1) A assms(2)]) (use assms(3) Job_coll in simp)
    show thesis
      by (rule that [of ptr "set_log (sy_log s @ [alpi_cpu_logical_id])
            (s\<lparr>sy_alloc := (sy_alloc s)\<lparr>al_coll := A'\<rparr>, sy_colls := (sy_colls s)(ptr := opn)\<rparr>)"])
        (use Job_coll a assms(4) in \<open>auto simp: in_use_def\<close>)
  qed
qed

lemma process_push_ok:
  assumes "plat_ok P" "sys_ok P s" "caller_ok (pf_rt P) t cpu" "job_room P s cpu J" "p \<noteq> 0"
  obtains s' calls where "process_push P env envc J p s = ret s'" "set calls \<subseteq> {alpi_cpu_logical_id}"
    "sy_log s' = sy_log s @ calls" "sy_alloc s' = sy_alloc s" "sy_ops s' = sy_ops s" "sy_colls s' = sy_colls s"
    "w_cq (sy_world s') = w_cq (sy_world s)" "tm_ok (pf_mpi P) (sy_tm s')" "mq_ok (tm_p2pOperations (sy_tm s'))"
    "tm_capacityCtrl (sy_tm s') = tm_capacityCtrl (sy_tm s)" "tm_pending (sy_tm s') = tm_pending (sy_tm s)"
    "sys_flight s' = sys_flight s"
    "sy_p2p s' = sy_p2p s + held_p2p t (Holding J p)" "sy_coll P s' = sy_coll P s + held_coll t (Holding J p)"
proof -
  note S = assms(2) [unfolded sys_ok_def]
  have p: "rt_ok (pf_rt P)" "spsc_ok (pf_B P)" using assms(1) by (auto simp: plat_ok_def)
  show thesis
  proof (cases J)
    case (Job_p2p opn)
    have q: "cpu < mq_queues (tm_p2pOperations (sy_tm s))"
      "mq_used (tm_p2pOperations (sy_tm s)) cpu + 1 < mq_capacity (tm_p2pOperations (sy_tm s))"
      using assms(4) Job_p2p by simp_all
    obtain q' where q': "mq_push env (tm_p2pOperations (sy_tm s)) p cpu = ret q'" "mq_ok q'" "mq_elems q' = add_mset p (sy_p2p s)"
      using mq_push_elems [OF _ q] S by metis
    show thesis
      by (rule that [of "set_log (sy_log s @ [alpi_cpu_logical_id]) (s\<lparr>sy_tm := (sy_tm s)\<lparr>tm_p2pOperations := q'\<rparr>\<rparr>)" "[alpi_cpu_logical_id]"])
        (use Job_p2p q' S assms(3,5) getCurrentLogicalCPU_ok [OF p(1)] in
          \<open>auto simp: addOperation_p2p_def caller_ok_def tm_ok_def tm_flight_def sys_flight_def\<close>)
  next
    case (Job_coll opn)
    have room: "length (bq_contents (pf_B P) (tm_collOperations (sy_tm s))) + length [p] \<le>
        spsc_capacity (pf_B P) (bq_queue (tm_collOperations (sy_tm s)))" using assms(4) Job_coll by simp
    obtain q' where q': "bq_push (pf_B P) envc (tm_collOperations (sy_tm s)) [p] = ret q'"
      "bq_contents (pf_B P) q' = bq_contents (pf_B P) (tm_collOperations (sy_tm s)) @ [p]"
      by (rule bq_push_room [OF p(2) room])
    show thesis
      by (rule that [of "s\<lparr>sy_tm := (sy_tm s)\<lparr>tm_collOperations := q'\<rparr>\<rparr>" "[]"])
        (use Job_coll q' S assms(5) in \<open>auto simp: addOperation_coll_def bq_elems_def tm_ok_def tm_flight_def sys_flight_def\<close>)
  qed
qed

lemma process_wait_ok: "rt_ok (pf_rt P) \<Longrightarrow> process_wait P (blk t) s = Inr (set_log (sy_log s @ [alpi_task_block t]) s)"
  by (simp add: process_wait_def waitEventsCompletion_ok)

section \<open>Invariant\<close>

text \<open>A job belongs to its task, and a held object contains it.\<close>

fun phase_ok :: "'m mpi \<Rightarrow> ('m, 'q, 'c) sys \<Rightarrow> task \<Rightarrow> phase \<Rightarrow> bool" where
  "phase_ok mpi s t (Bound J) = (job_ok mpi J \<and> tc_taskHandle (job_context J) = t)"
| "phase_ok mpi s t (Holding J p) = (job_ok mpi J \<and> tc_taskHandle (job_context J) = t \<and> p \<noteq> 0 \<and> job_at s J p)"
| "phase_ok mpi s t _ = True"

definition held_ok :: "('m, 'q, 'c) platform \<Rightarrow> ('m, 'q, 'c) sys \<Rightarrow> (task \<Rightarrow> phase) \<Rightarrow> bool" where
  "held_ok P s ph \<longleftrightarrow> finite {t. ph t \<noteq> Outside} \<and> in_use P s (tasks_sum held_p2p ph) (tasks_sum held_coll ph) \<and>
     (\<forall>t. phase_ok (pf_mpi P) s t (ph t))"

text \<open>An event that is bound while its operation is not queued yet.\<close>

fun early_event :: "phase \<Rightarrow> nat" where
  "early_event (Bound J) = (if tc_blocking (job_context J) then 0 else 1)"
| "early_event (Holding J p) = (if tc_blocking (job_context J) then 0 else 1)"
| "early_event _ = 0"

text \<open>
  The accounts of a task. Its blocking operations: those pending and those notified are the ones that it
  waited for or is about to; there is at most one, and only while the task is in the call. Its events: those bound and
  not fulfilled are its pending operations and the one that it is about to queue.
\<close>

definition accounts_ok :: "TaskContext multiset \<Rightarrow> notification list \<Rightarrow> task \<Rightarrow> phase \<Rightarrow> bool" where
  "accounts_ok pend h t x \<longleftrightarrow>
     count_list h (Notify (blk t)) + count pend (blk t) = count_list h (Submit (blk t)) + (if x = Queued then 1 else 0) \<and>
     count pend (blk t) \<le> (if x = Queued \<or> x = Paused then 1 else 0) \<and>
     count_list h (Submit (evt t)) = count_list h (Notify (evt t)) + count pend (evt t) + early_event x"

text \<open>An event is fulfilled after it was bound; at most one call to unblock a task precedes the matching call to block it.\<close>

definition alpi_order :: "notification list \<Rightarrow> bool" where
  "alpi_order h \<longleftrightarrow> (\<forall>p tc. prefix p h \<longrightarrow>
     count_list p (Notify tc) \<le> count_list p (Submit tc) + (if tc_blocking tc then 1 else 0))"

definition phases_inv :: "('m, 'q, 'c) platform \<Rightarrow> ('m, 'q, 'c) sys \<times> (task \<Rightarrow> phase) \<Rightarrow> bool" where
  "phases_inv P S \<longleftrightarrow> (case S of (s, ph) \<Rightarrow> sys_ok P s \<and> held_ok P s ph \<and>
     (\<forall>t. accounts_ok (sys_pending P s) (log_history (sy_log s)) t (ph t)) \<and> alpi_order (log_history (sy_log s)))"

lemma accounts_bound:
  assumes "\<forall>t. accounts_ok pend h t (ph t)"
  shows "count_list h (Notify tc) \<le> count_list h (Submit tc) + (if tc_blocking tc then 1 else 0)"
proof (cases tc)
  case (fields b t)
  then show ?thesis using assms [THEN spec, of t] by (cases b) (auto simp: accounts_ok_def split: if_splits)
qed

lemma alpi_order_submit:
  assumes "alpi_order h"
  shows "alpi_order (h @ [Submit tc])"
proof -
  have "count_list h (Notify tc) \<le> count_list h (Submit tc) + (if tc_blocking tc then 1 else 0)" for tc
    using assms by (simp add: alpi_order_def)
  note le = this
  have "count_list (h @ [Submit tc]) (Notify u) \<le> count_list (h @ [Submit tc]) (Submit u) + (if tc_blocking u then 1 else 0)" for u
    using le [of u] by (auto split: if_splits)
  with assms show ?thesis unfolding alpi_order_def prefix_snoc by blast
qed

lemma alpi_order_notify:
  assumes "alpi_order h" "\<And>tc. count_list (h @ map Notify tcs) (Notify tc) \<le>
    count_list (h @ map Notify tcs) (Submit tc) + (if tc_blocking tc then 1 else 0)"
  shows "alpi_order (h @ map Notify tcs)"
  unfolding alpi_order_def
proof (intro allI impI)
  have none: "count_list (map Notify xs) (Submit tc) = 0" for xs tc by (induction xs) auto
  fix p tc assume "prefix p (h @ map Notify tcs)"
  then consider "prefix p h" | xs ys where "p = h @ xs" "map Notify tcs = xs @ ys"
    unfolding prefix_append by (auto elim: prefixE)
  then show "count_list p (Notify tc) \<le> count_list p (Submit tc) + (if tc_blocking tc then 1 else 0)"
  proof cases
    case 1
    then show ?thesis using assms(1) by (simp add: alpi_order_def)
  next
    case 2
    then obtain us vs where "xs = map Notify us" by (auto simp: map_eq_append_conv)
    then have "count_list xs (Submit tc) = 0" by (simp add: none)
    moreover have "count_list xs (Notify tc) \<le> count_list (map Notify tcs) (Notify tc)" by (simp add: 2(2))
    ultimately show ?thesis using assms(2) [of tc] 2(1) by (simp add: none)
  qed
qed

lemma accounts_notify:
  assumes "accounts_ok (mset tcs + pend) h t x"
  shows "accounts_ok pend (h @ map Notify tcs) t x"
proof -
  have "count_list (map Notify tcs) (Submit tc) = 0" "count_list (map Notify tcs) (Notify tc) = count (mset tcs) tc" for tc
    by (induction tcs) auto
  then show ?thesis using assms by (auto simp: accounts_ok_def split: if_splits)
qed

text \<open>Steps that notify, and keep what the tasks hold.\<close>

lemma notifies_phases:
  assumes "phases_inv P (s, ph)" "sys_ok P s'" "notifies P s s'" "keeps_held P s s'"
  shows "phases_inv P (s', ph)"
proof -
  note I = assms(1) [unfolded phases_inv_def prod.case]
  obtain tcs where t: "sy_log s' = sy_log s @ map completion_call tcs" "sys_pending P s = mset tcs + sys_pending P s'"
    using assms(3) by (auto simp: notifies_def)
  have h: "log_history (sy_log s') = log_history (sy_log s) @ map Notify tcs" by (simp add: t(1))
  have acc: "\<forall>t. accounts_ok (sys_pending P s') (log_history (sy_log s')) t (ph t)"
    unfolding h using I t(2) accounts_notify by metis
  have "alpi_order (log_history (sy_log s'))"
    unfolding h using I accounts_bound [OF acc] by (intro alpi_order_notify) (auto simp: h)
  moreover have "phase_ok (pf_mpi P) s' t x = phase_ok (pf_mpi P) s t x" for t x
  proof (cases x)
    case (Holding J p)
    then show ?thesis using assms(4) by (cases J) (simp_all add: keeps_held_def)
  qed simp_all
  then have "held_ok P s' ph" using I assms(4) by (auto simp: held_ok_def in_use_def keeps_held_def)
  ultimately show ?thesis using acc assms(2) by (simp add: phases_inv_def)
qed

text \<open>Steps of one task.\<close>

lemma held_sums:
  assumes "held_ok P s ph"
  shows "tasks_sum held_p2p (ph(t := x)) + held_p2p t (ph t) = tasks_sum held_p2p ph + held_p2p t x"
    "tasks_sum held_coll (ph(t := x)) + held_coll t (ph t) = tasks_sum held_coll ph + held_coll t x"
  using assms tasks_sum_upd [of ph held_p2p] tasks_sum_upd [of ph held_coll] by (auto simp: held_ok_def)

lemma held_ok_upd:
  assumes "held_ok P s ph" "phase_ok (pf_mpi P) s' t x"
    and "in_use P s' (tasks_sum held_p2p (ph(t := x))) (tasks_sum held_coll (ph(t := x)))"
    and "\<And>q. q \<in># tasks_sum held_p2p ph \<Longrightarrow> sy_ops s' q = sy_ops s q" "\<And>q. q \<in># tasks_sum held_coll ph \<Longrightarrow> sy_colls s' q = sy_colls s q"
  shows "held_ok P s' (ph(t := x))"
proof -
  have fin: "finite {t. ph t \<noteq> Outside}" using assms(1) by (simp add: held_ok_def)
  have "finite {u. (ph(t := x)) u \<noteq> Outside}"
    by (rule finite_subset [of _ "insert t {t. ph t \<noteq> Outside}"]) (auto simp: fin)
  moreover have "phase_ok (pf_mpi P) s' u (ph u)" for u
  proof (cases "ph u")
    case (Holding J p)
    have "phase_ok (pf_mpi P) s u (ph u)" using assms(1) by (simp add: held_ok_def)
    moreover have "p \<in># tasks_sum held_p2p ph \<or> p \<in># tasks_sum held_coll ph"
      "\<And>opn. J = Job_p2p opn \<Longrightarrow> p \<in># tasks_sum held_p2p ph" "\<And>opn. J = Job_coll opn \<Longrightarrow> p \<in># tasks_sum held_coll ph"
      using tasks_sum_member [OF fin, of held_p2p p u] tasks_sum_member [OF fin, of held_coll p u] Holding by (cases J; simp)+
    ultimately show ?thesis using Holding assms(4,5) by (cases J) auto
  qed (use assms(1) in \<open>auto simp: held_ok_def dest: spec [of _ u]\<close>)
  ultimately show ?thesis using assms(2,3) by (auto simp: held_ok_def)
qed

lemma task_phases:
  assumes "phases_inv P (s, ph)" "sys_ok P s'" "held_ok P s' (ph(t := x))"
    and "log_history (sy_log s') = log_history (sy_log s) @ map Submit subs" "sys_pending P s' = sys_pending P s + mset adds"
    and "subs = [] \<or> subs = [tc]" "adds = [] \<or> adds = [tc]" "tc_taskHandle tc = t"
    and "accounts_ok (sys_pending P s') (log_history (sy_log s')) t x"
  shows "phases_inv P (s', ph(t := x))"
proof -
  note I = assms(1) [unfolded phases_inv_def prod.case]
  have "accounts_ok (sys_pending P s') (log_history (sy_log s')) u (ph u)" if "u \<noteq> t" for u
  proof -
    have "tc \<noteq> blk u" "tc \<noteq> evt u" using that assms(8) by auto
    moreover have "accounts_ok (sys_pending P s) (log_history (sy_log s)) u (ph u)" using I by simp
    ultimately show ?thesis using assms(4-7) by (auto simp: accounts_ok_def)
  qed
  moreover have "alpi_order (log_history (sy_log s'))"
    using I assms(4,6) alpi_order_submit by auto
  ultimately show ?thesis using assms(2,3,9) by (simp add: phases_inv_def)
qed

lemma set_log_abs [simp]:
  "sys_ok P (set_log h s) = sys_ok P s" "sys_pending P (set_log h s) = sys_pending P s" "in_use P (set_log h s) hp hc = in_use P s hp hc"
  by (simp_all add: sys_ok_def sys_pending_def sys_queued_def sys_flight_def in_use_def)

lemma enter_phases:
  assumes "phases_inv P (s, ph)" "rt_ok rt" "caller_ok rt t cpu" "ph t = Outside" "job_ok (pf_mpi P) J"
    and "process_bind (as_task rt P) nature s = Inr (job_context J, s')"
  shows "phases_inv P (s', ph(t := Bound J))"
proof -
  note I = assms(1) [unfolded phases_inv_def prod.case]
  let ?calls = "[alpi_task_self] @ (if nature = BLK then [] else [alpi_task_events_increase t 1])"
  have s': "s' = set_log (sy_log s @ ?calls) s" "job_context J = \<lparr>tc_blocking = (nature = BLK), tc_taskHandle = t\<rparr>"
    using process_bind_ok [of "as_task rt P" t cpu nature s] assms(2,3,6) by auto
  have held: "held_ok P s' (ph(t := Bound J))"
  proof (rule held_ok_upd)
    show "held_ok P s ph" using I by simp
    show "in_use P s' (tasks_sum held_p2p (ph(t := Bound J))) (tasks_sum held_coll (ph(t := Bound J)))"
      using I held_sums [of P s ph t "Bound J"] assms(4) by (simp add: s'(1) held_ok_def)
  qed (use assms(5) s' in simp_all)
  have "accounts_ok (sys_pending P s) (log_history (sy_log s)) t Outside" using I assms(4) by metis
  then have "accounts_ok (sys_pending P s') (log_history (sy_log s')) t (Bound J)"
    by (auto simp: s' accounts_ok_def)
  then show ?thesis
    using I held by (intro task_phases [OF assms(1), where subs = "if nature = BLK then [] else [evt t]" and adds = "[]" and tc = "evt t"])
      (auto simp: s'(1))
qed

lemma as_task_phase [simp]:
  "in_use (as_task rt P) s hp hc = in_use P s hp hc" "job_can_alloc (as_task rt P) s cpu J = job_can_alloc P s cpu J"
  "job_room (as_task rt P) s cpu J = job_room P s cpu J"
  by (cases J; simp add: in_use_def)+

lemma alloc_phases:
  assumes "phases_inv P (s, ph)" "plat_ok P" "rt_ok rt" "caller_ok rt t cpu" "ph t = Bound J" "job_can_alloc P s cpu J"
    and "process_alloc (as_task rt P) J s = Inr (p, s')"
  shows "phases_inv P (s', ph(t := Holding J p))"
proof -
  note I = assms(1) [unfolded phases_inv_def prod.case] and H = held_sums [of P s ph t "Holding J p"]
  let ?hp = "tasks_sum held_p2p ph" and ?hc = "tasks_sum held_coll ph"
  have P': "plat_ok (as_task rt P)" "caller_ok (pf_rt (as_task rt P)) t cpu" using assms(2-4) by simp_all
  have use: "in_use P s ?hp ?hc" "phase_ok (pf_mpi P) s t (Bound J)" using I assms(5) by (auto simp: held_ok_def dest: spec [of _ t])
  obtain p1 s1 where a: "process_alloc (as_task rt P) J s = Inr (p1, s1)" and r1: "p1 \<noteq> 0" "job_at s1 J p1" "sy_tm s1 = sy_tm s"
    "sy_log s1 = sy_log s @ [alpi_cpu_logical_id]" "w_cq (sy_world s1) = w_cq (sy_world s)"
    "in_use (as_task rt P) s1 (?hp + held_p2p t (Holding J p1)) (?hc + held_coll t (Holding J p1))"
    "\<And>q. q \<in># sy_p2p s + ?hp \<Longrightarrow> sy_ops s1 q = sy_ops s q" "\<And>q. q \<in># sy_coll (as_task rt P) s + ?hc \<Longrightarrow> sy_colls s1 q = sy_colls s q"
    by (rule process_alloc_ok [OF P', of s J ?hp ?hc]) (use assms(6) use(1) in simp_all)
  have "p1 = p" "s1 = s'" using a assms(7) by simp_all
  note r = r1 [unfolded this, simplified]
  have "image_mset (\<lambda>q. op_context (sy_ops s' q)) (sy_p2p s) = image_mset (\<lambda>q. op_context (sy_ops s q)) (sy_p2p s)"
    "image_mset (\<lambda>q. coll_context (sy_colls s' q)) (sy_coll P s) = image_mset (\<lambda>q. coll_context (sy_colls s q)) (sy_coll P s)"
    using r(7,8) by (auto intro!: image_mset_cong)
  then have pend: "sys_pending P s' = sys_pending P s" using r(3,5) by (simp add: sys_pending_def sys_queued_def sys_flight_def)
  have "sys_ok P s'"
    using I r(3,6-8) alloc_ok_mono unfolding sys_ok_def in_use_def by auto
  moreover have "held_ok P s' (ph(t := Holding J p))"
    by (rule held_ok_upd [of P s]) (use I H assms(5) use(2) r in auto)
  moreover have "accounts_ok (sys_pending P s') (log_history (sy_log s')) t (Holding J p)"
  proof -
    have "accounts_ok (sys_pending P s) (log_history (sy_log s)) t (Bound J)" using I assms(5) by metis
    then show ?thesis by (simp add: pend r(4) accounts_ok_def)
  qed
  ultimately show ?thesis
    by (intro task_phases [OF assms(1), where subs = "[]" and adds = "[]" and tc = "evt t"]) (simp_all add: r(4) pend)
qed

lemma push_phases:
  assumes "phases_inv P (s, ph)" "plat_ok P" "rt_ok rt" "caller_ok rt t cpu" "ph t = Holding J p" "job_room P s cpu J"
    and "process_push (as_task rt P) env envc J p s = ret s'"
  shows "phases_inv P (s', ph(t := if tc_blocking (job_context J) then Queued else Outside))"
proof -
  note I = assms(1) [unfolded phases_inv_def prod.case]
  let ?x = "if tc_blocking (job_context J) then Queued else Outside"
  note H = held_sums [of P s ph t ?x]
  have job: "job_ok (pf_mpi P) J" "tc_taskHandle (job_context J) = t" "p \<noteq> 0" "job_at s J p" and S: "sys_ok P s"
    and use: "in_use P s (tasks_sum held_p2p ph) (tasks_sum held_coll ph)"
    using I assms(5) by (auto simp: held_ok_def dest: spec [of _ t])
  have none: "held_p2p t ?x = {#}" "held_coll t ?x = {#}" by simp_all
  have P': "plat_ok (as_task rt P)" "sys_ok (as_task rt P) s" "caller_ok (pf_rt (as_task rt P)) t cpu" using assms(2-4) S by simp_all
  obtain s1 calls where a: "process_push (as_task rt P) env envc J p s = ret s1" and r1: "set calls \<subseteq> {alpi_cpu_logical_id}" "sy_log s1 = sy_log s @ calls" "sy_alloc s1 = sy_alloc s" "sy_ops s1 = sy_ops s"
    "sy_colls s1 = sy_colls s" "w_cq (sy_world s1) = w_cq (sy_world s)" "tm_ok (pf_mpi (as_task rt P)) (sy_tm s1)" "mq_ok (tm_p2pOperations (sy_tm s1))"
    "tm_capacityCtrl (sy_tm s1) = tm_capacityCtrl (sy_tm s)" "tm_pending (sy_tm s1) = tm_pending (sy_tm s)"
    "sys_flight s1 = sys_flight s" "sy_p2p s1 = sy_p2p s + held_p2p t (Holding J p)" "sy_coll (as_task rt P) s1 = sy_coll (as_task rt P) s + held_coll t (Holding J p)"
    by (rule process_push_ok [OF P', of J p env envc]) (use assms(6) job(3) in simp_all)
  have "s1 = s'" using a assms(7) by simp
  note r = r1 [unfolded this, simplified]
  have pend: "sys_pending P s' = sys_pending P s + {#job_context J#}"
    using job(4) by (cases J) (simp_all add: sys_pending_def sys_queued_def r)
  have use': "in_use P s' (tasks_sum held_p2p (ph(t := ?x))) (tasks_sum held_coll (ph(t := ?x)))"
  proof -
    have "tasks_sum held_p2p (ph(t := ?x)) + held_p2p t (Holding J p) = tasks_sum held_p2p ph"
      "tasks_sum held_coll (ph(t := ?x)) + held_coll t (Holding J p) = tasks_sum held_coll ph"
      using H I unfolding assms(5) none by auto
    then have "sy_p2p s' + tasks_sum held_p2p (ph(t := ?x)) = sy_p2p s + tasks_sum held_p2p ph"
      "sy_coll P s' + tasks_sum held_coll (ph(t := ?x)) = sy_coll P s + tasks_sum held_coll ph"
      unfolding r(12,13) by (metis add.assoc add.commute)+
    then show ?thesis using use unfolding in_use_def r(3) by metis
  qed
  have al: "alloc_ok (pf_B P) (al_operation (sy_alloc s')) (sy_p2p s')" "alloc_ok (pf_B P) (al_coll (sy_alloc s')) (sy_coll P s')"
    using use' alloc_ok_mono unfolding in_use_def by blast+
  have "sys_ok P s'"
    using S job(1,4) al r(7-10) unfolding sys_ok_def by (cases J) (auto simp: r(4,5,12,13))
  moreover have "held_ok P s' (ph(t := ?x))"
    by (rule held_ok_upd [of P s]) (use I use' r(4,5) in auto)
  moreover have "accounts_ok (sys_pending P s') (log_history (sy_log s')) t ?x"
  proof -
    have "accounts_ok (sys_pending P s) (log_history (sy_log s)) t (Holding J p)" using I assms(5) by metis
    then show ?thesis
      using job(2) by (cases "job_context J") (auto simp: pend r(2) log_history_cpu [OF r(1)] accounts_ok_def split: if_splits)
  qed
  ultimately show ?thesis
    by (intro task_phases [OF assms(1), where subs = "[]" and adds = "[job_context J]" and tc = "job_context J"])
      (simp_all add: r(2) log_history_cpu [OF r(1)] pend job(2))
qed

lemma call_counts:
  "count_list (log_history h) (Submit (blk t)) = count_list h (alpi_task_block t)"
  "count_list (log_history h) (Notify (blk t)) = count_list h (alpi_task_unblock t)"
proof (induction h)
  case (Cons c h)
  have none: "count_list (replicate n x) y = 0" if "x \<noteq> y" for n and x y :: notification
    using that by (induction n) auto
  { case 1 with Cons show ?case by (cases c) (simp_all add: none) }
  { case 2 with Cons show ?case by (cases c) (simp_all add: none) }
qed simp_all

lemma wait_phases:
  assumes "phases_inv P (s, ph)" "rt_ok rt" "ph t = Queued" "process_wait (as_task rt P) (blk t) s = Inr s'"
  shows "phases_inv P (s', ph(t := Paused))"
proof -
  note I = assms(1) [unfolded phases_inv_def prod.case]
  have s': "s' = set_log (sy_log s @ [alpi_task_block t]) s"
    using process_wait_ok [of "as_task rt P" t s] assms(2,4) by simp
  have "held_ok P s' (ph(t := Paused))"
    by (rule held_ok_upd [of P s])
      (use I held_sums [of P s ph t Paused] assms(3) in \<open>auto simp: s' held_ok_def\<close>)
  moreover have "accounts_ok (sys_pending P s') (log_history (sy_log s')) t Paused"
  proof -
    have "accounts_ok (sys_pending P s) (log_history (sy_log s)) t Queued" using I assms(3) by metis
    then show ?thesis by (simp add: s' accounts_ok_def)
  qed
  ultimately show ?thesis
    using I by (intro task_phases [OF assms(1), where subs = "[blk t]" and adds = "[]" and tc = "blk t"]) (simp_all add: s')
qed

lemma resume_phases:
  assumes "phases_inv P (s, ph)" "ph t = Paused" "blocks s t \<le> unblocks s t"
  shows "phases_inv P (s, ph(t := Outside))"
proof -
  note I = assms(1) [unfolded phases_inv_def prod.case]
  have "held_ok P s (ph(t := Outside))"
    by (rule held_ok_upd [of P s])
      (use I held_sums [of P s ph t Outside] assms(2) in \<open>auto simp: held_ok_def\<close>)
  moreover have "accounts_ok (sys_pending P s) (log_history (sy_log s)) t Outside"
  proof -
    have "accounts_ok (sys_pending P s) (log_history (sy_log s)) t Paused" using I assms(2) by metis
    then show ?thesis using assms(3) by (simp add: accounts_ok_def call_counts blocks_def unblocks_def)
  qed
  ultimately show ?thesis
    using I by (intro task_phases [OF assms(1), where subs = "[]" and adds = "[]" and tc = "blk t"]) simp_all
qed

lemma task_step_inv: "task_step P S S' \<Longrightarrow> plat_ok P \<Longrightarrow> phases_inv P S \<Longrightarrow> phases_inv P S'"
  by (erule task_step.cases; hypsubst; (rule alloc_phases push_phases wait_phases resume_phases; assumption))

lemma polling_phases:
  assumes "plat_ok P" "phases_inv P (s, ph)" "sys_room P s" "polling P now s ctrl = ret (period, s', ctrl', wn)"
  shows "phases_inv P (s', ph)"
  using notifies_phases [OF assms(2), of s'] polling_notifies [OF assms(1) _ assms(3,4)] assms(2) by (simp add: phases_inv_def)

lemma completions_phases:
  assumes "plat_ok P" "phases_inv P (s, ph)" "pf_cm P" "completions P s ctrl = Inr (period, s', ctrl')"
  shows "phases_inv P (s', ph)"
  using notifies_phases [OF assms(2), of s'] completions_notifies [OF assms(1) _ assms(3,4)] assms(2) by (simp add: phases_inv_def)

lemma phases_start:
  assumes "sys_ok P s" "sys_pending P s = {#}" "log_history (sy_log s) = []"
  shows "phases_inv P (s, \<lambda>_. Outside)"
  using assms by (simp add: phases_inv_def held_ok_def in_use_def sys_ok_def accounts_ok_def alpi_order_def tasks_sum_def)

interpretation phases: preserved "\<lambda>(s, ph). plat_ok P \<and> sys_start P s \<and> ph = (\<lambda>_. Outside)" "phase_step P" "\<lambda>S. plat_ok P \<and> phases_inv P S" for P
proof
  show "plat_ok P \<and> phases_inv P S" if "case S of (s, ph) \<Rightarrow> plat_ok P \<and> sys_start P s \<and> ph = (\<lambda>_. Outside)" for S
    using that by (auto simp: sys_start_def intro!: phases_start)
  show "plat_ok P \<and> phases_inv P S'" if "plat_ok P \<and> phases_inv P S" "phase_step P S S'" for S S'
    using that(2,1)
    by (cases rule: phase_step.cases)
      (auto intro: enter_phases task_step_inv polling_phases completions_phases simp del: fun_upd_apply)
qed

end
