(* ===== verification/Process_Interleaving.thy ===== *)
theory Process_Interleaving
  imports Library_Runs Interleaving
begin

text \<open>
  A process at the grain of the phases: after the initialization, tasks are inside calls of the interface at any phase while
  other tasks, the polling tasks, native calls and changes of properties run.
\<close>

section \<open>The job of a call\<close>

text \<open>The operation that each function of src/src/c constructs from its arguments.\<close>

fun call_job :: "'m mpi \<Rightarrow> OpNature \<Rightarrow> ncall \<Rightarrow> task \<Rightarrow> job option" where
  "call_job mpi nature (Native_Bsend buf cnt dtype dest tag comm) t =
     Some (Job_p2p (Operation_new t BSEND nature buf cnt dtype dest tag comm (MPI_STATUS_IGNORE mpi)))"
| "call_job mpi nature (Native_Recv buf cnt dtype source tag comm status) t =
     Some (Job_p2p (Operation_new t RECV nature buf cnt dtype source tag comm status))"
| "call_job mpi nature (Native_Rsend buf cnt dtype dest tag comm) t =
     Some (Job_p2p (Operation_new t RSEND nature buf cnt dtype dest tag comm (MPI_STATUS_IGNORE mpi)))"
| "call_job mpi nature (Native_Send buf cnt dtype dest tag comm) t =
     Some (Job_p2p (Operation_new t SEND nature buf cnt dtype dest tag comm (MPI_STATUS_IGNORE mpi)))"
| "call_job mpi nature (Native_Ssend buf cnt dtype dest tag comm) t =
     Some (Job_p2p (Operation_new t SSEND nature buf cnt dtype dest tag comm (MPI_STATUS_IGNORE mpi)))"
| "call_job mpi nature (Native_Allgather sendbuf sendcount sendtype recvbuf recvcount recvtype comm) t =
     Some (Job_coll (CollOperation_cc t ALLGATHER nature comm sendbuf sendcount sendtype recvbuf recvcount recvtype (MPI_OP_NULL mpi) 0))"
| "call_job mpi nature (Native_Allgatherv sendbuf sendcount sendtype recvbuf recvcounts displs recvtype comm) t =
     Some (Job_coll (CollOperation_cv t ALLGATHERV nature comm sendbuf sendcount sendtype recvbuf recvcounts displs recvtype (MPI_OP_NULL mpi) 0))"
| "call_job mpi nature (Native_Allreduce sendbuf recvbuf cnt dtype oper comm) t =
     Some (Job_coll (CollOperation_cc t ALLREDUCE nature comm sendbuf cnt dtype recvbuf cnt dtype oper 0))"
| "call_job mpi nature (Native_Alltoall sendbuf sendcount sendtype recvbuf recvcount recvtype comm) t =
     Some (Job_coll (CollOperation_cc t ALLTOALL nature comm sendbuf sendcount sendtype recvbuf recvcount recvtype (MPI_OP_NULL mpi) 0))"
| "call_job mpi nature (Native_Alltoallv sendbuf sendcounts sdispls sendtype recvbuf recvcounts rdispls recvtype comm) t =
     Some (Job_coll (CollOperation_vv t ALLTOALLV nature comm sendbuf sendcounts sdispls sendtype recvbuf recvcounts rdispls recvtype (MPI_OP_NULL mpi) 0))"
| "call_job mpi nature (Native_Alltoallw sendbuf sendcounts sdispls sendtypes recvbuf recvcounts rdispls recvtypes comm) t =
     Some (Job_coll (CollOperation_ww t ALLTOALLW nature comm sendbuf sendcounts sdispls sendtypes recvbuf recvcounts rdispls recvtypes (MPI_OP_NULL mpi) 0))"
| "call_job mpi nature (Native_Barrier comm) t =
     Some (Job_coll (CollOperation_cc t BARRIER nature comm 0 0 (MPI_DATATYPE_NULL mpi) 0 0 (MPI_DATATYPE_NULL mpi) (MPI_OP_NULL mpi) 0))"
| "call_job mpi nature (Native_Bcast buffer cnt dtype rk comm) t =
     Some (Job_coll (CollOperation_cc t BCAST nature comm 0 0 (MPI_DATATYPE_NULL mpi) buffer cnt dtype (MPI_OP_NULL mpi) rk))"
| "call_job mpi nature (Native_Exscan sendbuf recvbuf cnt dtype oper comm) t =
     Some (Job_coll (CollOperation_cc t EXSCAN nature comm sendbuf cnt dtype recvbuf 0 (MPI_DATATYPE_NULL mpi) oper 0))"
| "call_job mpi nature (Native_Gather sendbuf sendcount sendtype recvbuf recvcount recvtype rk comm) t =
     Some (Job_coll (CollOperation_cc t GATHER nature comm sendbuf sendcount sendtype recvbuf recvcount recvtype (MPI_OP_NULL mpi) rk))"
| "call_job mpi nature (Native_Gatherv sendbuf sendcount sendtype recvbuf recvcounts displs recvtype rk comm) t =
     Some (Job_coll (CollOperation_cv t GATHERV nature comm sendbuf sendcount sendtype recvbuf recvcounts displs recvtype (MPI_OP_NULL mpi) rk))"
| "call_job mpi nature (Native_Reduce sendbuf recvbuf cnt dtype oper rk comm) t =
     Some (Job_coll (CollOperation_cc t REDUCE nature comm sendbuf cnt dtype recvbuf cnt dtype oper rk))"
| "call_job mpi nature (Native_Reduce_scatter sendbuf recvbuf recvcounts dtype oper comm) t =
     Some (Job_coll (CollOperation_cv t REDUCESCATTER nature comm sendbuf 0 dtype recvbuf recvcounts 0 (MPI_DATATYPE_NULL mpi) oper 0))"
| "call_job mpi nature (Native_Reduce_scatter_block sendbuf recvbuf recvcount dtype oper comm) t =
     Some (Job_coll (CollOperation_cc t REDUCESCATTERBLOCK nature comm sendbuf 0 dtype recvbuf recvcount (MPI_DATATYPE_NULL mpi) oper 0))"
| "call_job mpi nature (Native_Scan sendbuf recvbuf cnt dtype oper comm) t =
     Some (Job_coll (CollOperation_cc t SCAN nature comm sendbuf cnt dtype recvbuf 0 (MPI_DATATYPE_NULL mpi) oper 0))"
| "call_job mpi nature (Native_Scatter sendbuf sendcount sendtype recvbuf recvcount recvtype rk comm) t =
     Some (Job_coll (CollOperation_cc t SCATTER nature comm sendbuf sendcount sendtype recvbuf recvcount recvtype (MPI_OP_NULL mpi) rk))"
| "call_job mpi nature (Native_Scatterv sendbuf sendcounts displs sendtype recvbuf recvcount recvtype rk comm) t =
     Some (Job_coll (CollOperation_vc t SCATTERV nature comm sendbuf sendcounts displs sendtype recvbuf recvcount recvtype (MPI_OP_NULL mpi) rk))"
| "call_job mpi nature (Native_Wait _ _) t = None"
| "call_job mpi nature (Native_Waitall _ _ _) t = None"

lemma call_job_ok:
  assumes "call_job mpi nature call t = Some J" "status_given mpi call" "t \<noteq> 0"
  shows "job_ok mpi J" "job_context J = \<lparr>tc_blocking = (nature = BLK), tc_taskHandle = t\<rparr>"
  using assms by (cases call; auto simp: op_ok_def coll_ok_def op_context_def coll_context_def operation_facts)+

text \<open>With its mode enabled, every function is the phases of its job, one after the other.\<close>

definition job_function :: "('m, 'q, 'c) caller \<Rightarrow> OpNature \<Rightarrow> (task \<Rightarrow> job) \<Rightarrow> ('m, 'q, 'c) lib \<Rightarrow> (int \<times> ('m, 'q, 'c) lib) run" where
  "job_function cx nature mk L =
     run_bind (process_job (cx_P cx) (cx_env cx) (cx_envc cx) nature mk (li_sys L)) (\<lambda>s. ret (MPI_SUCCESS, L\<lparr>li_sys := s\<rparr>))"

lemma job_functions:
  "process_Operation cx nature mk = job_function cx nature (\<lambda>t. Job_p2p (mk t))"
  "process_CollOperation cx nature mk' = job_function cx nature (\<lambda>t. Job_coll (mk' t))"
  by (simp_all add: fun_eq_iff process_Operation_def process_CollOperation_def job_function_def process_job_p2p process_job_coll)

lemma blocking_call_phases:
  assumes "icall_of call \<noteq> None" "isBlockingEnabledForCurrentThread (cx_thread cx) (li_state L)"
  shows "blocking_call cx call L = job_function cx BLK (\<lambda>t. the (call_job (cx_mpi cx) BLK call t)) L"
  using assms(1) by (cases call; simp add: api_defs assms(2) job_functions)

lemma nonblocking_call_phases:
  assumes "icall_of call \<noteq> None" "isNonBlockingEnabled (li_state L)"
  shows "nonblocking_call cx call L = job_function cx NONBLK (\<lambda>t. the (call_job (cx_mpi cx) NONBLK call t)) L"
  using assms(1) by (cases call; simp add: api_defs assms(2) job_functions)

section \<open>Runs\<close>

inductive proc_step ::
    "('m, 'q, 'c) platform \<Rightarrow> 'q config \<Rightarrow> ('m, 'q, 'c) lib \<times> (task \<Rightarrow> phase) \<Rightarrow> ('m, 'q, 'c) lib \<times> (task \<Rightarrow> phase) \<Rightarrow> bool"
  for P :: "('m, 'q, 'c) platform" and cf :: "'q config" where
  enter_blocking: "rt_ok rt \<Longrightarrow> caller_ok rt t cpu \<Longrightarrow> ph t = Outside \<Longrightarrow> isBlockingEnabledForCurrentThread tid (li_state L) \<Longrightarrow>
    status_given (pf_mpi P) call \<Longrightarrow> call_job (pf_mpi P) BLK call t = Some J \<Longrightarrow>
    process_bind (as_task rt P) BLK (li_sys L) = Inr (tc, s') \<Longrightarrow> proc_step P cf (L, ph) (L\<lparr>li_sys := s'\<rparr>, ph(t := Bound J))"
| enter_nonblocking: "rt_ok rt \<Longrightarrow> caller_ok rt t cpu \<Longrightarrow> ph t = Outside \<Longrightarrow> isNonBlockingEnabled (li_state L) \<Longrightarrow>
    status_given (pf_mpi P) call \<Longrightarrow> call_job (pf_mpi P) NONBLK call t = Some J \<Longrightarrow>
    process_bind (as_task rt P) NONBLK (li_sys L) = Inr (tc, s') \<Longrightarrow> proc_step P cf (L, ph) (L\<lparr>li_sys := s'\<rparr>, ph(t := Bound J))"
| continue: "task_step P (li_sys L, ph) (s', ph') \<Longrightarrow> proc_step P cf (L, ph) (L\<lparr>li_sys := s'\<rparr>, ph')"
| native_call: "\<not> isBlockingEnabledForCurrentThread (cx_thread cx) (li_state L) \<Longrightarrow>
    blocking_call cx call L = ret (err, L') \<Longrightarrow> proc_step P cf (L, ph) (L', ph)"
| poll: "sys_room P (li_sys L) \<Longrightarrow>
    polling P now (li_sys L) (po_periodCtrl (li_polling L)) = ret (period, s', ctrl', wn) \<Longrightarrow>
    proc_step P cf (L, ph) (L\<lparr>li_sys := s', li_polling := (li_polling L)\<lparr>po_periodCtrl := ctrl'\<rparr>\<rparr>, ph)"
| complete: "pf_cm P \<Longrightarrow>
    completions P (li_sys L) (po_completionPeriodCtrl (li_polling L)) = Inr (period, s', ctrl') \<Longrightarrow>
    proc_step P cf (L, ph) (L\<lparr>li_sys := s', li_polling := (li_polling L)\<lparr>po_completionPeriodCtrl := ctrl'\<rparr>\<rparr>, ph)"
| property: "TAMPI_Property_set cf tid p v L = (err, L') \<Longrightarrow> proc_step P cf (L, ph) (L', ph)"

definition proc_start :: "('m, 'q, 'c) platform \<Rightarrow> 'q config \<Rightarrow> 'm native \<Rightarrow> ('m, 'q, 'c) lib \<times> (task \<Rightarrow> phase) \<Rightarrow> bool" where
  "proc_start P cf nt S \<longleftrightarrow> (case S of (L, ph) \<Rightarrow> booted P cf nt L \<and> ph = (\<lambda>_. Outside))"

abbreviation proc_run :: "('m, 'q, 'c) platform \<Rightarrow> 'q config \<Rightarrow> 'm native \<Rightarrow> ('m, 'q, 'c) lib \<times> (task \<Rightarrow> phase) \<Rightarrow> bool" where
  "proc_run P cf nt \<equiv> reachable (proc_start P cf nt) (proc_step P cf)"

abbreviation proc_inv :: "('m, 'q, 'c) platform \<Rightarrow> ('m, 'q, 'c) lib \<times> (task \<Rightarrow> phase) \<Rightarrow> bool" where
  "proc_inv P S \<equiv> phases_inv P (li_sys (fst S), snd S)"

lemma enter_job:
  assumes "phases_inv P (s, ph)" "rt_ok rt" "caller_ok rt t cpu" "ph t = Outside" "status_given (pf_mpi P) call"
    and "call_job (pf_mpi P) nature call t = Some J" "process_bind (as_task rt P) nature s = Inr (tc, s')"
  shows "phases_inv P (s', ph(t := Bound J))"
proof -
  have "t \<noteq> 0" using assms(3) by (simp add: caller_ok_def)
  note J = call_job_ok [OF assms(6,5) this]
  have "tc = job_context J" using process_bind_ok [of "as_task rt P" t cpu nature s] assms(2,3,7) J(2) by simp
  then show ?thesis using enter_phases [OF assms(1-4) J(1), of nature s'] assms(7) by simp
qed

text \<open>What changes neither the queues nor the log keeps the invariant.\<close>

lemma phases_inv_same:
  assumes "phases_inv P (s, ph)" "sy_tm s' = sy_tm s" "sy_alloc s' = sy_alloc s" "sy_ops s' = sy_ops s" "sy_colls s' = sy_colls s"
    and "sy_log s' = sy_log s" "w_cq (sy_world s') = w_cq (sy_world s)"
  shows "phases_inv P (s', ph)"
proof (rule notifies_phases [OF assms(1)])
  show "sys_ok P s'" using assms by (simp add: phases_inv_def sys_ok_def)
  show "notifies P s s'"
    using assms(2-7) unfolding notifies_def by (intro exI [of _ "[]"]) (simp add: sys_pending_def sys_queued_def sys_flight_def)
  show "keeps_held P s s'" using assms(2-5) by (simp add: keeps_held_def)
qed

lemma proc_step_inv:
  assumes "proc_step P cf S S'" "plat_ok P" "proc_inv P S"
  shows "proc_inv P S'"
  using assms(1)
proof cases
  case (enter_blocking rt t cpu ph tid L call J tc s')
  then show ?thesis using enter_job [of P "li_sys L" ph rt t cpu call BLK J tc s'] assms(3) by simp
next
  case (enter_nonblocking rt t cpu ph L call J tc s')
  then show ?thesis using enter_job [of P "li_sys L" ph rt t cpu call NONBLK J tc s'] assms(3) by simp
next
  case (continue L ph s' ph')
  then show ?thesis using task_step_inv [OF continue(3) assms(2)] assms(3) by simp
next
  case (native_call cx L call err L' ph)
  then obtain m where "L' = set_mpi m L" using native_only_mpi by blast
  then show ?thesis using assms(3) native_call(1,2) by (auto simp: set_mpi_def elim!: phases_inv_same)
next
  case (poll L now period s' ctrl' wn ph)
  then show ?thesis using polling_phases [OF assms(2) _ poll(3,4)] assms(3) by simp
next
  case (complete L period s' ctrl' ph)
  then show ?thesis using completions_phases [OF assms(2) _ complete(3,4)] assms(3) by simp
next
  case (property tid p v L err L' ph)
  then obtain aw auto where "L' = L\<lparr>li_state := (li_state L)\<lparr>es_threadTaskAwareness := aw, es_autoInitialize := auto\<rparr>\<rparr>"
    using TAMPI_Property_set_state by blast
  then show ?thesis using assms(3) property(1,2) by simp
qed

interpretation procs: preserved "\<lambda>S. plat_ok P \<and> config_ok P cf \<and> proc_start P cf nt S" "proc_step P cf" "\<lambda>S. plat_ok P \<and> proc_inv P S" for P cf nt
proof
  show "plat_ok P \<and> proc_inv P S" if "plat_ok P \<and> config_ok P cf \<and> proc_start P cf nt S" for S
  proof -
    note start = that
    obtain L where L: "S = (L, \<lambda>_. Outside)" "booted P cf nt L" using start by (auto simp: proc_start_def)
    have "sys_ok P (li_sys L)" "notifier_start (lib_abs P L)"
      using processes.start_inv [of P cf nt L] processes.refine_start [of P cf nt L] that L(2) by blast+
    then show ?thesis using that phases_start [of P "li_sys L"] L(1) by (simp add: sys_abs_def)
  qed
  show "plat_ok P \<and> proc_inv P S'" if "plat_ok P \<and> proc_inv P S" "proc_step P cf S S'" for S S'
    using proc_step_inv [OF that(2)] that(1) by blast
qed

lemma proc_run_inv:
  assumes "plat_ok P" "config_ok P cf" "proc_run P cf nt (L, ph)"
  shows "phases_inv P (li_sys L, ph)"
  using procs.reachable_inv [of P cf nt "(L, ph)"] assms by simp

section \<open>Progress\<close>

text \<open>
  When MPI completes what it is asked for, a run of the polling task and one of the completion task leave nothing pending; then every
  paused task can resume.
\<close>

lemma proc_empties:
  assumes "plat_ok P" "sys_ok P (li_sys L)" "sys_room P (li_sys L)" "mpi_eager (pf_mpi P)"
    and "0 < cc_get (tm_capacityCtrl (sy_tm (li_sys L)))"
    and "period_ok (po_periodCtrl (li_polling L))" "period_ok (po_completionPeriodCtrl (li_polling L))"
  obtains L' where "(proc_step P cf)\<^sup>*\<^sup>* (L, ph) (L', ph)" "sys_pending P (li_sys L') = {#}"
proof -
  obtain period s1 ctrl wn where p: "polling P 0 (li_sys L) (po_periodCtrl (li_polling L)) = ret (period, s1, ctrl, wn)"
    "sys_queued P s1 = {#}" "sys_flight s1 = {#}"
    by (rule polling_drains [OF assms(1-6)])
  let ?L1 = "L\<lparr>li_sys := s1, li_polling := (li_polling L)\<lparr>po_periodCtrl := ctrl\<rparr>\<rparr>"
  have s1: "proc_step P cf (L, ph) (?L1, ph)" by (rule proc_step.poll [OF assms(3) p(1)])
  show thesis
  proof (cases "pf_cm P")
    case False
    with s1 p show thesis by (intro that [of ?L1]) (auto simp: sys_pending_def)
  next
    case True
    obtain period' s2 ctrl2 where c: "completions P s1 (po_completionPeriodCtrl (li_polling L)) = Inr (period', s2, ctrl2)"
      "sys_queued P s2 = sys_queued P s1" "sys_flight s2 = sys_flight s1" "spsc_contents (pf_C P) (w_cq (sy_world s2)) = []"
      by (rule completions_empties [OF assms(1,7)])
    let ?L2 = "?L1\<lparr>li_sys := s2, li_polling := (li_polling ?L1)\<lparr>po_completionPeriodCtrl := ctrl2\<rparr>\<rparr>"
    have "proc_step P cf (?L1, ph) (?L2, ph)" by (rule proc_step.complete [OF True]) (use c(1) in simp)
    with s1 have "(proc_step P cf)\<^sup>*\<^sup>* (L, ph) (?L2, ph)" by (rule converse_rtranclp_into_rtranclp [OF _ r_into_rtranclp])
    then show thesis by (rule that) (simp add: sys_pending_def p c(2-4))
  qed
qed

lemma resume_all:
  assumes "finite A" "\<forall>t \<in> A. ph t = Paused \<and> blocks (li_sys L) t \<le> unblocks (li_sys L) t"
  shows "(proc_step P cf)\<^sup>*\<^sup>* (L, ph) (L, \<lambda>t. if t \<in> A then Outside else ph t)"
  using assms
proof (induction A)
  case (insert t A)
  let ?ph = "\<lambda>t. if t \<in> A then Outside else ph t"
  have "(\<lambda>u. if u \<in> insert t A then Outside else ph u) = ?ph(t := Outside)" by auto
  moreover have "task_step P (li_sys L, ?ph) (li_sys L, ?ph(t := Outside))"
    by (rule task_step.resume) (use insert.prems insert.hyps in auto)
  then have "proc_step P cf (L, ?ph) (L, ?ph(t := Outside))" using proc_step.continue [of P L ?ph] by fastforce
  ultimately show ?case using insert by (auto intro: rtranclp.rtrancl_into_rtrancl)
qed simp

lemma accounts_settled:
  assumes "phases_inv P (s, ph)" "blk t \<notin># sys_pending P s" "ph t = Paused"
  shows "blocks s t \<le> unblocks s t"
proof -
  have "accounts_ok (sys_pending P s) (log_history (sy_log s)) t Paused" using assms(1,3) unfolding phases_inv_def prod.case by metis
  then show ?thesis using assms(2) by (simp add: accounts_ok_def call_counts blocks_def unblocks_def not_in_iff)
qed

lemma proc_drains:
  assumes "plat_ok P" "proc_inv P (L, ph)" "sys_room P (li_sys L)" "mpi_eager (pf_mpi P)"
    and "0 < cc_get (tm_capacityCtrl (sy_tm (li_sys L)))"
    and "period_ok (po_periodCtrl (li_polling L))" "period_ok (po_completionPeriodCtrl (li_polling L))"
  obtains L' where "(proc_step P cf)\<^sup>*\<^sup>* (L, ph) (L', \<lambda>t. if ph t = Paused then Outside else ph t)" "sys_pending P (li_sys L') = {#}"
proof -
  have ok: "sys_ok P (li_sys L)" "finite {t. ph t \<noteq> Outside}" using assms(2) by (auto simp: phases_inv_def held_ok_def)
  obtain L' where L': "(proc_step P cf)\<^sup>*\<^sup>* (L, ph) (L', ph)" "sys_pending P (li_sys L') = {#}"
    by (rule proc_empties [OF assms(1) ok(1) assms(3-7)])
  have inv: "proc_inv P (L', ph)"
    using L'(1) assms(2) by (induction rule: rtranclp_induct) (auto intro: proc_step_inv [OF _ assms(1)])
  have "finite {t. ph t = Paused}" by (rule finite_subset [OF _ ok(2)]) auto
  then have "(proc_step P cf)\<^sup>*\<^sup>* (L', ph) (L', \<lambda>t. if t \<in> {t. ph t = Paused} then Outside else ph t)"
    by (rule resume_all) (use accounts_settled [of P "li_sys L'" ph] inv L'(2) in auto)
  with L' show thesis by (intro that [of L']) (auto intro: rtranclp_trans)
qed

text \<open>A blocking call of a task goes through its phases up to the pause when there is an object and room for its operation.\<close>

lemma blocking_call_queues:
  assumes P: "plat_ok P" and inv: "proc_inv P (L, ph)" and rt: "rt_ok rt" "caller_ok rt t cpu" and out: "ph t = Outside"
    and en: "isBlockingEnabledForCurrentThread tid (li_state L)" and st: "status_given (pf_mpi P) call"
    and J: "call_job (pf_mpi P) BLK call t = Some J" and al: "job_can_alloc P (li_sys L) cpu J" and room: "job_room P (li_sys L) cpu J"
  obtains s' calls where "(proc_step P cf)\<^sup>*\<^sup>* (L, ph) (L\<lparr>li_sys := s'\<rparr>, ph(t := Queued))"
    "set calls \<subseteq> {alpi_cpu_logical_id}" "sy_log s' = sy_log (li_sys L) @ [alpi_task_self] @ calls"
    "w_cq (sy_world s') = w_cq (sy_world (li_sys L))" "tm_capacityCtrl (sy_tm s') = tm_capacityCtrl (sy_tm (li_sys L))"
    "sys_flight s' = sys_flight (li_sys L)" "size (sys_queued P s') = size (sys_queued P (li_sys L)) + 1"
proof -
  let ?T = "as_task rt P"
  have T: "plat_ok ?T" "rt_ok (pf_rt ?T)" "caller_ok (pf_rt ?T) t cpu" "t \<noteq> 0" using P rt by (simp_all add: caller_ok_def)
  note ctx = call_job_ok(2) [OF J st T(4)]
  define s1 where "s1 = set_log (sy_log (li_sys L) @ [alpi_task_self]) (li_sys L)"
  have b: "process_bind ?T BLK (li_sys L) = Inr (blk t, s1)" using process_bind_ok [OF T(2,3)] by (simp add: s1_def)
  have "proc_step P cf (L, ph) (L\<lparr>li_sys := s1\<rparr>, ph(t := Bound J))" by (rule proc_step.enter_blocking [where ph = ph, OF rt out en st J b])
  note S1 = this proc_step_inv [OF this P inv]
  have use: "in_use P s1 (tasks_sum held_p2p (ph(t := Bound J))) (tasks_sum held_coll (ph(t := Bound J)))"
    using S1(2) by (simp add: phases_inv_def held_ok_def)
  have can: "job_can_alloc P s1 cpu J" using al by (cases J) (simp_all add: s1_def)
  obtain p s2 where a: "process_alloc ?T J s1 = Inr (p, s2)" "p \<noteq> 0" "sy_tm s2 = sy_tm s1"
    "sy_log s2 = sy_log s1 @ [alpi_cpu_logical_id]" "w_cq (sy_world s2) = w_cq (sy_world s1)"
    by (rule process_alloc_ok [OF T(1,3), of s1 J "tasks_sum held_p2p (ph(t := Bound J))" "tasks_sum held_coll (ph(t := Bound J))"])
      (use can use in simp_all)
  have "task_step P (s1, ph(t := Bound J)) (s2, (ph(t := Bound J))(t := Holding J p))"
    by (rule task_step.alloc [where ph = "ph(t := Bound J)", OF rt _ can a(1)]) simp
  then have "proc_step P cf (L\<lparr>li_sys := s1\<rparr>, ph(t := Bound J)) (L\<lparr>li_sys := s2\<rparr>, ph(t := Holding J p))"
    using proc_step.continue [of P "L\<lparr>li_sys := s1\<rparr>"] by simp
  note S2 = this proc_step_inv [OF this P S1(2)]
  have ok: "sys_ok ?T s2" "job_room P s2 cpu J" using S2(2) room a(3) by (cases J; simp add: phases_inv_def s1_def)+
  obtain s3 calls where q: "process_push ?T (\<lambda>_ q. q) (\<lambda>_ q. q) J p s2 = ret s3" "set calls \<subseteq> {alpi_cpu_logical_id}"
    "sy_log s3 = sy_log s2 @ calls" "w_cq (sy_world s3) = w_cq (sy_world s2)" "tm_capacityCtrl (sy_tm s3) = tm_capacityCtrl (sy_tm s2)"
    "sys_flight s3 = sys_flight s2" "sy_p2p s3 = sy_p2p s2 + held_p2p t (Holding J p)"
    "sy_coll ?T s3 = sy_coll ?T s2 + held_coll t (Holding J p)"
    by (rule process_push_ok [OF T(1) ok(1) T(3) _ a(2)]) (use ok(2) in simp)
  have "task_step P (s2, ph(t := Holding J p)) (s3, (ph(t := Holding J p))(t := if tc_blocking (job_context J) then Queued else Outside))"
    by (rule task_step.push [where ph = "ph(t := Holding J p)", OF rt _ ok(2) q(1)]) simp
  then have "proc_step P cf (L\<lparr>li_sys := s2\<rparr>, ph(t := Holding J p)) (L\<lparr>li_sys := s3\<rparr>, ph(t := Queued))"
    using proc_step.continue [of P "L\<lparr>li_sys := s2\<rparr>"] ctx by simp
  with S1(1) S2(1) have "(proc_step P cf)\<^sup>*\<^sup>* (L, ph) (L\<lparr>li_sys := s3\<rparr>, ph(t := Queued))"
    by (meson converse_rtranclp_into_rtranclp rtranclp.rtrancl_refl)
  moreover have "size (sys_queued P s3) = size (sys_queued P (li_sys L)) + 1"
    using q(7,8) a(3) by (cases J) (simp_all add: size_sys_queued s1_def)
  ultimately show thesis
    using q(2-6) a(3-5) by (intro that [of s3 "alpi_cpu_logical_id # calls"]) (simp_all add: s1_def sys_flight_def)
qed

section \<open>A sample process\<close>

text \<open>Task 7 has queued a collective operation and has not paused yet.\<close>

lemma sample_queued:
  obtains L where "proc_run sample_boot sample_config sample_native (L, (\<lambda>_. Outside)(7 := Queued))"
    "blocks (li_sys L) 7 = 0" "unblocks (li_sys L) 7 = 0" "sys_room sample_boot (li_sys L)" "sys_queued sample_boot (li_sys L) \<noteq> {#}"
    "cc_get (tm_capacityCtrl (sy_tm (li_sys L))) = 128"
    "po_periodCtrl (li_polling L) = sample_period" "po_completionPeriodCtrl (li_polling L) = sample_period"
proof -
  let ?P = "sample_boot" and ?call = "Native_Alltoallv 64 128 192 1 256 320 384 1 0"
  obtain L where L: "booted ?P sample_config sample_native L" "isBlockingEnabledForCurrentThread 3 (li_state L)" "can_call sample_task 7 0 L"
    "w_cq (sy_world (li_sys L)) = []" "cc_get (tm_capacityCtrl (sy_tm (li_sys L))) = 128"
    "po_periodCtrl (li_polling L) = sample_period" "po_completionPeriodCtrl (li_polling L) = sample_period"
    by (rule sample_booted)
  obtain J where J: "call_job (pf_mpi ?P) BLK ?call 7 = Some (Job_coll J)" by simp
  have start: "notifier_start (lib_abs ?P L)"
    using processes.refine_start [of ?P sample_config sample_native L] sample_boot_ok sample_config_ok(1) L(1) by blast
  have zero: "log_history (sy_log (li_sys L)) = []" "sys_queued ?P (li_sys L) = {#}" "sys_flight (li_sys L) = {#}"
    using start by (auto simp: sys_abs_def sys_pending_def)
  have r: "proc_run ?P sample_config sample_native (L, \<lambda>_. Outside)"
    by (rule reach_start [of "proc_start ?P sample_config sample_native"]) (simp add: proc_start_def L(1))
  have inv: "proc_inv ?P (L, \<lambda>_. Outside)" using proc_run_inv [OF sample_boot_ok sample_config_ok(1) r] by simp
  have can: "job_can_alloc ?P (li_sys L) 0 (Job_coll J)" "job_room ?P (li_sys L) 0 (Job_coll J)"
    using L(3) by (simp_all add: can_call_def sample_task_def Let_def)
  obtain s' calls where q: "(proc_step ?P sample_config)\<^sup>*\<^sup>* (L, \<lambda>_. Outside) (L\<lparr>li_sys := s'\<rparr>, (\<lambda>_. Outside)(7 := Queued))"
    "set calls \<subseteq> {alpi_cpu_logical_id}" "sy_log s' = sy_log (li_sys L) @ [alpi_task_self] @ calls"
    "w_cq (sy_world s') = w_cq (sy_world (li_sys L))" "tm_capacityCtrl (sy_tm s') = tm_capacityCtrl (sy_tm (li_sys L))"
    "sys_flight s' = sys_flight (li_sys L)" "size (sys_queued ?P s') = size (sys_queued ?P (li_sys L)) + 1"
    by (rule blocking_call_queues [where ph = "\<lambda>_. Outside", OF sample_boot_ok inv sample_task_rt_ok refl L(2) _ J can]) simp_all
  have "log_history (sy_log s') = []" using zero(1) log_history_cpu [OF q(2)] by (simp add: q(3))
  then have "blocks s' 7 = 0" "unblocks s' 7 = 0" unfolding blocks_def unblocks_def call_counts [symmetric] by simp_all
  moreover have "sys_room ?P s'"
    using q(4,6,7) zero(2,3) L(4) by (simp add: sys_room_def cq_room_def) (simp add: sample_boot_def list_spsc_def)
  moreover have "sys_queued ?P s' \<noteq> {#}" using q(7) by auto
  ultimately show thesis
    using reachable_steps [OF q(1) r] L(5-7) q(5) by (intro that [of "L\<lparr>li_sys := s'\<rparr>"]) simp_all
qed

text \<open>The task has paused, and its operation is still queued.\<close>

lemma sample_paused:
  obtains L where "proc_run sample_boot sample_config sample_native (L, (\<lambda>_. Outside)(7 := Paused))"
    "blocks (li_sys L) 7 = 1" "unblocks (li_sys L) 7 = 0" "sys_room sample_boot (li_sys L)"
    "cc_get (tm_capacityCtrl (sy_tm (li_sys L))) = 128"
    "po_periodCtrl (li_polling L) = sample_period" "po_completionPeriodCtrl (li_polling L) = sample_period"
proof -
  obtain L where L: "proc_run sample_boot sample_config sample_native (L, (\<lambda>_. Outside)(7 := Queued))"
    "blocks (li_sys L) 7 = 0" "unblocks (li_sys L) 7 = 0" "sys_room sample_boot (li_sys L)"
    "cc_get (tm_capacityCtrl (sy_tm (li_sys L))) = 128"
    "po_periodCtrl (li_polling L) = sample_period" "po_completionPeriodCtrl (li_polling L) = sample_period"
    by (rule sample_queued)
  let ?s = "set_log (sy_log (li_sys L) @ [alpi_task_block 7]) (li_sys L)"
  have w: "process_wait (as_task sample_task_rt sample_boot) (blk 7) (li_sys L) = Inr ?s"
    using process_wait_ok [of "as_task sample_task_rt sample_boot" 7] sample_task_rt_ok(1) by simp
  have "task_step sample_boot (li_sys L, (\<lambda>_. Outside)(7 := Queued)) (?s, ((\<lambda>_. Outside)(7 := Queued))(7 := Paused))"
    by (rule task_step.wait [where ph = "(\<lambda>_. Outside)(7 := Queued)", OF sample_task_rt_ok _ w]) simp
  then have "proc_step sample_boot sample_config (L, (\<lambda>_. Outside)(7 := Queued)) (L\<lparr>li_sys := ?s\<rparr>, (\<lambda>_. Outside)(7 := Paused))"
    using proc_step.continue [of sample_boot L] by simp
  then have "proc_run sample_boot sample_config sample_native (L\<lparr>li_sys := ?s\<rparr>, (\<lambda>_. Outside)(7 := Paused))" by (rule reach_step [OF L(1)])
  moreover have "sys_room sample_boot ?s" using L(4) by (simp add: sys_room_def cq_room_def sys_queued_def sys_flight_def)
  ultimately show thesis using L by (intro that [of "L\<lparr>li_sys := ?s\<rparr>"]) (simp_all add: blocks_def unblocks_def)
qed

end
