(* ===== verification/Fortran_Interface.thy ===== *)
theory Fortran_Interface
  imports Operation
begin

text \<open>
  The specialisations for Fortran of \<open>Interface\<close> (src/src/common/Interface.hpp) and of the issue of operations
  (src/src/common/Operation.cpp), which the libraries \<open>libtampi\<close> and \<open>libtampi-fortran\<close> contain.

  The Fortran functions of MPI are a parameter: they return nothing, leave the error code in their last argument, take
  handles that are integers and count from one. An index or a count may be \<open>MPI_UNDEFINED\<close>. The array of
  indices that \<open>mpi_testsome\<close> fills is as long as the requests; only the reported entries are defined.
\<close>

section \<open>Calls\<close>

type_synonym mpi_fint = int

record 'm mpif =
  F_UNDEFINED :: int
  F_Test :: "mpi_fint \<Rightarrow> 'm \<Rightarrow> (int \<times> mpi_fint \<times> bool \<times> mpi_status) \<times> 'm"
  F_Testall :: "mpi_fint list \<Rightarrow> 'm \<Rightarrow> (int \<times> mpi_fint list \<times> bool \<times> mpi_status list) \<times> 'm"
  F_Testany :: "mpi_fint list \<Rightarrow> 'm \<Rightarrow> (int \<times> mpi_fint list \<times> int \<times> bool \<times> mpi_status) \<times> 'm"
  F_Testsome :: "mpi_fint list \<Rightarrow> 'm \<Rightarrow> (int \<times> mpi_fint list \<times> int \<times> (int \<times> mpi_status) list) \<times> 'm"
  F_Comm_rank :: "'m \<Rightarrow> (int \<times> int) \<times> 'm"
  F_Comm_size :: "'m \<Rightarrow> (int \<times> int) \<times> 'm"

definition interface_test_F :: "'m mpif \<Rightarrow> mpi_fint \<Rightarrow> 'm \<Rightarrow> (bool \<times> mpi_fint \<times> mpi_status \<times> 'm) result" where
  "interface_test_F mf req m =
     (let ((err, req', completed, st), m') = F_Test mf req m in
      if err \<noteq> MPI_SUCCESS then fail [Str ''Unexpected return code from MPI_Test'']
      else Inr (completed, req', st, m'))"

definition interface_testall_F ::
    "'m mpif \<Rightarrow> mpi_fint list \<Rightarrow> 'm \<Rightarrow> (bool \<times> mpi_fint list \<times> mpi_status list \<times> 'm) result" where
  "interface_testall_F mf reqs m =
     (let ((err, reqs', completed, sts), m') = F_Testall mf reqs m in
      if err \<noteq> MPI_SUCCESS then fail [Str ''Unexpected return code from MPI_Testall'']
      else Inr (completed, reqs', sts, m'))"

text \<open>The index is decreased only when a request completed; otherwise the caller does not read it.\<close>

definition interface_testany_F ::
    "'m mpif \<Rightarrow> mpi_fint list \<Rightarrow> 'm \<Rightarrow> (int option \<times> mpi_fint list \<times> mpi_status \<times> 'm) result" where
  "interface_testany_F mf reqs m =
     (let ((err, reqs', index, completed, st), m') = F_Testany mf reqs m in
      if err \<noteq> MPI_SUCCESS then fail [Str ''Unexpected return code from MPI_Testany'']
      else if completed \<and> index = F_UNDEFINED mf then fail [Str ''Unexpected output from MPI_Testany'']
      else Inr (if completed then Some (index - 1) else None, reqs', st, m'))"

text \<open>The loop over the reported entries: \<open>for (int r = 0; r < completed; ++r)\<close>.\<close>

fun decrease_indices :: "nat \<Rightarrow> (int \<times> mpi_status) list \<Rightarrow> (int \<times> mpi_status) list result" where
  "decrease_indices 0 entries = Inr []"
| "decrease_indices (Suc n) [] = Inl (OutOfBounds ''indices[r]'')"
| "decrease_indices (Suc n) ((i, st) # entries) =
     rbind (decrease_indices n entries) (\<lambda>rest. Inr ((i - 1, st) # rest))"

definition interface_testsome_F ::
    "'m mpif \<Rightarrow> mpi_fint list \<Rightarrow> 'm \<Rightarrow> ((int \<times> mpi_status) list \<times> mpi_fint list \<times> 'm) result" where
  "interface_testsome_F mf reqs m =
     (let ((err, reqs', completed, entries), m') = F_Testsome mf reqs m in
      if err \<noteq> MPI_SUCCESS then fail [Str ''Unexpected return code from MPI_Testsome'']
      else if completed = F_UNDEFINED mf then fail [Str ''Unexpected output from MPI_Testsome'']
      else rbind (decrease_indices (nat completed) entries) (\<lambda>completions. Inr (completions, reqs', m')))"

section \<open>Initialization and issue\<close>

definition mpi_symbol_names_F :: "string list" where
  "mpi_symbol_names_F =
     [''mpi_test_'', ''mpi_testall_'', ''mpi_testany_'', ''mpi_testsome_'', ''mpi_comm_rank_'',
      ''mpi_comm_size_'', ''mpi_ibsend_'', ''mpi_irecv_'', ''mpi_irsend_'', ''mpi_isend_'',
      ''mpi_issend_'', ''mpi_iallgather_'', ''mpi_iallgatherv_'', ''mpi_iallreduce_'',
      ''mpi_ialltoall_'', ''mpi_ialltoallv_'', ''mpi_ialltoallw_'', ''mpi_ibarrier_'', ''mpi_ibcast_'',
      ''mpi_igather_'', ''mpi_igatherv_'', ''mpi_ireduce_'', ''mpi_ireduce_scatter_'',
      ''mpi_ireduce_scatter_block_'', ''mpi_iscatter_'', ''mpi_iscatterv_'', ''mpi_iscan_'',
      ''mpi_iexscan_'']"

text \<open>The static members of \<open>Interface<Fortran>\<close> that the initialization sets.\<close>

record fortran_interface =
  fi_symbols :: "string \<Rightarrow> symbol"
  fi_rank :: int
  fi_nranks :: int

definition Interface_initialize_F ::
    "dlsym \<Rightarrow> 'm mpif \<Rightarrow> fortran_interface \<Rightarrow> 'm \<Rightarrow> (fortran_interface \<times> 'm) result" where
  "Interface_initialize_F dlsym mf fi m =
     rbind (load_next dlsym (fi_symbols fi) mpi_symbol_names_F) (\<lambda>syms.
     let ((rank, err), m) = F_Comm_rank mf m; ((nranks, err), m) = F_Comm_size mf m in
     Inr (\<lparr>fi_symbols = syms, fi_rank = rank, fi_nranks = nranks\<rparr>, m))"

definition Operation_issue_F :: "Operation \<Rightarrow> mpi_fint result" where
  "Operation_issue_F opn = fail [Str ''Fortran not supported'']"

definition CollOperation_issue_F :: "CollOperation \<Rightarrow> mpi_fint result" where
  "CollOperation_issue_F opn = fail [Str ''Fortran not supported'']"

section \<open>The binding\<close>

text \<open>
  The documented relation between the two bindings of an MPI library: the same calls on converted handles, with
  the indices of Fortran one higher, and \<open>MPI_UNDEFINED\<close>, which is negative, in place of no index.
\<close>

definition index_F :: "'m mpif \<Rightarrow> nat option \<Rightarrow> int" where
  "index_F mf i = (case i of None \<Rightarrow> F_UNDEFINED mf | Some i \<Rightarrow> int i + 1)"

definition binding_test :: "(request \<Rightarrow> mpi_fint) \<Rightarrow> 'm mpi \<Rightarrow> 'm mpif \<Rightarrow> bool" where
  "binding_test c2f mpi mf \<longleftrightarrow> (\<forall>req m. F_Test mf (c2f req) m =
     (case MPI_Test mpi req m of ((err, req', completed, st), m') \<Rightarrow> ((err, c2f req', completed, st), m')))"

definition binding_testall :: "(request \<Rightarrow> mpi_fint) \<Rightarrow> 'm mpi \<Rightarrow> 'm mpif \<Rightarrow> bool" where
  "binding_testall c2f mpi mf \<longleftrightarrow> (\<forall>reqs m. F_Testall mf (map c2f reqs) m =
     (case MPI_Testall mpi reqs m of ((err, reqs', completed, sts), m') \<Rightarrow> ((err, map c2f reqs', completed, sts), m')))"

definition binding_testany :: "(request \<Rightarrow> mpi_fint) \<Rightarrow> 'm mpi \<Rightarrow> 'm mpif \<Rightarrow> bool" where
  "binding_testany c2f mpi mf \<longleftrightarrow> (\<forall>reqs m. F_Testany mf (map c2f reqs) m =
     (case MPI_Testany mpi reqs m of ((err, reqs', index, completed, st), m') \<Rightarrow>
        ((err, map c2f reqs', index_F mf index, completed, st), m')))"

definition binding_testsome :: "(request \<Rightarrow> mpi_fint) \<Rightarrow> 'm mpi \<Rightarrow> 'm mpif \<Rightarrow> bool" where
  "binding_testsome c2f mpi mf \<longleftrightarrow> (\<forall>reqs m. case MPI_Testsome mpi reqs m of ((err, reqs', out), m') \<Rightarrow>
     (\<exists>n entries. F_Testsome mf (map c2f reqs) m = ((err, map c2f reqs', n, entries), m') \<and>
        (case out of None \<Rightarrow> n = F_UNDEFINED mf
         | Some cs \<Rightarrow> n = int (length cs) \<and> (\<exists>rest. entries = map (\<lambda>(i, st). (int i + 1, st)) cs @ rest))))"

definition fortran_binding :: "(request \<Rightarrow> mpi_fint) \<Rightarrow> 'm mpi \<Rightarrow> 'm mpif \<Rightarrow> bool" where
  "fortran_binding c2f mpi mf \<longleftrightarrow> F_UNDEFINED mf < 0 \<and> binding_test c2f mpi mf \<and> binding_testall c2f mpi mf \<and>
     binding_testany c2f mpi mf \<and> binding_testsome c2f mpi mf"

lemma decrease_indices_reported:
  "decrease_indices (length cs) (map (\<lambda>(i, st). (int i + 1, st)) cs @ rest) = Inr (map (\<lambda>(i, st). (int i, st)) cs)"
  by (induction cs) auto

lemma interface_testany_F_agrees:
  assumes "F_UNDEFINED mf < 0" "binding_testany c2f mpi mf"
  shows "interface_testany_F mf (map c2f reqs) m = rbind (interface_testany mpi reqs m) (\<lambda>(index, reqs', st, m').
      Inr (map_option int index, map c2f reqs', st, m'))"
proof -
  obtain err reqs' index completed st m' where c: "MPI_Testany mpi reqs m = ((err, reqs', index, completed, st), m')"
    by (metis prod_cases5 prod.exhaust)
  have "F_Testany mf (map c2f reqs) m = ((err, map c2f reqs', index_F mf index, completed, st), m')"
    using assms(2) c by (simp add: binding_testany_def)
  with c assms(1) show ?thesis
    by (cases index) (simp_all add: interface_testany_F_def interface_testany_def index_F_def)
qed

lemma interface_testsome_F_agrees:
  assumes "F_UNDEFINED mf < 0" "binding_testsome c2f mpi mf"
  shows "interface_testsome_F mf (map c2f reqs) m = rbind (interface_testsome mpi reqs m) (\<lambda>(completions, reqs', m').
      Inr (map (\<lambda>(i, st). (int i, st)) completions, map c2f reqs', m'))"
proof -
  obtain err reqs' out m' where c: "MPI_Testsome mpi reqs m = ((err, reqs', out), m')"
    by (metis prod_cases3 prod.exhaust)
  obtain n entries where f: "F_Testsome mf (map c2f reqs) m = ((err, map c2f reqs', n, entries), m')"
    "case out of None \<Rightarrow> n = F_UNDEFINED mf
       | Some cs \<Rightarrow> n = int (length cs) \<and> (\<exists>rest. entries = map (\<lambda>(i, st). (int i + 1, st)) cs @ rest)"
    using assms(2) [unfolded binding_testsome_def, rule_format, of reqs m] c by auto
  with c assms(1) show ?thesis
    by (cases out) (auto simp: interface_testsome_F_def interface_testsome_def decrease_indices_reported)
qed

section \<open>Properties\<close>

text \<open>
  (C38) On the Fortran binding of an MPI library the four tests return what they return in C: the same error
  messages, the same completions with indices that count from zero, the same statuses, and the converted handles. The
  loop that decreases the indices stays within the reported entries.
\<close>

theorem fortran_tests_agree:
  assumes "fortran_binding c2f mpi mf"
  shows "interface_test_F mf (c2f req) m = rbind (interface_test mpi req m) (\<lambda>(completed, req', st, m').
      Inr (completed, c2f req', st, m')) \<and>
    interface_testall_F mf (map c2f reqs) m = rbind (interface_testall mpi reqs m) (\<lambda>(completed, reqs', sts, m').
      Inr (completed, map c2f reqs', sts, m')) \<and>
    interface_testany_F mf (map c2f reqs) m = rbind (interface_testany mpi reqs m) (\<lambda>(index, reqs', st, m').
      Inr (map_option int index, map c2f reqs', st, m')) \<and>
    interface_testsome_F mf (map c2f reqs) m = rbind (interface_testsome mpi reqs m) (\<lambda>(completions, reqs', m').
      Inr (map (\<lambda>(i, st). (int i, st)) completions, map c2f reqs', m'))"
proof (intro conjI)
  note b = assms [unfolded fortran_binding_def]
  show "interface_test_F mf (c2f req) m = rbind (interface_test mpi req m) (\<lambda>(completed, req', st, m').
      Inr (completed, c2f req', st, m'))"
    using b by (simp add: binding_test_def interface_test_F_def interface_test_def case_prod_unfold Let_def)
  show "interface_testall_F mf (map c2f reqs) m = rbind (interface_testall mpi reqs m) (\<lambda>(completed, reqs', sts, m').
      Inr (completed, map c2f reqs', sts, m'))"
    using b by (simp add: binding_testall_def interface_testall_F_def interface_testall_def case_prod_unfold Let_def)
qed (use assms [unfolded fortran_binding_def] in \<open>blast intro: interface_testany_F_agrees interface_testsome_F_agrees\<close>)+

text \<open>An MPI library that completes the first two of the requests it is asked for.\<close>

definition sample_pair_mpi :: "nat mpi" where
  "sample_pair_mpi = \<lparr>MPI_REQUEST_NULL = 0, MPI_STATUS_IGNORE = 1, MPI_DATATYPE_NULL = 0, MPI_OP_NULL = 0,
     MPI_Test = (\<lambda>r m. ((0, 0, True, \<lparr>MPI_SOURCE = 2, MPI_TAG = 3, MPI_ERROR = 0\<rparr>), m)),
     MPI_Testall = (\<lambda>rs m. ((0, rs, False, []), m)),
     MPI_Testany = (\<lambda>rs m. ((0, 0 # tl rs, Some 0, True, \<lparr>MPI_SOURCE = 2, MPI_TAG = 3, MPI_ERROR = 0\<rparr>), m)),
     MPI_Testsome = (\<lambda>rs m. ((0, rs, Some [(0, \<lparr>MPI_SOURCE = 2, MPI_TAG = 3, MPI_ERROR = 0\<rparr>),
       (1, \<lparr>MPI_SOURCE = 4, MPI_TAG = 5, MPI_ERROR = 0\<rparr>)]), m)),
     MPI_I = (\<lambda>c m. ((0, 1), m))\<rparr>"

definition sample_pair_mpif :: "nat mpif" where
  "sample_pair_mpif = \<lparr>F_UNDEFINED = -32766,
     F_Test = (\<lambda>r m. ((0, 0, True, \<lparr>MPI_SOURCE = 2, MPI_TAG = 3, MPI_ERROR = 0\<rparr>), m)),
     F_Testall = (\<lambda>rs m. ((0, rs, False, []), m)),
     F_Testany = (\<lambda>rs m. ((0, 0 # tl rs, 1, True, \<lparr>MPI_SOURCE = 2, MPI_TAG = 3, MPI_ERROR = 0\<rparr>), m)),
     F_Testsome = (\<lambda>rs m. ((0, rs, 2, [(1, \<lparr>MPI_SOURCE = 2, MPI_TAG = 3, MPI_ERROR = 0\<rparr>),
       (2, \<lparr>MPI_SOURCE = 4, MPI_TAG = 5, MPI_ERROR = 0\<rparr>), (77, \<lparr>MPI_SOURCE = 0, MPI_TAG = 0, MPI_ERROR = 0\<rparr>)]), m)),
     F_Comm_rank = (\<lambda>m. ((0, 0), m)), F_Comm_size = (\<lambda>m. ((1, 0), m))\<rparr>"

lemma sample_pair_binding: "fortran_binding int sample_pair_mpi sample_pair_mpif"
  by (simp add: fortran_binding_def binding_test_def binding_testall_def binding_testany_def binding_testsome_def
      sample_pair_mpi_def sample_pair_mpif_def index_F_def map_tl)

theorem fortran_tests_agree_witness:
  "interface_testsome_F sample_pair_mpif (map int [5, 6, 7]) 0 =
     Inr ([(0, \<lparr>MPI_SOURCE = 2, MPI_TAG = 3, MPI_ERROR = 0\<rparr>), (1, \<lparr>MPI_SOURCE = 4, MPI_TAG = 5, MPI_ERROR = 0\<rparr>)], [5, 6, 7], 0)"
  using fortran_tests_agree [OF sample_pair_binding, of 5 0 "[5, 6, 7]"]
  by (simp add: interface_testsome_def sample_pair_mpi_def)

end
