(* ===== verification/Prototypes.thy ===== *)
theory Prototypes
  imports Fortran_Interface
begin

text \<open>
  \<open>Prototypes\<close> and \<open>Names\<close> (src/src/common/Declarations.hpp): the types and the names of the functions of MPI that
  the library resolves with the dynamic linker, for C and for Fortran. A prototype is the return type and the types
  of the parameters. The linker does not check types: a symbol is called with the prototype that is declared
  here, so the prototypes must be those of MPI.
\<close>

section \<open>Types\<close>

datatype (plugins only: code) base_type =
  T_void | T_int | T_char | T_Datatype | T_Op | T_Comm | T_Request | T_Status | T_Fint

datatype (plugins only: code) ctype =
  Val base_type | Ptr base_type | ConstPtr base_type | Arr base_type | ConstArr base_type | Ptr3 base_type

type_synonym prototype = "ctype \<times> ctype list"

section \<open>Declarations\<close>

definition Prototypes_C :: "(string \<times> prototype) list" where
  "Prototypes_C =
     [(''mpi_finalize'', Val T_int, []),
      (''mpi_init'', Val T_int, [Ptr T_int, Ptr3 T_char]),
      (''mpi_init_thread'', Val T_int, [Ptr T_int, Ptr3 T_char, Val T_int, Ptr T_int]),
      (''mpi_comm_rank'', Val T_int, [Val T_Comm, Ptr T_int]),
      (''mpi_comm_size'', Val T_int, [Val T_Comm, Ptr T_int]),
      (''mpi_query_thread'', Val T_int, [Ptr T_int]),
      (''mpi_test'', Val T_int, [Ptr T_Request, Ptr T_int, Ptr T_Status]),
      (''mpi_testall'', Val T_int, [Val T_int, Arr T_Request, Ptr T_int, Arr T_Status]),
      (''mpi_testany'', Val T_int, [Val T_int, Arr T_Request, Ptr T_int, Ptr T_int, Ptr T_Status]),
      (''mpi_testsome'', Val T_int, [Val T_int, Arr T_Request, Ptr T_int, Arr T_int, Arr T_Status]),
      (''mpi_wait'', Val T_int, [Ptr T_Request, Ptr T_Status]),
      (''mpi_waitall'', Val T_int, [Val T_int, Arr T_Request, Arr T_Status]),
      (''mpi_bsend'', Val T_int, [ConstPtr T_void, Val T_int, Val T_Datatype, Val T_int, Val T_int, Val T_Comm]),
      (''mpi_recv'', Val T_int, [Ptr T_void, Val T_int, Val T_Datatype, Val T_int, Val T_int, Val T_Comm, Ptr T_Status]),
      (''mpi_rsend'', Val T_int, [ConstPtr T_void, Val T_int, Val T_Datatype, Val T_int, Val T_int, Val T_Comm]),
      (''mpi_sendrecv'', Val T_int, [ConstPtr T_void, Val T_int, Val T_Datatype, Val T_int, Val T_int, Ptr T_void, Val T_int, Val T_Datatype, Val T_int, Val T_int, Val T_Comm, Ptr T_Status]),
      (''mpi_sendrecv_replace'', Val T_int, [Ptr T_void, Val T_int, Val T_Datatype, Val T_int, Val T_int, Val T_int, Val T_int, Val T_Comm, Ptr T_Status]),
      (''mpi_ssend'', Val T_int, [ConstPtr T_void, Val T_int, Val T_Datatype, Val T_int, Val T_int, Val T_Comm]),
      (''mpi_send'', Val T_int, [ConstPtr T_void, Val T_int, Val T_Datatype, Val T_int, Val T_int, Val T_Comm]),
      (''mpi_ibsend'', Val T_int, [ConstPtr T_void, Val T_int, Val T_Datatype, Val T_int, Val T_int, Val T_Comm, Ptr T_Request]),
      (''mpi_irecv'', Val T_int, [Ptr T_void, Val T_int, Val T_Datatype, Val T_int, Val T_int, Val T_Comm, Ptr T_Request]),
      (''mpi_irsend'', Val T_int, [ConstPtr T_void, Val T_int, Val T_Datatype, Val T_int, Val T_int, Val T_Comm, Ptr T_Request]),
      (''mpi_issend'', Val T_int, [ConstPtr T_void, Val T_int, Val T_Datatype, Val T_int, Val T_int, Val T_Comm, Ptr T_Request]),
      (''mpi_isend'', Val T_int, [ConstPtr T_void, Val T_int, Val T_Datatype, Val T_int, Val T_int, Val T_Comm, Ptr T_Request]),
      (''mpi_allgather'', Val T_int, [ConstPtr T_void, Val T_int, Val T_Datatype, Ptr T_void, Val T_int, Val T_Datatype, Val T_Comm]),
      (''mpi_allgatherv'', Val T_int, [ConstPtr T_void, Val T_int, Val T_Datatype, Ptr T_void, ConstArr T_int, ConstArr T_int, Val T_Datatype, Val T_Comm]),
      (''mpi_allreduce'', Val T_int, [ConstPtr T_void, Ptr T_void, Val T_int, Val T_Datatype, Val T_Op, Val T_Comm]),
      (''mpi_alltoall'', Val T_int, [ConstPtr T_void, Val T_int, Val T_Datatype, Ptr T_void, Val T_int, Val T_Datatype, Val T_Comm]),
      (''mpi_alltoallv'', Val T_int, [ConstPtr T_void, ConstArr T_int, ConstArr T_int, Val T_Datatype, Ptr T_void, ConstArr T_int, ConstArr T_int, Val T_Datatype, Val T_Comm]),
      (''mpi_alltoallw'', Val T_int, [ConstPtr T_void, ConstArr T_int, ConstArr T_int, ConstArr T_Datatype, Ptr T_void, ConstArr T_int, ConstArr T_int, ConstArr T_Datatype, Val T_Comm]),
      (''mpi_barrier'', Val T_int, [Val T_Comm]),
      (''mpi_bcast'', Val T_int, [Ptr T_void, Val T_int, Val T_Datatype, Val T_int, Val T_Comm]),
      (''mpi_gather'', Val T_int, [ConstPtr T_void, Val T_int, Val T_Datatype, Ptr T_void, Val T_int, Val T_Datatype, Val T_int, Val T_Comm]),
      (''mpi_gatherv'', Val T_int, [ConstPtr T_void, Val T_int, Val T_Datatype, Ptr T_void, ConstArr T_int, ConstArr T_int, Val T_Datatype, Val T_int, Val T_Comm]),
      (''mpi_reduce'', Val T_int, [ConstPtr T_void, Ptr T_void, Val T_int, Val T_Datatype, Val T_Op, Val T_int, Val T_Comm]),
      (''mpi_reduce_scatter'', Val T_int, [ConstPtr T_void, Ptr T_void, ConstArr T_int, Val T_Datatype, Val T_Op, Val T_Comm]),
      (''mpi_reduce_scatter_block'', Val T_int, [ConstPtr T_void, Ptr T_void, Val T_int, Val T_Datatype, Val T_Op, Val T_Comm]),
      (''mpi_scatter'', Val T_int, [ConstPtr T_void, Val T_int, Val T_Datatype, Ptr T_void, Val T_int, Val T_Datatype, Val T_int, Val T_Comm]),
      (''mpi_scatterv'', Val T_int, [ConstPtr T_void, ConstArr T_int, ConstArr T_int, Val T_Datatype, Ptr T_void, Val T_int, Val T_Datatype, Val T_int, Val T_Comm]),
      (''mpi_scan'', Val T_int, [ConstPtr T_void, Ptr T_void, Val T_int, Val T_Datatype, Val T_Op, Val T_Comm]),
      (''mpi_exscan'', Val T_int, [ConstPtr T_void, Ptr T_void, Val T_int, Val T_Datatype, Val T_Op, Val T_Comm]),
      (''mpi_iallgather'', Val T_int, [ConstPtr T_void, Val T_int, Val T_Datatype, Ptr T_void, Val T_int, Val T_Datatype, Val T_Comm, Ptr T_Request]),
      (''mpi_iallgatherv'', Val T_int, [ConstPtr T_void, Val T_int, Val T_Datatype, Ptr T_void, ConstArr T_int, ConstArr T_int, Val T_Datatype, Val T_Comm, Ptr T_Request]),
      (''mpi_iallreduce'', Val T_int, [ConstPtr T_void, Ptr T_void, Val T_int, Val T_Datatype, Val T_Op, Val T_Comm, Ptr T_Request]),
      (''mpi_ialltoall'', Val T_int, [ConstPtr T_void, Val T_int, Val T_Datatype, Ptr T_void, Val T_int, Val T_Datatype, Val T_Comm, Ptr T_Request]),
      (''mpi_ialltoallv'', Val T_int, [ConstPtr T_void, ConstArr T_int, ConstArr T_int, Val T_Datatype, Ptr T_void, ConstArr T_int, ConstArr T_int, Val T_Datatype, Val T_Comm, Ptr T_Request]),
      (''mpi_ialltoallw'', Val T_int, [ConstPtr T_void, ConstArr T_int, ConstArr T_int, ConstArr T_Datatype, Ptr T_void, ConstArr T_int, ConstArr T_int, ConstArr T_Datatype, Val T_Comm, Ptr T_Request]),
      (''mpi_ibarrier'', Val T_int, [Val T_Comm, Ptr T_Request]),
      (''mpi_ibcast'', Val T_int, [Ptr T_void, Val T_int, Val T_Datatype, Val T_int, Val T_Comm, Ptr T_Request]),
      (''mpi_igather'', Val T_int, [ConstPtr T_void, Val T_int, Val T_Datatype, Ptr T_void, Val T_int, Val T_Datatype, Val T_int, Val T_Comm, Ptr T_Request]),
      (''mpi_igatherv'', Val T_int, [ConstPtr T_void, Val T_int, Val T_Datatype, Ptr T_void, ConstArr T_int, ConstArr T_int, Val T_Datatype, Val T_int, Val T_Comm, Ptr T_Request]),
      (''mpi_ireduce'', Val T_int, [ConstPtr T_void, Ptr T_void, Val T_int, Val T_Datatype, Val T_Op, Val T_int, Val T_Comm, Ptr T_Request]),
      (''mpi_ireduce_scatter'', Val T_int, [ConstPtr T_void, Ptr T_void, ConstArr T_int, Val T_Datatype, Val T_Op, Val T_Comm, Ptr T_Request]),
      (''mpi_ireduce_scatter_block'', Val T_int, [ConstPtr T_void, Ptr T_void, Val T_int, Val T_Datatype, Val T_Op, Val T_Comm, Ptr T_Request]),
      (''mpi_iscatter'', Val T_int, [ConstPtr T_void, Val T_int, Val T_Datatype, Ptr T_void, Val T_int, Val T_Datatype, Val T_int, Val T_Comm, Ptr T_Request]),
      (''mpi_iscatterv'', Val T_int, [ConstPtr T_void, ConstArr T_int, ConstArr T_int, Val T_Datatype, Ptr T_void, Val T_int, Val T_Datatype, Val T_int, Val T_Comm, Ptr T_Request]),
      (''mpi_iscan'', Val T_int, [ConstPtr T_void, Ptr T_void, Val T_int, Val T_Datatype, Val T_Op, Val T_Comm, Ptr T_Request]),
      (''mpi_iexscan'', Val T_int, [ConstPtr T_void, Ptr T_void, Val T_int, Val T_Datatype, Val T_Op, Val T_Comm, Ptr T_Request])]"

definition Prototypes_F :: "(string \<times> prototype) list" where
  "Prototypes_F =
     [(''mpi_finalize'', Val T_void, [Ptr T_Fint]),
      (''mpi_init'', Val T_void, [Ptr T_Fint]),
      (''mpi_init_thread'', Val T_void, [Ptr T_Fint, Ptr T_Fint, Ptr T_Fint]),
      (''mpi_comm_rank'', Val T_void, [Ptr T_Fint, Ptr T_Fint, Ptr T_Fint]),
      (''mpi_comm_size'', Val T_void, [Ptr T_Fint, Ptr T_Fint, Ptr T_Fint]),
      (''mpi_query_thread'', Val T_void, [Ptr T_Fint, Ptr T_Fint]),
      (''mpi_test'', Val T_void, [Ptr T_Fint, Ptr T_Fint, Ptr T_Fint, Ptr T_Fint]),
      (''mpi_testall'', Val T_void, [Ptr T_Fint, Arr T_Fint, Ptr T_Fint, Arr T_Fint, Ptr T_Fint]),
      (''mpi_testany'', Val T_void, [Ptr T_Fint, Arr T_Fint, Ptr T_Fint, Ptr T_Fint, Ptr T_Fint, Ptr T_Fint]),
      (''mpi_testsome'', Val T_void, [Ptr T_Fint, Arr T_Fint, Ptr T_Fint, Arr T_Fint, Arr T_Fint, Ptr T_Fint]),
      (''mpi_wait'', Val T_void, [Ptr T_Fint, Ptr T_Fint, Ptr T_Fint]),
      (''mpi_waitall'', Val T_void, [Ptr T_Fint, Arr T_Fint, Ptr T_Fint, Ptr T_Fint]),
      (''mpi_bsend'', Val T_void, [Ptr T_void, Ptr T_Fint, Ptr T_Fint, Ptr T_Fint, Ptr T_Fint, Ptr T_Fint, Ptr T_Fint]),
      (''mpi_recv'', Val T_void, [Ptr T_void, Ptr T_Fint, Ptr T_Fint, Ptr T_Fint, Ptr T_Fint, Ptr T_Fint, Ptr T_Fint, Ptr T_Fint]),
      (''mpi_rsend'', Val T_void, [Ptr T_void, Ptr T_Fint, Ptr T_Fint, Ptr T_Fint, Ptr T_Fint, Ptr T_Fint, Ptr T_Fint]),
      (''mpi_send'', Val T_void, [Ptr T_void, Ptr T_Fint, Ptr T_Fint, Ptr T_Fint, Ptr T_Fint, Ptr T_Fint, Ptr T_Fint]),
      (''mpi_sendrecv'', Val T_void, [Ptr T_void, Ptr T_Fint, Ptr T_Fint, Ptr T_Fint, Ptr T_Fint, Ptr T_void, Ptr T_Fint, Ptr T_Fint, Ptr T_Fint, Ptr T_Fint, Ptr T_Fint, Ptr T_Fint, Ptr T_Fint]),
      (''mpi_sendrecv_replace'', Val T_void, [Ptr T_void, Ptr T_Fint, Ptr T_Fint, Ptr T_Fint, Ptr T_Fint, Ptr T_Fint, Ptr T_Fint, Ptr T_Fint, Ptr T_Fint, Ptr T_Fint]),
      (''mpi_ssend'', Val T_void, [Ptr T_void, Ptr T_Fint, Ptr T_Fint, Ptr T_Fint, Ptr T_Fint, Ptr T_Fint, Ptr T_Fint]),
      (''mpi_ibsend'', Val T_void, [Ptr T_void, Ptr T_Fint, Ptr T_Fint, Ptr T_Fint, Ptr T_Fint, Ptr T_Fint, Ptr T_Fint, Ptr T_Fint]),
      (''mpi_irecv'', Val T_void, [Ptr T_void, Ptr T_Fint, Ptr T_Fint, Ptr T_Fint, Ptr T_Fint, Ptr T_Fint, Ptr T_Fint, Ptr T_Fint]),
      (''mpi_irsend'', Val T_void, [Ptr T_void, Ptr T_Fint, Ptr T_Fint, Ptr T_Fint, Ptr T_Fint, Ptr T_Fint, Ptr T_Fint, Ptr T_Fint]),
      (''mpi_isend'', Val T_void, [Ptr T_void, Ptr T_Fint, Ptr T_Fint, Ptr T_Fint, Ptr T_Fint, Ptr T_Fint, Ptr T_Fint, Ptr T_Fint]),
      (''mpi_issend'', Val T_void, [Ptr T_void, Ptr T_Fint, Ptr T_Fint, Ptr T_Fint, Ptr T_Fint, Ptr T_Fint, Ptr T_Fint, Ptr T_Fint]),
      (''mpi_allgather'', Val T_void, [Ptr T_void, Ptr T_Fint, Ptr T_Fint, Ptr T_void, Ptr T_Fint, Ptr T_Fint, Ptr T_Fint, Ptr T_Fint]),
      (''mpi_allgatherv'', Val T_void, [Ptr T_void, Ptr T_Fint, Ptr T_Fint, Ptr T_void, Arr T_Fint, Arr T_Fint, Ptr T_Fint, Ptr T_Fint, Ptr T_Fint]),
      (''mpi_allreduce'', Val T_void, [Ptr T_void, Ptr T_void, Ptr T_Fint, Ptr T_Fint, Ptr T_Fint, Ptr T_Fint, Ptr T_Fint]),
      (''mpi_alltoall'', Val T_void, [Ptr T_void, Ptr T_Fint, Ptr T_Fint, Ptr T_void, Ptr T_Fint, Ptr T_Fint, Ptr T_Fint, Ptr T_Fint]),
      (''mpi_alltoallv'', Val T_void, [Ptr T_void, Arr T_Fint, Arr T_Fint, Ptr T_Fint, Ptr T_void, Arr T_Fint, Arr T_Fint, Ptr T_Fint, Ptr T_Fint, Ptr T_Fint]),
      (''mpi_alltoallw'', Val T_void, [Ptr T_void, Arr T_Fint, Arr T_Fint, Arr T_Fint, Ptr T_void, Arr T_Fint, Arr T_Fint, Arr T_Fint, Ptr T_Fint, Ptr T_Fint]),
      (''mpi_barrier'', Val T_void, [Ptr T_Fint, Ptr T_Fint]),
      (''mpi_bcast'', Val T_void, [Ptr T_void, Ptr T_Fint, Ptr T_Fint, Ptr T_Fint, Ptr T_Fint, Ptr T_Fint]),
      (''mpi_gather'', Val T_void, [Ptr T_void, Ptr T_Fint, Ptr T_Fint, Ptr T_void, Ptr T_Fint, Ptr T_Fint, Ptr T_Fint, Ptr T_Fint, Ptr T_Fint]),
      (''mpi_gatherv'', Val T_void, [Ptr T_void, Ptr T_Fint, Ptr T_Fint, Ptr T_void, Arr T_Fint, Arr T_Fint, Ptr T_Fint, Ptr T_Fint, Ptr T_Fint, Ptr T_Fint]),
      (''mpi_reduce'', Val T_void, [Ptr T_void, Ptr T_void, Ptr T_Fint, Ptr T_Fint, Ptr T_Fint, Ptr T_Fint, Ptr T_Fint, Ptr T_Fint]),
      (''mpi_reduce_scatter'', Val T_void, [Ptr T_void, Ptr T_void, Arr T_Fint, Ptr T_Fint, Ptr T_Fint, Ptr T_Fint, Ptr T_Fint]),
      (''mpi_reduce_scatter_block'', Val T_void, [Ptr T_void, Ptr T_void, Ptr T_Fint, Ptr T_Fint, Ptr T_Fint, Ptr T_Fint, Ptr T_Fint]),
      (''mpi_scatter'', Val T_void, [Ptr T_void, Ptr T_Fint, Ptr T_Fint, Ptr T_void, Ptr T_Fint, Ptr T_Fint, Ptr T_Fint, Ptr T_Fint, Ptr T_Fint]),
      (''mpi_scatterv'', Val T_void, [Ptr T_void, Arr T_Fint, Arr T_Fint, Ptr T_Fint, Ptr T_void, Ptr T_Fint, Ptr T_Fint, Ptr T_Fint, Ptr T_Fint, Ptr T_Fint]),
      (''mpi_scan'', Val T_void, [Ptr T_void, Ptr T_void, Ptr T_Fint, Ptr T_Fint, Ptr T_Fint, Ptr T_Fint, Ptr T_Fint]),
      (''mpi_exscan'', Val T_void, [Ptr T_void, Ptr T_void, Ptr T_Fint, Ptr T_Fint, Ptr T_Fint, Ptr T_Fint, Ptr T_Fint]),
      (''mpi_iallgather'', Val T_void, [Ptr T_void, Ptr T_Fint, Ptr T_Fint, Ptr T_void, Ptr T_Fint, Ptr T_Fint, Ptr T_Fint, Ptr T_Fint, Ptr T_Fint]),
      (''mpi_iallgatherv'', Val T_void, [Ptr T_void, Ptr T_Fint, Ptr T_Fint, Ptr T_void, Arr T_Fint, Arr T_Fint, Ptr T_Fint, Ptr T_Fint, Ptr T_Fint, Ptr T_Fint]),
      (''mpi_iallreduce'', Val T_void, [Ptr T_void, Ptr T_void, Ptr T_Fint, Ptr T_Fint, Ptr T_Fint, Ptr T_Fint, Ptr T_Fint, Ptr T_Fint]),
      (''mpi_ialltoall'', Val T_void, [Ptr T_void, Ptr T_Fint, Ptr T_Fint, Ptr T_void, Ptr T_Fint, Ptr T_Fint, Ptr T_Fint, Ptr T_Fint, Ptr T_Fint]),
      (''mpi_ialltoallv'', Val T_void, [Ptr T_void, Arr T_Fint, Arr T_Fint, Ptr T_Fint, Ptr T_void, Arr T_Fint, Arr T_Fint, Ptr T_Fint, Ptr T_Fint, Ptr T_Fint, Ptr T_Fint]),
      (''mpi_ialltoallw'', Val T_void, [Ptr T_void, Arr T_Fint, Arr T_Fint, Arr T_Fint, Ptr T_void, Arr T_Fint, Arr T_Fint, Arr T_Fint, Ptr T_Fint, Ptr T_Fint, Ptr T_Fint]),
      (''mpi_ibarrier'', Val T_void, [Ptr T_Fint, Ptr T_Fint, Ptr T_Fint]),
      (''mpi_ibcast'', Val T_void, [Ptr T_void, Ptr T_Fint, Ptr T_Fint, Ptr T_Fint, Ptr T_Fint, Ptr T_Fint, Ptr T_Fint]),
      (''mpi_igather'', Val T_void, [Ptr T_void, Ptr T_Fint, Ptr T_Fint, Ptr T_void, Ptr T_Fint, Ptr T_Fint, Ptr T_Fint, Ptr T_Fint, Ptr T_Fint, Ptr T_Fint]),
      (''mpi_igatherv'', Val T_void, [Ptr T_void, Ptr T_Fint, Ptr T_Fint, Ptr T_void, Arr T_Fint, Arr T_Fint, Ptr T_Fint, Ptr T_Fint, Ptr T_Fint, Ptr T_Fint, Ptr T_Fint]),
      (''mpi_ireduce'', Val T_void, [Ptr T_void, Ptr T_void, Ptr T_Fint, Ptr T_Fint, Ptr T_Fint, Ptr T_Fint, Ptr T_Fint, Ptr T_Fint, Ptr T_Fint]),
      (''mpi_ireduce_scatter'', Val T_void, [Ptr T_void, Ptr T_void, Arr T_Fint, Ptr T_Fint, Ptr T_Fint, Ptr T_Fint, Ptr T_Fint, Ptr T_Fint]),
      (''mpi_ireduce_scatter_block'', Val T_void, [Ptr T_void, Ptr T_void, Ptr T_Fint, Ptr T_Fint, Ptr T_Fint, Ptr T_Fint, Ptr T_Fint, Ptr T_Fint]),
      (''mpi_iscatter'', Val T_void, [Ptr T_void, Ptr T_Fint, Ptr T_Fint, Ptr T_void, Ptr T_Fint, Ptr T_Fint, Ptr T_Fint, Ptr T_Fint, Ptr T_Fint, Ptr T_Fint]),
      (''mpi_iscatterv'', Val T_void, [Ptr T_void, Arr T_Fint, Arr T_Fint, Ptr T_Fint, Ptr T_void, Ptr T_Fint, Ptr T_Fint, Ptr T_Fint, Ptr T_Fint, Ptr T_Fint, Ptr T_Fint]),
      (''mpi_iscan'', Val T_void, [Ptr T_void, Ptr T_void, Ptr T_Fint, Ptr T_Fint, Ptr T_Fint, Ptr T_Fint, Ptr T_Fint, Ptr T_Fint]),
      (''mpi_iexscan'', Val T_void, [Ptr T_void, Ptr T_void, Ptr T_Fint, Ptr T_Fint, Ptr T_Fint, Ptr T_Fint, Ptr T_Fint, Ptr T_Fint])]"

definition Names_C :: "(string \<times> string) list" where
  "Names_C =
     [(''mpi_test'', ''MPI_Test''),
      (''mpi_testall'', ''MPI_Testall''),
      (''mpi_testany'', ''MPI_Testany''),
      (''mpi_testsome'', ''MPI_Testsome''),
      (''mpi_ibsend'', ''MPI_Ibsend''),
      (''mpi_irecv'', ''MPI_Irecv''),
      (''mpi_irsend'', ''MPI_Irsend''),
      (''mpi_issend'', ''MPI_Issend''),
      (''mpi_isend'', ''MPI_Isend''),
      (''mpi_iallgather'', ''MPI_Iallgather''),
      (''mpi_iallgatherv'', ''MPI_Iallgatherv''),
      (''mpi_iallreduce'', ''MPI_Iallreduce''),
      (''mpi_ialltoall'', ''MPI_Ialltoall''),
      (''mpi_ialltoallv'', ''MPI_Ialltoallv''),
      (''mpi_ialltoallw'', ''MPI_Ialltoallw''),
      (''mpi_ibarrier'', ''MPI_Ibarrier''),
      (''mpi_ibcast'', ''MPI_Ibcast''),
      (''mpi_igather'', ''MPI_Igather''),
      (''mpi_igatherv'', ''MPI_Igatherv''),
      (''mpi_ireduce'', ''MPI_Ireduce''),
      (''mpi_ireduce_scatter'', ''MPI_Ireduce_scatter''),
      (''mpi_ireduce_scatter_block'', ''MPI_Ireduce_scatter_block''),
      (''mpi_iscatter'', ''MPI_Iscatter''),
      (''mpi_iscatterv'', ''MPI_Iscatterv''),
      (''mpi_iscan'', ''MPI_Iscan''),
      (''mpi_iexscan'', ''MPI_Iexscan''),
      (''mpi_comm_rank'', ''MPI_Comm_rank''),
      (''mpi_comm_size'', ''MPI_Comm_size''),
      (''mpi_query_thread'', ''MPI_Query_thread'')]"

definition Names_F :: "(string \<times> string) list" where
  "Names_F =
     [(''mpi_test'', ''mpi_test_''),
      (''mpi_testall'', ''mpi_testall_''),
      (''mpi_testany'', ''mpi_testany_''),
      (''mpi_testsome'', ''mpi_testsome_''),
      (''mpi_ibsend'', ''mpi_ibsend_''),
      (''mpi_irecv'', ''mpi_irecv_''),
      (''mpi_irsend'', ''mpi_irsend_''),
      (''mpi_issend'', ''mpi_issend_''),
      (''mpi_isend'', ''mpi_isend_''),
      (''mpi_iallgather'', ''mpi_iallgather_''),
      (''mpi_iallgatherv'', ''mpi_iallgatherv_''),
      (''mpi_iallreduce'', ''mpi_iallreduce_''),
      (''mpi_ialltoall'', ''mpi_ialltoall_''),
      (''mpi_ialltoallv'', ''mpi_ialltoallv_''),
      (''mpi_ialltoallw'', ''mpi_ialltoallw_''),
      (''mpi_ibarrier'', ''mpi_ibarrier_''),
      (''mpi_ibcast'', ''mpi_ibcast_''),
      (''mpi_igather'', ''mpi_igather_''),
      (''mpi_igatherv'', ''mpi_igatherv_''),
      (''mpi_ireduce'', ''mpi_ireduce_''),
      (''mpi_ireduce_scatter'', ''mpi_ireduce_scatter_''),
      (''mpi_ireduce_scatter_block'', ''mpi_ireduce_scatter_block_''),
      (''mpi_iscatter'', ''mpi_iscatter_''),
      (''mpi_iscatterv'', ''mpi_iscatterv_''),
      (''mpi_iscan'', ''mpi_iscan_''),
      (''mpi_iexscan'', ''mpi_iexscan_''),
      (''mpi_comm_rank'', ''mpi_comm_rank_''),
      (''mpi_comm_size'', ''mpi_comm_size_''),
      (''mpi_query_thread'', ''mpi_query_thread_'')]"

section \<open>The two bindings\<close>

text \<open>
  The binding of MPI for Fortran: a procedure without result; the parameters of type \<open>argc\<close> and \<open>argv\<close> are
  absent; buffers are addresses, every other parameter is a reference to an integer or an array of integers, and the error code
  is added at the end. A parameter declared as an array is a pointer.
\<close>

fun adjusted :: "ctype \<Rightarrow> ctype" where
  "adjusted (Arr b) = Ptr b"
| "adjusted (ConstArr b) = ConstPtr b"
| "adjusted t = t"

fun fortran_param :: "ctype \<Rightarrow> ctype" where
  "fortran_param (Ptr T_void) = Ptr T_void"
| "fortran_param (ConstPtr T_void) = Ptr T_void"
| "fortran_param _ = Ptr T_Fint"

fun without_args :: "ctype list \<Rightarrow> ctype list" where
  "without_args (Ptr T_int # Ptr3 T_char # ps) = ps"
| "without_args ps = ps"

definition fortran_of :: "prototype \<Rightarrow> prototype" where
  "fortran_of p = (Val T_void, map fortran_param (without_args (snd p)) @ [Ptr T_Fint])"

text \<open>
  The linker name of a Fortran procedure: in lower case, with an underscore at the end.
\<close>

definition to_lower :: "char \<Rightarrow> char" where
  "to_lower c = (if 65 \<le> (of_char c :: nat) \<and> (of_char c :: nat) \<le> 90 then char_of ((of_char c :: nat) + 32) else c)"

definition fortran_name :: "string \<Rightarrow> string" where
  "fortran_name n = map to_lower n @ ''_''"

text \<open>
  A non-blocking function takes what the blocking one takes and a place for the request; the status of a
  receive belongs to its completion.
\<close>

definition nonblocking_of :: "prototype \<Rightarrow> prototype" where
  "nonblocking_of p = (fst p, filter (\<lambda>t. t \<noteq> Ptr T_Status) (snd p) @ [Ptr T_Request])"

definition blocking_names :: "string list" where
  "blocking_names = [''bsend'', ''recv'', ''rsend'', ''ssend'', ''send'', ''allgather'', ''allgatherv'', ''allreduce'',
     ''alltoall'', ''alltoallv'', ''alltoallw'', ''barrier'', ''bcast'', ''gather'', ''gatherv'', ''reduce'',
     ''reduce_scatter'', ''reduce_scatter_block'', ''scatter'', ''scatterv'', ''scan'', ''exscan'']"

lemma Prototypes_fortran:
  "list_all (\<lambda>(f, p). map_option (map_prod id (map adjusted)) (map_of Prototypes_F f) = Some (fortran_of p)) Prototypes_C"
  by code_simp

lemma Prototypes_nonblocking:
  "list_all (\<lambda>f. map_option nonblocking_of (map_of Prototypes_C (''mpi_'' @ f)) = map_of Prototypes_C (''mpi_i'' @ f)) blocking_names"
  by code_simp

lemma Names_fortran: "Names_F = map (map_prod id fortran_name) Names_C"
  by code_simp

lemma Names_loaded: "set mpi_symbol_names \<subseteq> set (map snd Names_C) \<and> mpi_symbol_names_F = map fortran_name mpi_symbol_names"
  by code_simp

text \<open>
  The symbols of \<open>Interface\<close> (src/src/common/Interface.hpp): the member, the prototype that it is called with, and the member of \<open>Names\<close> that it
  is loaded by.
\<close>

definition Interface_symbols :: "(string \<times> string \<times> string) list" where
  "Interface_symbols =
     [(''mpi_test'', ''mpi_test_t'', ''mpi_test''),
      (''mpi_testall'', ''mpi_testall_t'', ''mpi_testall''),
      (''mpi_testany'', ''mpi_testany_t'', ''mpi_testany''),
      (''mpi_testsome'', ''mpi_testsome_t'', ''mpi_testsome''),
      (''mpi_comm_rank'', ''mpi_comm_rank_t'', ''mpi_comm_rank''),
      (''mpi_comm_size'', ''mpi_comm_size_t'', ''mpi_comm_size''),
      (''mpi_ibsend'', ''mpi_ibsend_t'', ''mpi_ibsend''),
      (''mpi_irecv'', ''mpi_irecv_t'', ''mpi_irecv''),
      (''mpi_irsend'', ''mpi_irsend_t'', ''mpi_irsend''),
      (''mpi_isend'', ''mpi_isend_t'', ''mpi_isend''),
      (''mpi_issend'', ''mpi_issend_t'', ''mpi_issend''),
      (''mpi_iallgather'', ''mpi_iallgather_t'', ''mpi_iallgather''),
      (''mpi_iallgatherv'', ''mpi_iallgatherv_t'', ''mpi_iallgatherv''),
      (''mpi_iallreduce'', ''mpi_iallreduce_t'', ''mpi_iallreduce''),
      (''mpi_ialltoall'', ''mpi_ialltoall_t'', ''mpi_ialltoall''),
      (''mpi_ialltoallv'', ''mpi_ialltoallv_t'', ''mpi_ialltoallv''),
      (''mpi_ialltoallw'', ''mpi_ialltoallw_t'', ''mpi_ialltoallw''),
      (''mpi_ibarrier'', ''mpi_ibarrier_t'', ''mpi_ibarrier''),
      (''mpi_ibcast'', ''mpi_ibcast_t'', ''mpi_ibcast''),
      (''mpi_igather'', ''mpi_igather_t'', ''mpi_igather''),
      (''mpi_igatherv'', ''mpi_igatherv_t'', ''mpi_igatherv''),
      (''mpi_ireduce'', ''mpi_ireduce_t'', ''mpi_ireduce''),
      (''mpi_ireduce_scatter'', ''mpi_ireduce_scatter_t'', ''mpi_ireduce_scatter''),
      (''mpi_ireduce_scatter_block'', ''mpi_ireduce_scatter_block_t'', ''mpi_ireduce_scatter_block''),
      (''mpi_iscatter'', ''mpi_iscatter_t'', ''mpi_iscatter''),
      (''mpi_iscatterv'', ''mpi_iscatterv_t'', ''mpi_iscatterv''),
      (''mpi_iscan'', ''mpi_iscan_t'', ''mpi_iscan''),
      (''mpi_iexscan'', ''mpi_iexscan_t'', ''mpi_iexscan'')]"

text \<open>A member of \<open>Prototypes\<close> is the name of its function followed by \<open>_t\<close>.\<close>

definition prototype_of :: "(string \<times> prototype) list \<Rightarrow> string \<Rightarrow> prototype option" where
  "prototype_of protos p = map_of (map (\<lambda>(f, pr). (f @ ''_t'', pr)) protos) p"

lemma Interface_symbols_agree:
  "list_all (\<lambda>(v, p, n). n = v \<and> map_of Prototypes_C v \<noteq> None \<and> prototype_of Prototypes_C p = map_of Prototypes_C v \<and> prototype_of Prototypes_F p = map_of Prototypes_F v)
     Interface_symbols"
  by code_simp

lemma Interface_symbols_loaded: "map (\<lambda>(v, p, n). map_of Names_C n) Interface_symbols = map Some mpi_symbol_names"
  by code_simp

section \<open>The interface of applications\<close>

text \<open>
  The headers of applications (src/src/include/TAMPI_Wrappers.h and TAMPI_Decl.h): a non-blocking function of the library takes what the
  blocking function of MPI takes, the status of a receive included, and returns no request.
\<close>

definition TAMPI_Wrappers :: "(string \<times> prototype) list" where
  "TAMPI_Wrappers =
     [(''TAMPI_Ibsend'', Val T_int, [ConstPtr T_void, Val T_int, Val T_Datatype, Val T_int, Val T_int, Val T_Comm]),
      (''TAMPI_Irecv'', Val T_int, [Ptr T_void, Val T_int, Val T_Datatype, Val T_int, Val T_int, Val T_Comm, Ptr T_Status]),
      (''TAMPI_Irsend'', Val T_int, [ConstPtr T_void, Val T_int, Val T_Datatype, Val T_int, Val T_int, Val T_Comm]),
      (''TAMPI_Isend'', Val T_int, [ConstPtr T_void, Val T_int, Val T_Datatype, Val T_int, Val T_int, Val T_Comm]),
      (''TAMPI_Issend'', Val T_int, [ConstPtr T_void, Val T_int, Val T_Datatype, Val T_int, Val T_int, Val T_Comm]),
      (''TAMPI_Iallgather'', Val T_int, [ConstPtr T_void, Val T_int, Val T_Datatype, Ptr T_void, Val T_int, Val T_Datatype, Val T_Comm]),
      (''TAMPI_Iallgatherv'', Val T_int, [ConstPtr T_void, Val T_int, Val T_Datatype, Ptr T_void, ConstArr T_int, ConstArr T_int, Val T_Datatype, Val T_Comm]),
      (''TAMPI_Iallreduce'', Val T_int, [ConstPtr T_void, Ptr T_void, Val T_int, Val T_Datatype, Val T_Op, Val T_Comm]),
      (''TAMPI_Ialltoall'', Val T_int, [ConstPtr T_void, Val T_int, Val T_Datatype, Ptr T_void, Val T_int, Val T_Datatype, Val T_Comm]),
      (''TAMPI_Ialltoallv'', Val T_int, [ConstPtr T_void, ConstArr T_int, ConstArr T_int, Val T_Datatype, Ptr T_void, ConstArr T_int, ConstArr T_int, Val T_Datatype, Val T_Comm]),
      (''TAMPI_Ialltoallw'', Val T_int, [ConstPtr T_void, ConstArr T_int, ConstArr T_int, ConstArr T_Datatype, Ptr T_void, ConstArr T_int, ConstArr T_int, ConstArr T_Datatype, Val T_Comm]),
      (''TAMPI_Ibarrier'', Val T_int, [Val T_Comm]),
      (''TAMPI_Ibcast'', Val T_int, [Ptr T_void, Val T_int, Val T_Datatype, Val T_int, Val T_Comm]),
      (''TAMPI_Igather'', Val T_int, [ConstPtr T_void, Val T_int, Val T_Datatype, Ptr T_void, Val T_int, Val T_Datatype, Val T_int, Val T_Comm]),
      (''TAMPI_Igatherv'', Val T_int, [ConstPtr T_void, Val T_int, Val T_Datatype, Ptr T_void, ConstArr T_int, ConstArr T_int, Val T_Datatype, Val T_int, Val T_Comm]),
      (''TAMPI_Ireduce'', Val T_int, [ConstPtr T_void, Ptr T_void, Val T_int, Val T_Datatype, Val T_Op, Val T_int, Val T_Comm]),
      (''TAMPI_Ireduce_scatter'', Val T_int, [ConstPtr T_void, Ptr T_void, ConstArr T_int, Val T_Datatype, Val T_Op, Val T_Comm]),
      (''TAMPI_Ireduce_scatter_block'', Val T_int, [ConstPtr T_void, Ptr T_void, Val T_int, Val T_Datatype, Val T_Op, Val T_Comm]),
      (''TAMPI_Iscatter'', Val T_int, [ConstPtr T_void, Val T_int, Val T_Datatype, Ptr T_void, Val T_int, Val T_Datatype, Val T_int, Val T_Comm]),
      (''TAMPI_Iscatterv'', Val T_int, [ConstPtr T_void, ConstArr T_int, ConstArr T_int, Val T_Datatype, Ptr T_void, Val T_int, Val T_Datatype, Val T_int, Val T_Comm]),
      (''TAMPI_Iscan'', Val T_int, [ConstPtr T_void, Ptr T_void, Val T_int, Val T_Datatype, Val T_Op, Val T_Comm]),
      (''TAMPI_Iexscan'', Val T_int, [ConstPtr T_void, Ptr T_void, Val T_int, Val T_Datatype, Val T_Op, Val T_Comm])]"

definition TAMPI_Decl :: "(string \<times> prototype) list" where
  "TAMPI_Decl =
     [(''TAMPI_Property_get'', Val T_int, [Val T_int, Ptr T_int]),
      (''TAMPI_Property_set'', Val T_int, [Val T_int, Val T_int]),
      (''TAMPI_Init'', Val T_int, [Val T_int, Ptr T_int]),
      (''TAMPI_Finalize'', Val T_int, []),
      (''TAMPI_Blocking_enabled'', Val T_int, [Ptr T_int]),
      (''TAMPI_Nonblocking_enabled'', Val T_int, [Ptr T_int]),
      (''TAMPI_Iwait'', Val T_int, [Ptr T_Request, Ptr T_Status]),
      (''TAMPI_Iwaitall'', Val T_int, [Val T_int, Arr T_Request, Arr T_Status])]"

definition TAMPI_Decl_F :: "(string \<times> prototype) list" where
  "TAMPI_Decl_F =
     [(''tampi_property_get_'', Val T_void, [Ptr T_Fint, Ptr T_Fint, Ptr T_Fint]),
      (''tampi_property_set_'', Val T_void, [Ptr T_Fint, Ptr T_Fint, Ptr T_Fint]),
      (''tampi_init_'', Val T_void, [Ptr T_Fint, Ptr T_Fint, Ptr T_Fint]),
      (''tampi_finalize_'', Val T_void, [Ptr T_Fint]),
      (''tampi_blocking_enabled_'', Val T_void, [Ptr T_Fint, Ptr T_Fint]),
      (''tampi_nonblocking_enabled_'', Val T_void, [Ptr T_Fint, Ptr T_Fint]),
      (''tampi_iwait_'', Val T_void, [Ptr T_Fint, Ptr T_Fint, Ptr T_Fint]),
      (''tampi_iwaitall_'', Val T_void, [Ptr T_Fint, Arr T_Fint, Ptr T_Fint, Ptr T_Fint])]"

definition tampi_name :: "string \<Rightarrow> string" where
  "tampi_name f = ''TAMPI_I'' @ f"

lemma Wrappers_complete: "set (map fst TAMPI_Wrappers) = set (map tampi_name blocking_names)"
  by code_simp

lemma Wrappers_blocking:
  "list_all (\<lambda>f. map_of TAMPI_Wrappers (tampi_name f) = map_of Prototypes_C (''mpi_'' @ f)) blocking_names"
  by code_simp

lemma Decl_fortran: "map (map_prod id (map_prod id (map adjusted))) TAMPI_Decl_F = map (map_prod fortran_name fortran_of) TAMPI_Decl"
  by code_simp

section \<open>Calls\<close>

text \<open>The function that an issued call calls and its arguments, in the order of src/src/common/Operation.cpp.\<close>

datatype (plugins only: code) call_arg = A_ptr ptr | A_int int | A_type mpi_datatype | A_op mpi_op | A_comm mpi_comm

fun icall_symbol :: "icall \<Rightarrow> string" where
  "icall_symbol (MPI_Ibsend _ _ _ _ _ _) = ''mpi_ibsend''"
| "icall_symbol (MPI_Irecv _ _ _ _ _ _) = ''mpi_irecv''"
| "icall_symbol (MPI_Irsend _ _ _ _ _ _) = ''mpi_irsend''"
| "icall_symbol (MPI_Isend _ _ _ _ _ _) = ''mpi_isend''"
| "icall_symbol (MPI_Issend _ _ _ _ _ _) = ''mpi_issend''"
| "icall_symbol (MPI_Iallgather _ _ _ _ _ _ _) = ''mpi_iallgather''"
| "icall_symbol (MPI_Iallgatherv _ _ _ _ _ _ _ _) = ''mpi_iallgatherv''"
| "icall_symbol (MPI_Iallreduce _ _ _ _ _ _) = ''mpi_iallreduce''"
| "icall_symbol (MPI_Ialltoall _ _ _ _ _ _ _) = ''mpi_ialltoall''"
| "icall_symbol (MPI_Ialltoallv _ _ _ _ _ _ _ _ _) = ''mpi_ialltoallv''"
| "icall_symbol (MPI_Ialltoallw _ _ _ _ _ _ _ _ _) = ''mpi_ialltoallw''"
| "icall_symbol (MPI_Ibarrier _) = ''mpi_ibarrier''"
| "icall_symbol (MPI_Ibcast _ _ _ _ _) = ''mpi_ibcast''"
| "icall_symbol (MPI_Iexscan _ _ _ _ _ _) = ''mpi_iexscan''"
| "icall_symbol (MPI_Igather _ _ _ _ _ _ _ _) = ''mpi_igather''"
| "icall_symbol (MPI_Igatherv _ _ _ _ _ _ _ _ _) = ''mpi_igatherv''"
| "icall_symbol (MPI_Ireduce _ _ _ _ _ _ _) = ''mpi_ireduce''"
| "icall_symbol (MPI_Ireduce_scatter _ _ _ _ _ _) = ''mpi_ireduce_scatter''"
| "icall_symbol (MPI_Ireduce_scatter_block _ _ _ _ _ _) = ''mpi_ireduce_scatter_block''"
| "icall_symbol (MPI_Iscan _ _ _ _ _ _) = ''mpi_iscan''"
| "icall_symbol (MPI_Iscatter _ _ _ _ _ _ _ _) = ''mpi_iscatter''"
| "icall_symbol (MPI_Iscatterv _ _ _ _ _ _ _ _ _) = ''mpi_iscatterv''"

fun icall_args :: "icall \<Rightarrow> call_arg list" where
  "icall_args (MPI_Ibsend x1 x2 x3 x4 x5 x6) = [A_ptr x1, A_int x2, A_type x3, A_int x4, A_int x5, A_comm x6]"
| "icall_args (MPI_Irecv x1 x2 x3 x4 x5 x6) = [A_ptr x1, A_int x2, A_type x3, A_int x4, A_int x5, A_comm x6]"
| "icall_args (MPI_Irsend x1 x2 x3 x4 x5 x6) = [A_ptr x1, A_int x2, A_type x3, A_int x4, A_int x5, A_comm x6]"
| "icall_args (MPI_Isend x1 x2 x3 x4 x5 x6) = [A_ptr x1, A_int x2, A_type x3, A_int x4, A_int x5, A_comm x6]"
| "icall_args (MPI_Issend x1 x2 x3 x4 x5 x6) = [A_ptr x1, A_int x2, A_type x3, A_int x4, A_int x5, A_comm x6]"
| "icall_args (MPI_Iallgather x1 x2 x3 x4 x5 x6 x7) = [A_ptr x1, A_int x2, A_type x3, A_ptr x4, A_int x5, A_type x6, A_comm x7]"
| "icall_args (MPI_Iallgatherv x1 x2 x3 x4 x5 x6 x7 x8) = [A_ptr x1, A_int x2, A_type x3, A_ptr x4, A_ptr x5, A_ptr x6, A_type x7, A_comm x8]"
| "icall_args (MPI_Iallreduce x1 x2 x3 x4 x5 x6) = [A_ptr x1, A_ptr x2, A_int x3, A_type x4, A_op x5, A_comm x6]"
| "icall_args (MPI_Ialltoall x1 x2 x3 x4 x5 x6 x7) = [A_ptr x1, A_int x2, A_type x3, A_ptr x4, A_int x5, A_type x6, A_comm x7]"
| "icall_args (MPI_Ialltoallv x1 x2 x3 x4 x5 x6 x7 x8 x9) = [A_ptr x1, A_ptr x2, A_ptr x3, A_type x4, A_ptr x5, A_ptr x6, A_ptr x7, A_type x8, A_comm x9]"
| "icall_args (MPI_Ialltoallw x1 x2 x3 x4 x5 x6 x7 x8 x9) = [A_ptr x1, A_ptr x2, A_ptr x3, A_ptr x4, A_ptr x5, A_ptr x6, A_ptr x7, A_ptr x8, A_comm x9]"
| "icall_args (MPI_Ibarrier x1) = [A_comm x1]"
| "icall_args (MPI_Ibcast x1 x2 x3 x4 x5) = [A_ptr x1, A_int x2, A_type x3, A_int x4, A_comm x5]"
| "icall_args (MPI_Iexscan x1 x2 x3 x4 x5 x6) = [A_ptr x1, A_ptr x2, A_int x3, A_type x4, A_op x5, A_comm x6]"
| "icall_args (MPI_Igather x1 x2 x3 x4 x5 x6 x7 x8) = [A_ptr x1, A_int x2, A_type x3, A_ptr x4, A_int x5, A_type x6, A_int x7, A_comm x8]"
| "icall_args (MPI_Igatherv x1 x2 x3 x4 x5 x6 x7 x8 x9) = [A_ptr x1, A_int x2, A_type x3, A_ptr x4, A_ptr x5, A_ptr x6, A_type x7, A_int x8, A_comm x9]"
| "icall_args (MPI_Ireduce x1 x2 x3 x4 x5 x6 x7) = [A_ptr x1, A_ptr x2, A_int x3, A_type x4, A_op x5, A_int x6, A_comm x7]"
| "icall_args (MPI_Ireduce_scatter x1 x2 x3 x4 x5 x6) = [A_ptr x1, A_ptr x2, A_ptr x3, A_type x4, A_op x5, A_comm x6]"
| "icall_args (MPI_Ireduce_scatter_block x1 x2 x3 x4 x5 x6) = [A_ptr x1, A_ptr x2, A_int x3, A_type x4, A_op x5, A_comm x6]"
| "icall_args (MPI_Iscan x1 x2 x3 x4 x5 x6) = [A_ptr x1, A_ptr x2, A_int x3, A_type x4, A_op x5, A_comm x6]"
| "icall_args (MPI_Iscatter x1 x2 x3 x4 x5 x6 x7 x8) = [A_ptr x1, A_int x2, A_type x3, A_ptr x4, A_int x5, A_type x6, A_int x7, A_comm x8]"
| "icall_args (MPI_Iscatterv x1 x2 x3 x4 x5 x6 x7 x8 x9) = [A_ptr x1, A_ptr x2, A_ptr x3, A_type x4, A_ptr x5, A_int x6, A_type x7, A_int x8, A_comm x9]"

fun has_type :: "call_arg \<Rightarrow> ctype \<Rightarrow> bool" where
  "has_type (A_ptr _) t = (\<exists>b. t = Ptr b \<or> t = ConstPtr b \<or> t = Arr b \<or> t = ConstArr b)"
| "has_type (A_int _) t = (t = Val T_int)"
| "has_type (A_type _) t = (t = Val T_Datatype)"
| "has_type (A_op _) t = (t = Val T_Op)"
| "has_type (A_comm _) t = (t = Val T_Comm)"

definition call_typed :: "icall \<Rightarrow> bool" where
  "call_typed c = (case map_of Prototypes_C (icall_symbol c) of None \<Rightarrow> False | Some (r, ps) \<Rightarrow>
     r = Val T_int \<and> (\<exists>qs. ps = qs @ [Ptr T_Request] \<and> list_all2 has_type (icall_args c) qs))"

lemma icall_typed: "call_typed c"
  by (cases c) (simp_all add: call_typed_def Prototypes_C_def)

section \<open>Properties\<close>


end
