(* ===== verification/Alpi_Interface.thy ===== *)
theory Alpi_Interface
  imports Tasking_Model
begin

text \<open>
  The interface of the tasking runtime, as src/src/common/ALPI.hpp declares and documents it, next to the
  declarations that \<open>TaskingModel\<close> calls it with (\<open>ALPISymbolDecl\<close> of src/src/common/TaskingModel.hpp, the symbols of
  src/src/common/TaskingModel.cpp). The linker does not check types: a symbol is called with the declaration of \<open>ALPISymbolDecl\<close>.
\<close>

section \<open>Errors, features and versions\<close>

datatype (plugins only: code) alpi_error_t =
  Err_success | Err_version | Err_not_initialized | Err_parameter | Err_out_of_memory | Err_outside_task | Err_unknown | Err_feature_unknown | Err_max

fun alpi_error_code :: "alpi_error_t \<Rightarrow> int" where
  "alpi_error_code Err_success = 0"
| "alpi_error_code Err_version = 1"
| "alpi_error_code Err_not_initialized = 2"
| "alpi_error_code Err_parameter = 3"
| "alpi_error_code Err_out_of_memory = 4"
| "alpi_error_code Err_outside_task = 5"
| "alpi_error_code Err_unknown = 6"
| "alpi_error_code Err_feature_unknown = 7"
| "alpi_error_code Err_max = 8"

datatype alpi_feature = Feature_blocking | Feature_events | Feature_resources | Feature_suspend

fun alpi_feature_bit :: "alpi_feature \<Rightarrow> int" where
  "alpi_feature_bit Feature_blocking = push_bit 0 1"
| "alpi_feature_bit Feature_events = push_bit 1 1"
| "alpi_feature_bit Feature_resources = push_bit 2 1"
| "alpi_feature_bit Feature_suspend = push_bit 3 1"

definition alpi_version :: "int \<times> int" where
  "alpi_version = (1, 2)"

text \<open>The constants that the model of \<open>TaskingModel\<close> uses are these.\<close>

lemma alpi_constants:
  "alpi_error_code Err_success = ALPI_SUCCESS" "alpi_error_code Err_version = ALPI_ERR_VERSION"
  "fst alpi_version = ALPI_VERSION_MAJOR" "alpi_feature_bit Feature_suspend = ALPI_FEATURE_SUSPEND"
  by (simp_all add: alpi_version_def)

section \<open>Functions\<close>

datatype (plugins only: code) alpi_type =
    Int_t | Uint64_t | Size_t | Char_t | Void_t
  | Enum string
  | Struct string
  | Function_t \<comment> \<open>a function of a \<open>void\<close> pointer that returns nothing\<close>
  | Pointer alpi_type
  | Const alpi_type

record alpi_function =
  af_name :: string
  af_returns :: alpi_type
  af_parameters :: "alpi_type list"
  af_errors :: "alpi_error_t list" \<comment> \<open>the documented ones\<close>

abbreviation task_ptr :: alpi_type where "task_ptr \<equiv> Pointer (Struct ''alpi_task'')"
abbreviation u64_ptr :: alpi_type where "u64_ptr \<equiv> Pointer Uint64_t"

definition alpi_fun :: "string \<Rightarrow> alpi_type list \<Rightarrow> alpi_error_t list \<Rightarrow> alpi_function" where
  "alpi_fun name ps errs = \<lparr>af_name = name, af_returns = Int_t, af_parameters = ps, af_errors = errs\<rparr>"

definition alpi_general_functions :: "alpi_function list" where
  "alpi_general_functions =
     [\<lparr>af_name = ''alpi_error_string'', af_returns = Pointer (Const Char_t), af_parameters = [Enum ''alpi_error_t''], af_errors = []\<rparr>,
      alpi_fun ''alpi_info_get'' [Enum ''alpi_info_t'', Pointer Char_t, Size_t, Pointer Int_t] [Err_parameter],
      alpi_fun ''alpi_feature_check'' [Int_t] [Err_feature_unknown],
      alpi_fun ''alpi_version_check'' [Int_t, Int_t] [Err_version],
      alpi_fun ''alpi_version_get'' [Pointer Int_t, Pointer Int_t] [Err_parameter]]"

definition alpi_task_functions :: "alpi_function list" where
  "alpi_task_functions =
     [alpi_fun ''alpi_task_self'' [Pointer task_ptr] [Err_parameter],
      alpi_fun ''alpi_task_block'' [task_ptr] [Err_parameter, Err_outside_task],
      alpi_fun ''alpi_task_unblock'' [task_ptr] [Err_parameter],
      alpi_fun ''alpi_task_waitfor_ns'' [Uint64_t, u64_ptr] [Err_outside_task],
      alpi_fun ''alpi_task_events_increase'' [task_ptr, Uint64_t] [Err_parameter, Err_outside_task],
      alpi_fun ''alpi_task_events_test'' [task_ptr, u64_ptr] [Err_parameter, Err_outside_task],
      alpi_fun ''alpi_task_events_decrease'' [task_ptr, Uint64_t] [Err_parameter]]"

definition alpi_attr_functions :: "alpi_function list" where
  "alpi_attr_functions =
     [alpi_fun ''alpi_attr_create'' [Pointer (Pointer (Struct ''alpi_attr''))] [Err_parameter, Err_out_of_memory],
      alpi_fun ''alpi_attr_destroy'' [Pointer (Struct ''alpi_attr'')] [Err_parameter],
      alpi_fun ''alpi_attr_init'' [Pointer (Struct ''alpi_attr'')] [Err_parameter],
      alpi_fun ''alpi_attr_size'' [u64_ptr] [Err_parameter]]"

definition alpi_spawn_functions :: "alpi_function list" where
  "alpi_spawn_functions =
     [alpi_fun ''alpi_task_spawn'' [Pointer Function_t, Pointer Void_t, Pointer Function_t, Pointer Void_t,
        Pointer (Const Char_t), Pointer (Const (Struct ''alpi_attr''))] [Err_parameter, Err_out_of_memory],
      alpi_fun ''alpi_cpu_count'' [u64_ptr] [Err_parameter],
      alpi_fun ''alpi_cpu_logical_id'' [u64_ptr] [Err_parameter, Err_outside_task],
      alpi_fun ''alpi_cpu_system_id'' [u64_ptr] [Err_parameter, Err_outside_task]]"

definition alpi_suspend_functions :: "alpi_function list" where
  "alpi_suspend_functions =
     [alpi_fun ''alpi_task_suspend_mode_set'' [task_ptr, Enum ''alpi_suspend_mode_t'', Uint64_t] [Err_parameter, Err_outside_task],
      alpi_fun ''alpi_task_suspend'' [task_ptr] [Err_parameter, Err_outside_task]]"

definition alpi_functions :: "alpi_function list" where
  "alpi_functions = alpi_general_functions @ alpi_task_functions @ alpi_attr_functions @ alpi_spawn_functions @ alpi_suspend_functions"

section \<open>The declarations of the library\<close>

type_synonym symbol_decl = "alpi_type \<times> alpi_type list"

definition ALPISymbolDecl :: "(string \<times> symbol_decl) list" where
  "ALPISymbolDecl =
     [(''alpi_error_string_t'', Pointer (Const Char_t), [Int_t]),
      (''alpi_info_get_t'', Int_t, [Enum ''alpi_info_t'', Pointer Char_t, Size_t, Pointer Int_t]),
      (''alpi_feature_check_t'', Int_t, [Int_t]),
      (''alpi_version_check_t'', Int_t, [Int_t, Int_t]),
      (''alpi_version_get_t'', Int_t, [Pointer Int_t, Pointer Int_t]),
      (''alpi_task_self_t'', Int_t, [Pointer task_ptr]),
      (''alpi_task_block_t'', Int_t, [task_ptr]),
      (''alpi_task_unblock_t'', Int_t, [task_ptr]),
      (''alpi_task_waitfor_ns_t'', Int_t, [Uint64_t, u64_ptr]),
      (''alpi_task_events_increase_t'', Int_t, [task_ptr, Uint64_t]),
      (''alpi_task_events_test_t'', Int_t, [task_ptr, u64_ptr]),
      (''alpi_task_events_decrease_t'', Int_t, [task_ptr, Uint64_t]),
      (''alpi_task_spawn_t'', Int_t, [Pointer Function_t, Pointer Void_t, Pointer Function_t, Pointer Void_t,
         Pointer (Const Char_t), Pointer (Const (Struct ''alpi_attr''))]),
      (''alpi_cpu_count_t'', Int_t, [u64_ptr]),
      (''alpi_cpu_logical_id_t'', Int_t, [u64_ptr]),
      (''alpi_cpu_system_id_t'', Int_t, [u64_ptr]),
      (''alpi_task_suspend_mode_set_t'', Int_t, [task_ptr, Enum ''alpi_suspend_mode_t'', Uint64_t]),
      (''alpi_task_suspend_t'', Int_t, [task_ptr])]"

text \<open>The symbols: the declaration, the name that is loaded, and whether errors are described by \<open>alpi_error_string\<close>.\<close>

definition alpi_symbol_table :: "(string \<times> string \<times> bool) list" where
  "alpi_symbol_table =
     [(''alpi_error_string_t'', ''alpi_error_string'', False),
      (''alpi_info_get_t'', ''alpi_info_get'', True),
      (''alpi_feature_check_t'', ''alpi_feature_check'', True),
      (''alpi_version_check_t'', ''alpi_version_check'', True),
      (''alpi_version_get_t'', ''alpi_version_get'', True),
      (''alpi_task_self_t'', ''alpi_task_self'', True),
      (''alpi_task_block_t'', ''alpi_task_block'', True),
      (''alpi_task_unblock_t'', ''alpi_task_unblock'', True),
      (''alpi_task_waitfor_ns_t'', ''alpi_task_waitfor_ns'', True),
      (''alpi_task_events_increase_t'', ''alpi_task_events_increase'', True),
      (''alpi_task_events_test_t'', ''alpi_task_events_test'', True),
      (''alpi_task_events_decrease_t'', ''alpi_task_events_decrease'', True),
      (''alpi_task_spawn_t'', ''alpi_task_spawn'', True),
      (''alpi_cpu_count_t'', ''alpi_cpu_count'', True),
      (''alpi_cpu_logical_id_t'', ''alpi_cpu_logical_id'', True),
      (''alpi_cpu_system_id_t'', ''alpi_cpu_system_id'', True),
      (''alpi_task_suspend_mode_set_t'', ''alpi_task_suspend_mode_set'', True),
      (''alpi_task_suspend_t'', ''alpi_task_suspend'', True)]"

text \<open>How a function is declared by the interface and by the library.\<close>

definition declared :: "string \<Rightarrow> symbol_decl option" where
  "declared name = map_option (\<lambda>f. (af_returns f, af_parameters f)) (find (\<lambda>f. af_name f = name) alpi_functions)"

definition called_as :: "string \<Rightarrow> symbol_decl option" where
  "called_as name = (case find (\<lambda>(_, n, _). n = name) alpi_symbol_table of
     None \<Rightarrow> None | Some (d, _, _) \<Rightarrow> map_of ALPISymbolDecl d)"

section \<open>Use of the interface\<close>

text \<open>
  When the documentation of a function allows a call to it, by the calls made before: the handle of a task is valid; at most one
  call to unblock a task precedes the matching call to block it; a task has never fewer than zero events.
\<close>

definition events_increased :: "alpi_log \<Rightarrow> task \<Rightarrow> nat" where
  "events_increased h t = sum_list (map (\<lambda>c. case c of alpi_task_events_increase u n \<Rightarrow> if u = t then unat n else 0 | _ \<Rightarrow> 0) h)"

definition events_decreased :: "alpi_log \<Rightarrow> task \<Rightarrow> nat" where
  "events_decreased h t = sum_list (map (\<lambda>c. case c of alpi_task_events_decrease u n \<Rightarrow> if u = t then unat n else 0 | _ \<Rightarrow> 0) h)"

fun call_handle :: "alpi_call \<Rightarrow> task option" where
  "call_handle (alpi_task_block t) = Some t"
| "call_handle (alpi_task_unblock t) = Some t"
| "call_handle (alpi_task_events_increase t n) = Some t"
| "call_handle (alpi_task_events_decrease t n) = Some t"
| "call_handle (alpi_task_suspend_mode_set t mode args) = Some t"
| "call_handle (alpi_task_suspend t) = Some t"
| "call_handle _ = None"

definition alpi_allowed :: "alpi_log \<Rightarrow> alpi_call \<Rightarrow> bool" where
  "alpi_allowed h c \<longleftrightarrow> call_handle c \<noteq> Some 0 \<and>
     (case c of
        alpi_task_unblock t \<Rightarrow> count_list h (alpi_task_unblock t) \<le> count_list h (alpi_task_block t)
      | alpi_task_events_decrease t n \<Rightarrow> events_decreased h t + unat n \<le> events_increased h t
      | _ \<Rightarrow> True)"

section \<open>Agreement\<close>

lemma calls_declared: "alpi_name c \<in> set (map fst (alpi_symbols True True))"
  by (cases c) (simp_all add: alpi_symbols_def)

lemma functions_declared: "list_all (\<lambda>(n, _). declared n \<noteq> None \<and> called_as n \<noteq> None) (alpi_symbols True True)"
  by code_simp

lemma declarations_differ: "filter (\<lambda>(n, _). called_as n \<noteq> declared n) (alpi_symbols True True) = [(''alpi_error_string'', True)]"
  by code_simp

lemma error_string:
  "declared ''alpi_error_string'' = Some (Pointer (Const Char_t), [Enum ''alpi_error_t''])"
  "called_as ''alpi_error_string'' = Some (Pointer (Const Char_t), [Int_t])"
  by code_simp+

lemma functions_not_loaded: "filter (\<lambda>f. af_name f \<notin> set (map fst (alpi_symbols True True))) alpi_functions = alpi_attr_functions"
  by code_simp

lemma features_distinct: "distinct (map alpi_feature_bit [Feature_blocking, Feature_events, Feature_resources, Feature_suspend])"
  by code_simp

section \<open>Properties\<close>


end
