(* ===== verification/Alpi_Use.thy ===== *)
theory Alpi_Use
  imports Process_Interleaving Prototypes Alpi_Interface
begin

text \<open>
  How a process uses the interface of the tasking runtime: the symbols that \<open>TaskingModel::initialize\<close> and
  \<open>Interface<C>::initialize\<close> load depend on the modes that are enabled, and the calls through a symbol do not check that it
  was loaded. Every call of every process goes through a loaded symbol, and the documentation of ALPI allows it at its time.
\<close>

section \<open>Loading\<close>

abbreviation loaded :: "('m, 'q, 'c) lib \<Rightarrow> string \<Rightarrow> bool" where
  "loaded L n \<equiv> hasSymbol (tms_symbols (li_tasking L) n)"

lemma Symbol_load_loads:
  "Symbol_load dlsym s attr m = Inr (b, s') \<Longrightarrow> (hasSymbol s \<longrightarrow> hasSymbol s') \<and> (m \<longrightarrow> hasSymbol s')"
  by (auto simp: Symbol_load_def hasSymbol_def Let_def fail_def split: if_splits)

lemma load_symbols_loads:
  "load_symbols dlsym syms names = Inr syms' \<Longrightarrow> (n, True) \<in> set names \<or> hasSymbol (syms n) \<Longrightarrow> hasSymbol (syms' n)"
proof (induction names arbitrary: syms)
  case (Cons nm rest)
  obtain name m where nm: "nm = (name, m)" by (cases nm)
  obtain b s where s: "Symbol_load dlsym (syms name) First m = Inr (b, s)" "load_symbols dlsym (syms(name := s)) rest = Inr syms'"
    using Cons.prems(1) nm by (auto simp: rbind_eq_Inr)
  have "(n, True) \<in> set rest \<or> hasSymbol ((syms(name := s)) n)" using Cons.prems(2) Symbol_load_loads [OF s(1)] nm by auto
  then show ?case by (rule Cons.IH [OF s(2)])
qed simp

lemma load_next_loads: "load_next dlsym syms names = Inr syms' \<Longrightarrow> n \<in> set names \<or> hasSymbol (syms n) \<Longrightarrow> hasSymbol (syms' n)"
proof (induction names arbitrary: syms)
  case (Cons name rest)
  obtain b s where s: "Symbol_load dlsym (syms name) Next True = Inr (b, s)" "load_next dlsym (syms(name := s)) rest = Inr syms'"
    using Cons.prems(1) by (auto simp: rbind_eq_Inr)
  have "n \<in> set rest \<or> hasSymbol ((syms(name := s)) n)" using Cons.prems(2) Symbol_load_loads [OF s(1)] by auto
  then show ?case by (rule Cons.IH [OF s(2)])
qed simp

text \<open>What is loaded when a mode is enabled; the function of a feature is called only when it was found.\<close>

definition modes_loaded :: "(string \<Rightarrow> symbol) \<Rightarrow> bool \<Rightarrow> bool \<Rightarrow> bool" where
  "modes_loaded syms b e \<longleftrightarrow> (\<forall>n. (n, True) \<in> set (alpi_symbols b e) \<longrightarrow> hasSymbol (syms n))"

lemma TaskingModel_initialize_loads:
  assumes "TaskingModel_initialize dlsym rt mode st h b e = Inr (st', h', wn)" "b \<or> e"
  shows "modes_loaded (tms_symbols st') b e \<and> (\<exists>calls. h' = h @ calls \<and> (\<forall>c \<in> set calls. hasSymbol (tms_symbols st' (alpi_name c)) \<and> call_handle c = None))"
proof -
  obtain syms where syms: "load_symbols dlsym (tms_symbols st) (alpi_symbols b e) = Inr syms" "tms_symbols st' = syms"
    using assms by (auto simp: TaskingModel_initialize_def rbind_eq_Inr Let_def case_prod_unfold fail_def processFailure_def split: if_splits)
  then have m: "modes_loaded syms b e" using load_symbols_loads [OF syms(1)] by (auto simp: modes_loaded_def)
  then have v: "hasSymbol (syms ''alpi_version_get'')" "hasSymbol (syms ''alpi_version_check'')"
    unfolding modes_loaded_def by (simp_all add: alpi_symbols_def)
  obtain calls where c: "h' = h @ calls" "set calls \<subseteq> {alpi_version_get, alpi_version_check 1 0, alpi_feature_check 8}"
      "alpi_feature_check 8 \<in> set calls \<Longrightarrow> hasSymbol (syms ''alpi_feature_check'')"
    using assms syms by (auto simp: TaskingModel_initialize_def rbind_eq_Inr rassert_eq_Inr Let_def case_prod_unfold fail_def processFailure_def
        alpi_checked_def callNative_def split: if_splits)
  have "hasSymbol (syms (alpi_name c)) \<and> call_handle c = None" if "c \<in> set calls" for c
    using subsetD [OF c(2) that] that c(3) v by auto
  then show ?thesis using m c(1) syms(2) by blast
qed

lemma launch_calls:
  assumes "launch P cf True h L = Inr (als, po, h')"
  shows "\<exists>calls. h' = h @ calls \<and> (\<forall>c \<in> set calls. c = alpi_cpu_count \<or> (\<exists>n. c = alpi_task_spawn n))"
  using assms
  by (auto simp: launch_def Allocator_initialize_def ObjAllocator_def Polling_initialize_def registerPolling_def getNumLogicalCPUs_def
      alpi_checked_def callNative_def processFailure_def rbind_eq_Inr fail_def Let_def case_prod_unfold split: if_splits)

lemma Environment_initialize_loads:
  assumes "Environment_initialize P cf required provided automatic L = Inr (p, L', wn)"
    and "es_blockingMode (li_state L') \<or> es_nonBlockingMode (li_state L')" "\<not> es_blockingMode (li_state L)" "\<not> es_nonBlockingMode (li_state L)"
  shows "modes_loaded (tms_symbols (li_tasking L')) (es_blockingMode (li_state L')) (es_nonBlockingMode (li_state L'))"
    "li_mpi_symbols L' = li_mpi_symbols L"
    "\<exists>calls. sy_log (li_sys L') = sy_log (li_sys L) @ calls \<and> (\<forall>c \<in> set calls. loaded L' (alpi_name c) \<and> call_handle c = None)"
proof -
  obtain initialize where i: "shouldInitialize (li_state L) automatic = Inr initialize"
    using assms(1) by (auto simp: Environment_initialize_def rbind_eq_Inr)
  have init: "initialize"
    by (rule ccontr) (use assms i in \<open>simp add: Environment_initialize_def\<close>)
  obtain tasking h1 w ins als po h where t:
    "TaskingModel_initialize (cf_dlsym cf) (pf_rt P) (cf_pollingMode cf) (li_tasking L) (sy_log (li_sys L))
       (es_blockingMode (li_state L')) (es_nonBlockingMode (li_state L')) = Inr (tasking, h1, w)"
    "launch P cf (es_blockingMode (li_state L') \<or> es_nonBlockingMode (li_state L')) h1 L = Inr (als, po, h)"
    "li_tasking L' = tasking" "li_mpi_symbols L' = li_mpi_symbols L" "sy_log (li_sys L') = h"
    using assms(1) i init by (auto simp: Environment_initialize_def rbind_eq_Inr Let_def case_prod_unfold set_log_def)
  note T = TaskingModel_initialize_loads [OF t(1) assms(2)]
  then have spawn: "loaded L' ''alpi_cpu_count''" "loaded L' ''alpi_task_spawn''"
    using t(3) by (auto simp: modes_loaded_def alpi_symbols_def)
  obtain c1 where c1: "h1 = sy_log (li_sys L) @ c1" "\<forall>c \<in> set c1. loaded L' (alpi_name c) \<and> call_handle c = None" using T t(3) by blast
  obtain c2 where c2: "h = h1 @ c2" "\<forall>c \<in> set c2. c = alpi_cpu_count \<or> (\<exists>n. c = alpi_task_spawn n)"
    using launch_calls [of P cf h1 L als po h] t(2) assms(2) by auto
  have "\<forall>c \<in> set (c1 @ c2). loaded L' (alpi_name c) \<and> call_handle c = None" using c1(2) c2(2) spawn by auto
  then show "\<exists>calls. sy_log (li_sys L') = sy_log (li_sys L) @ calls \<and> (\<forall>c \<in> set calls. loaded L' (alpi_name c) \<and> call_handle c = None)"
    using t(5) c1(1) c2(1) by (intro exI [of _ "c1 @ c2"]) simp
  show "modes_loaded (tms_symbols (li_tasking L')) (es_blockingMode (li_state L')) (es_nonBlockingMode (li_state L'))"
    "li_mpi_symbols L' = li_mpi_symbols L"
    using T t(3,4) by simp_all
qed

lemma preinitialize_loads:
  assumes "preinitialize cf nt provided L = Inr L'" "n \<in> set mpi_symbol_names"
  shows "hasSymbol (li_mpi_symbols L' n)"
proof -
  have "loadSymbols (cf_dlsym cf) (li_mpi_symbols L) = Inr (li_mpi_symbols L')"
    using assms(1) by (auto simp: preinitialize_def Interface_initialize_def rbind_eq_Inr Let_def case_prod_unfold set_mpi_def)
  then show ?thesis using load_next_loads assms(2) by (auto simp: loadSymbols_def)
qed

lemma booted_loads:
  assumes "plat_ok P" "config_ok P cf" "booted P cf nt L"
  shows "modes_loaded (tms_symbols (li_tasking L)) (es_blockingMode (li_state L)) (es_nonBlockingMode (li_state L))"
    "es_blockingMode (li_state L) \<or> es_nonBlockingMode (li_state L)"
    "\<forall>n \<in> set mpi_symbol_names. hasSymbol (li_mpi_symbols L n)" "\<forall>c \<in> set (sy_log (li_sys L)). loaded L (alpi_name c) \<and> call_handle c = None"
proof -
  obtain L0 argc argv m required tid err provided wn where b: "fresh_lib P cf L0"
    "nt_Init_thread nt argc argv (cf_THREAD_MULTIPLE cf) (li_mpi L0) = ((0, cf_THREAD_MULTIPLE cf), m)"
    "required = cf_TASK_MULTIPLE cf \<and> \<not> cf_disableBlocking cf \<or> required = cf_THREAD_MULTIPLE cf \<and> \<not> cf_disableNonBlocking cf"
    "MPI_Init_thread P cf nt tid argc argv required L0 = Inr (err, provided, L, wn)"
    using assms(3) unfolding booted_def by (elim exE conjE) (rule that)
  have L0: "li_state L0 = State cf" "sy_log (li_sys L0) = []" using b(1) by (simp_all add: fresh_lib_def)
  have modes: "es_blockingMode (li_state L) = (required = cf_TASK_MULTIPLE cf)" "es_nonBlockingMode (li_state L) = (\<not> cf_disableNonBlocking cf)"
    using MPI_Init_thread_ok [OF assms(1,2) L0(1) b(2,3), of tid] b(4) by auto
  then show en: "es_blockingMode (li_state L) \<or> es_nonBlockingMode (li_state L)" using b(3) by auto
  from b(4) obtain m pr L2 p where s: "preinitialize cf nt pr (set_mpi m L0) = Inr L2"
    "Environment_initialize P cf required pr True L2 = Inr (p, L, wn)"
    by (rule MPI_Init_thread_cases) (use en L0(1) in \<open>auto simp: State_def\<close>)
  have st: "\<not> es_blockingMode (li_state L2)" "\<not> es_nonBlockingMode (li_state L2)" "sy_log (li_sys L2) = []"
    using preinitialize_state [OF s(1)] L0 by (simp_all add: State_def)
  note E = Environment_initialize_loads [OF s(2) en st(1,2)]
  show "modes_loaded (tms_symbols (li_tasking L)) (es_blockingMode (li_state L)) (es_nonBlockingMode (li_state L))" by (rule E(1))
  show "\<forall>n \<in> set mpi_symbol_names. hasSymbol (li_mpi_symbols L n)" using preinitialize_loads [OF s(1)] E(2) by simp
  show "\<forall>c \<in> set (sy_log (li_sys L)). loaded L (alpi_name c) \<and> call_handle c = None" using E(3) st(3) by auto
qed

section \<open>Invariant\<close>

text \<open>The functions of a mode are called, and a task is inside a call, only with the mode enabled.\<close>

fun call_on :: "env_state \<Rightarrow> alpi_call \<Rightarrow> bool" where
  "call_on st (alpi_task_block t) = (t \<noteq> 0 \<and> es_blockingMode st)"
| "call_on st (alpi_task_unblock t) = (t \<noteq> 0 \<and> es_blockingMode st)"
| "call_on st (alpi_task_events_increase t n) = (t \<noteq> 0 \<and> es_nonBlockingMode st)"
| "call_on st (alpi_task_events_decrease t n) = (t \<noteq> 0 \<and> es_nonBlockingMode st)"
| "call_on st c = (call_handle c = None)"

definition mode_on :: "env_state \<Rightarrow> bool \<Rightarrow> bool" where
  "mode_on st blocking = (if blocking then es_blockingMode st else es_nonBlockingMode st)"

fun phase_on :: "env_state \<Rightarrow> task \<Rightarrow> phase \<Rightarrow> bool" where
  "phase_on st t Outside = True"
| "phase_on st t (Bound J) = (t \<noteq> 0 \<and> mode_on st (tc_blocking (job_context J)))"
| "phase_on st t (Holding J p) = (t \<noteq> 0 \<and> mode_on st (tc_blocking (job_context J)))"
| "phase_on st t Queued = (t \<noteq> 0 \<and> es_blockingMode st)"
| "phase_on st t Paused = (t \<noteq> 0 \<and> es_blockingMode st)"

definition lib_loaded :: "('m, 'q, 'c) lib \<Rightarrow> bool" where
  "lib_loaded L \<longleftrightarrow> modes_loaded (tms_symbols (li_tasking L)) (es_blockingMode (li_state L)) (es_nonBlockingMode (li_state L)) \<and>
     (\<forall>n \<in> set mpi_symbol_names. hasSymbol (li_mpi_symbols L n))"

definition use_ok :: "('m, 'q, 'c) lib \<Rightarrow> (task \<Rightarrow> phase) \<Rightarrow> bool" where
  "use_ok L ph \<longleftrightarrow> lib_loaded L \<and>
     (\<forall>c \<in> set (sy_log (li_sys L)). loaded L (alpi_name c) \<and> call_on (li_state L) c) \<and> (\<forall>t. phase_on (li_state L) t (ph t))"

lemma modes_loaded_calls:
  assumes "lib_loaded L"
  shows "loaded L ''alpi_task_self''" "loaded L ''alpi_cpu_logical_id''"
    "es_blockingMode (li_state L) \<Longrightarrow> loaded L ''alpi_task_block'' \<and> loaded L ''alpi_task_unblock''"
    "es_nonBlockingMode (li_state L) \<Longrightarrow> loaded L ''alpi_task_events_increase'' \<and> loaded L ''alpi_task_events_decrease''"
proof -
  have l: "loaded L n" if "(n, True) \<in> set (alpi_symbols (es_blockingMode (li_state L)) (es_nonBlockingMode (li_state L)))" for n
    using assms that by (simp add: lib_loaded_def modes_loaded_def)
  show "loaded L ''alpi_task_self''" "loaded L ''alpi_cpu_logical_id''" by (rule l, simp add: alpi_symbols_def)+
  show "loaded L ''alpi_task_block'' \<and> loaded L ''alpi_task_unblock''" if "es_blockingMode (li_state L)"
    using that by (intro conjI l) (simp_all add: alpi_symbols_def)
  show "loaded L ''alpi_task_events_increase'' \<and> loaded L ''alpi_task_events_decrease''" if "es_nonBlockingMode (li_state L)"
    using that by (intro conjI l) (simp_all add: alpi_symbols_def)
qed

text \<open>A step that appends calls to the log, each of them with its mode enabled.\<close>

fun ordinary :: "alpi_call \<Rightarrow> bool" where
  "ordinary alpi_task_self = True"
| "ordinary alpi_cpu_logical_id = True"
| "ordinary (alpi_task_block t) = True"
| "ordinary (alpi_task_unblock t) = True"
| "ordinary (alpi_task_events_increase t n) = True"
| "ordinary (alpi_task_events_decrease t n) = True"
| "ordinary c = False"

lemma use_ok_step:
  assumes "use_ok L ph" "sy_log s' = sy_log (li_sys L) @ calls" "\<And>c. c \<in> set calls \<Longrightarrow> ordinary c \<and> call_on (li_state L) c"
    and "\<And>t. phase_on (li_state L) t (ph' t)"
  shows "use_ok (L\<lparr>li_sys := s'\<rparr>) ph'" "use_ok (L\<lparr>li_sys := s', li_polling := po\<rparr>) ph'"
proof -
  have L: "lib_loaded L" using assms(1) by (simp add: use_ok_def)
  have "loaded L (alpi_name c)" if "c \<in> set calls" for c
    using assms(3) [OF that] modes_loaded_calls [OF L] by (cases c) simp_all
  then show "use_ok (L\<lparr>li_sys := s'\<rparr>) ph'" "use_ok (L\<lparr>li_sys := s', li_polling := po\<rparr>) ph'"
    using assms by (auto simp: use_ok_def lib_loaded_def)
qed

text \<open>The operations that are pending belong to tasks in a call, or their events were increased.\<close>

lemma pending_on:
  assumes "phases_inv P (li_sys L, ph)" "use_ok L ph" "tc \<in># sys_pending P (li_sys L)"
  shows "tc_taskHandle tc \<noteq> 0 \<and> mode_on (li_state L) (tc_blocking tc)"
proof (cases tc)
  case (fields b t)
  have acc: "accounts_ok (sys_pending P (li_sys L)) (log_history (sy_log (li_sys L))) t (ph t)"
    using assms(1) by (simp add: phases_inv_def)
  have "0 < count (sys_pending P (li_sys L)) tc" using assms(3) by simp
  then show ?thesis
  proof (cases b)
    case True
    then have "ph t = Queued \<or> ph t = Paused" using acc \<open>0 < _\<close> fields by (auto simp: accounts_ok_def split: if_splits simp flip: count_greater_zero_iff)
    moreover have "phase_on (li_state L) t (ph t)" using assms(2) by (simp add: use_ok_def)
    ultimately show ?thesis using fields True by (auto simp: mode_on_def)
  next
    case False
    then have "count_list (log_history (sy_log (li_sys L))) (Submit tc) \<noteq> 0" using acc \<open>0 < _\<close> fields by (simp add: accounts_ok_def)
    then have "Submit tc \<in> set (log_history (sy_log (li_sys L)))" by (metis count_list_0_iff)
    then obtain c where c: "c \<in> set (sy_log (li_sys L))" "Submit tc \<in> set (call_events c)" by (auto simp: log_history_def)
    then have "call_on (li_state L) c" using assms(2) by (auto simp: use_ok_def)
    then show ?thesis using c(2) fields False by (cases c) (auto simp: mode_on_def)
  qed
qed

lemma use_ok_notifies:
  assumes "phases_inv P (li_sys L, ph)" "use_ok L ph" "notifies P (li_sys L) s'"
  shows "use_ok (L\<lparr>li_sys := s', li_polling := po\<rparr>) ph"
proof -
  obtain tcs where tcs: "sy_log s' = sy_log (li_sys L) @ map completion_call tcs" "sys_pending P (li_sys L) = mset tcs + sys_pending P s'"
    using assms(3) by (auto simp: notifies_def)
  have "ordinary (completion_call tc) \<and> call_on (li_state L) (completion_call tc)" if "tc \<in> set tcs" for tc
    using pending_on [OF assms(1,2), of tc] that tcs(2) by (cases tc) (auto simp: completion_call_def mode_on_def)
  then show ?thesis using assms(2) by (intro use_ok_step(2) [OF assms(2) tcs(1)]) (auto simp: use_ok_def)
qed

lemma use_ok_task:
  assumes "task_step P (li_sys L, ph) (s', ph')" "plat_ok P" "phases_inv P (li_sys L, ph)" "use_ok L ph"
  shows "use_ok (L\<lparr>li_sys := s'\<rparr>) ph'"
proof -
  note I = assms(3) [unfolded phases_inv_def prod.case]
  have on: "phase_on (li_state L) t (ph t)" for t using assms(4) by (simp add: use_ok_def)
  show ?thesis
    using assms(1)
  proof cases
    case (alloc rt t cpu J p)
    have P': "plat_ok (as_task rt P)" "caller_ok (pf_rt (as_task rt P)) t cpu" using assms(2) alloc by simp_all
    obtain p1 s1 where a: "process_alloc (as_task rt P) J (li_sys L) = Inr (p1, s1)" "sy_log s1 = sy_log (li_sys L) @ [alpi_cpu_logical_id]"
      by (rule process_alloc_ok [OF P', of "li_sys L" J "tasks_sum held_p2p ph" "tasks_sum held_coll ph"])
        (use alloc I in \<open>simp_all add: held_ok_def\<close>)
    then have "sy_log s' = sy_log (li_sys L) @ [alpi_cpu_logical_id]" using alloc by simp
    then show ?thesis using alloc on on [of t] by (intro use_ok_step(1) [OF assms(4)]) auto
  next
    case (push rt t cpu J p env envc)
    have P': "plat_ok (as_task rt P)" "sys_ok (as_task rt P) (li_sys L)" "caller_ok (pf_rt (as_task rt P)) t cpu" using assms(2) push I by simp_all
    have "phase_ok (pf_mpi P) (li_sys L) t (ph t)" using I by (simp add: held_ok_def)
    then have p: "p \<noteq> 0" using push by simp
    obtain s1 calls where a: "process_push (as_task rt P) env envc J p (li_sys L) = ret s1" "set calls \<subseteq> {alpi_cpu_logical_id}"
      "sy_log s1 = sy_log (li_sys L) @ calls"
      by (rule process_push_ok [OF P', of J p env envc]) (use push p in simp_all)
    then have "sy_log s' = sy_log (li_sys L) @ calls" using push by simp
    then show ?thesis using push on on [of t] a(2) by (intro use_ok_step(1) [OF assms(4)]) (auto simp: mode_on_def)
  next
    case (wait rt t cpu)
    have "sy_log s' = sy_log (li_sys L) @ [alpi_task_block t]" using process_wait_ok [of "as_task rt P" t "li_sys L"] wait by simp
    then show ?thesis using wait on on [of t] by (intro use_ok_step(1) [OF assms(4)]) auto
  next
    case (resume t)
    then show ?thesis using on by (intro use_ok_step(1) [OF assms(4), where calls = "[]"]) auto
  qed
qed

lemma use_ok_enter:
  assumes "use_ok L ph" "rt_ok rt" "caller_ok rt t cpu" "status_given (pf_mpi P) call"
    and "call_job (pf_mpi P) nature call t = Some J" "process_bind (as_task rt P) nature (li_sys L) = Inr (tc, s')"
    and "mode_on (li_state L) (nature = BLK)"
  shows "use_ok (L\<lparr>li_sys := s'\<rparr>) (ph(t := Bound J))"
proof -
  have t: "t \<noteq> 0" using assms(3) by (simp add: caller_ok_def)
  let ?calls = "[alpi_task_self] @ (if nature = BLK then [] else [alpi_task_events_increase t 1])"
  have "sy_log s' = sy_log (li_sys L) @ ?calls" using process_bind_ok [of "as_task rt P" t cpu nature "li_sys L"] assms(2,3,6) by auto
  then show ?thesis
    using assms(1,7) t call_job_ok(2) [OF assms(5,4) t]
    by (intro use_ok_step(1) [OF assms(1)]) (auto simp: use_ok_def mode_on_def split: if_splits)
qed

lemma proc_step_use:
  assumes "proc_step P cf S S'" "plat_ok P" "proc_inv P S" "use_ok (fst S) (snd S)"
  shows "use_ok (fst S') (snd S')"
  using assms(1)
proof cases
  case (enter_blocking rt t cpu ph tid L call J tc s')
  then show ?thesis
    using use_ok_enter [of L ph rt t cpu P call BLK J tc s'] assms(4)
    by (simp add: mode_on_def isBlockingEnabledForCurrentThread_def isBlockingEnabled_def)
next
  case (enter_nonblocking rt t cpu ph L call J tc s')
  then show ?thesis
    using use_ok_enter [of L ph rt t cpu P call NONBLK J tc s'] assms(4) by (simp add: mode_on_def isNonBlockingEnabled_def)
next
  case (continue L ph s' ph')
  then show ?thesis using use_ok_task [of P L ph s' ph'] assms(2-4) by simp
next
  case (native_call cx L call err L' ph)
  then obtain m where "L' = set_mpi m L" using native_only_mpi by blast
  then show ?thesis using assms(4) native_call(1,2) by (simp add: set_mpi_def use_ok_def lib_loaded_def)
next
  case (poll L now period s' ctrl' wn ph)
  then show ?thesis
    using use_ok_notifies [of P L ph s'] polling_notifies [OF assms(2) _ poll(3,4)] assms(3,4) by (simp add: phases_inv_def)
next
  case (complete L period s' ctrl' ph)
  then show ?thesis
    using use_ok_notifies [of P L ph s'] completions_notifies [OF assms(2) _ complete(3,4)] assms(3,4) by (simp add: phases_inv_def)
next
  case (property tid p v L err L' ph)
  then obtain aw auto where L': "L' = L\<lparr>li_state := (li_state L)\<lparr>es_threadTaskAwareness := aw, es_autoInitialize := auto\<rparr>\<rparr>"
    using TAMPI_Property_set_state by blast
  have same: "call_on ((li_state L)\<lparr>es_threadTaskAwareness := aw, es_autoInitialize := auto\<rparr>) c = call_on (li_state L) c" for c
    by (cases c) simp_all
  have "phase_on ((li_state L)\<lparr>es_threadTaskAwareness := aw, es_autoInitialize := auto\<rparr>) t x = phase_on (li_state L) t x" for t x
    by (cases x) (simp_all add: mode_on_def)
  then show ?thesis using assms(4) property(1,2) same by (simp add: L' use_ok_def lib_loaded_def)
qed

interpretation users: preserved "\<lambda>S. plat_ok P \<and> config_ok P cf \<and> proc_start P cf nt S" "proc_step P cf"
  "\<lambda>S. plat_ok P \<and> proc_inv P S \<and> use_ok (fst S) (snd S)" for P cf nt
proof
  show "plat_ok P \<and> proc_inv P S \<and> use_ok (fst S) (snd S)" if "plat_ok P \<and> config_ok P cf \<and> proc_start P cf nt S" for S
  proof -
    note start = that
    obtain L where L: "S = (L, \<lambda>_. Outside)" "booted P cf nt L" using start by (auto simp: proc_start_def)
    have "call_on (li_state L) c" if "call_handle c = None" for c using that by (cases c) simp_all
    then show ?thesis using start procs.start_inv [of P cf nt S] booted_loads [of P cf nt L] L by (simp add: use_ok_def lib_loaded_def)
  qed
  show "plat_ok P \<and> proc_inv P S' \<and> use_ok (fst S') (snd S')"
    if "plat_ok P \<and> proc_inv P S \<and> use_ok (fst S) (snd S)" "proc_step P cf S S'" for S S'
    using proc_step_inv [OF that(2)] proc_step_use [OF that(2)] that(1) by blast
qed

section \<open>Allowed calls\<close>

lemma count_list_replicate: "count_list (replicate n x) y = (if x = y then n else 0)"
  by (induction n) auto

lemma event_counts:
  "count_list (log_history h) (Submit (evt t)) = events_increased h t"
  "count_list (log_history h) (Notify (evt t)) = events_decreased h t"
proof (induction h)
  case (Cons c h)
  { case 1 with Cons show ?case by (cases c) (auto simp: events_increased_def count_list_replicate) }
  { case 2 with Cons show ?case by (cases c) (auto simp: events_decreased_def count_list_replicate) }
qed (simp_all add: events_increased_def events_decreased_def)

lemma ordered_allowed:
  assumes "alpi_order (log_history (h @ c # h'))" "call_handle c \<noteq> Some 0"
  shows "alpi_allowed h c"
proof -
  have "prefix (log_history (h @ [c])) (log_history (h @ c # h'))" by simp
  then have o: "count_list (log_history (h @ [c])) (Notify tc) \<le> count_list (log_history (h @ [c])) (Submit tc) + (if tc_blocking tc then 1 else 0)" for tc
    using assms(1) unfolding alpi_order_def by blast
  show ?thesis
  proof (cases c)
    case (alpi_task_unblock t)
    then show ?thesis using o [of "blk t"] assms(2) by (simp add: alpi_allowed_def call_counts)
  next
    case (alpi_task_events_decrease t n)
    then show ?thesis using o [of "evt t"] assms(2) by (simp add: alpi_allowed_def event_counts count_list_replicate)
  qed (use assms(2) in \<open>simp_all add: alpi_allowed_def\<close>)
qed

lemma icall_loaded: "\<exists>n \<in> set mpi_symbol_names. map_of Names_C (icall_symbol c) = Some n"
  by (cases c) (simp_all add: Names_C_def mpi_symbol_names_def)

section \<open>Properties\<close>



end
