(* ===== verification/Ring_Interleaving.thy ===== *)
theory Ring_Interleaving
  imports Multi_Queue_Spec Reachability
begin

text \<open>
  \<open>MultiLockFreeQueue\<close> (src/src/common/util/MultiLockFreeQueue.hpp) without the assumption that a push and a pop are atomic. Each
  queue has a producer, and one consumer pops from all of them. A step is one access to memory that they share: a load of an index, a store of
  an index, or the copy of one element. The caches \<open>_available\<close> and \<open>_remaining\<close> belong to one thread each.
\<close>

section \<open>Accesses\<close>

text \<open>The two halves of \<open>unsafePush\<close> of one element: the element is stored in the slot at the head, and then the head is moved.\<close>

definition store_element :: "'a mlfq \<Rightarrow> nat \<Rightarrow> 'a \<Rightarrow> 'a mlfq" where
  "store_element s queue x =
     s\<lparr>mq_available := (mq_available s)[queue := mq_available s ! queue - 1],
       mq_data := (mq_data s)[queue := (mq_data s ! queue)[mq_head s ! queue := x]]\<rparr>"

definition store_head :: "'a mlfq \<Rightarrow> nat \<Rightarrow> 'a mlfq" where
  "store_head s queue = s\<lparr>mq_head := (mq_head s)[queue := (mq_head s ! queue + 1) mod mq_capacity s]\<rparr>"

text \<open>The parts of \<open>unsafePop\<close>: the cache is reduced, the elements are copied one by one, and then the tail is moved.\<close>

definition take_remaining :: "'a mlfq \<Rightarrow> nat \<Rightarrow> nat \<Rightarrow> 'a mlfq" where
  "take_remaining s queue n = s\<lparr>mq_remaining := (mq_remaining s)[queue := mq_remaining s ! queue - n]\<rparr>"

definition load_element :: "'a mlfq \<Rightarrow> nat \<Rightarrow> nat \<Rightarrow> nat \<Rightarrow> 'a" where
  "load_element s queue n i =
     (let data = mq_data s ! queue; tail = mq_tail s ! queue; n0 = min n (mq_capacity s - tail) in
      if i < n0 then data ! (tail + i) else data ! (i - n0))"

definition store_tail :: "'a mlfq \<Rightarrow> nat \<Rightarrow> nat \<Rightarrow> 'a mlfq" where
  "store_tail s queue n = s\<lparr>mq_tail := (mq_tail s)[queue := (mq_tail s ! queue + n) mod mq_capacity s]\<rparr>"

text \<open>One after the other they are the operations of \<open>Multi_Queue\<close>.\<close>

lemma unsafePush_accesses:
  assumes "mq_wf s" "queue < mq_queues s" "0 < mq_available s ! queue"
  shows "unsafePush s queue [x] = Inr (store_head (store_element s queue x) queue)"
proof -
  have "mq_head s ! queue < mq_capacity s" by (rule mq_wf_queueD [OF assms(1,2)])
  then have "min 1 (mq_capacity s - mq_head s ! queue) = 1" by simp
  then show ?thesis
    using assms(2,3) by (simp add: unsafePush_def store_head_def store_element_def Let_def rassert_def)
qed

lemma unsafePop_accesses:
  assumes "queue < mq_queues s" "0 < n" "n \<le> mq_remaining s ! queue"
  shows "unsafePop s queue n = Inr (map (load_element s queue n) [0..<n], store_tail (take_remaining s queue n) queue n)"
proof -
  define n0 where "n0 = min n (mq_capacity s - mq_tail s ! queue)"
  have "map (load_element s queue n) [0..<n] =
      map (\<lambda>i. mq_data s ! queue ! (mq_tail s ! queue + i)) [0..<n0] @ map (\<lambda>i. mq_data s ! queue ! i) [0..<n - n0]"
    by (rule nth_equalityI) (auto simp: load_element_def nth_append n0_def Let_def)
  then show ?thesis
    using assms by (simp add: unsafePop_def n0_def [symmetric] store_tail_def take_remaining_def Let_def rassert_def)
qed

section \<open>Threads\<close>

datatype 'a producer = Idle | Pushing 'a | Stored 'a

datatype 'a consumer = Between | Popping nat nat "'a list"

text \<open>
  Besides the queues and where the threads are: the elements whose push to each queue has returned, and those that were popped
  from it, both in order.
\<close>

record 'a rings =
  rg_queue :: "'a mlfq"
  rg_producer :: "nat \<Rightarrow> 'a producer"
  rg_consumer :: "'a consumer"
  rg_pushed :: "nat \<Rightarrow> 'a list"
  rg_popped :: "nat \<Rightarrow> 'a list"

text \<open>
  A producer calls \<open>push\<close>; with an empty cache it loads the tail to refresh it, as often as it finds
  the queue full; then it stores its element and its head. The consumer refreshes its cache of a queue by a load of the head, or pops some of the elements that
  the cache promises; which queue and how many is decided by the policy, and any choice is allowed here.
\<close>

inductive ring_step :: "'a rings \<Rightarrow> 'a rings \<Rightarrow> bool" where
  push_call: "q < mq_queues (rg_queue S) \<Longrightarrow> rg_producer S q = Idle \<Longrightarrow>
    ring_step S (S\<lparr>rg_producer := (rg_producer S)(q := Pushing x)\<rparr>)"
| push_refresh: "q < mq_queues (rg_queue S) \<Longrightarrow> rg_producer S q = Pushing x \<Longrightarrow> mq_available (rg_queue S) ! q = 0 \<Longrightarrow>
    getAvailable (rg_queue S) q = Inr a \<Longrightarrow>
    ring_step S (S\<lparr>rg_queue := (rg_queue S)\<lparr>mq_available := (mq_available (rg_queue S))[q := a]\<rparr>\<rparr>)"
| push_store: "q < mq_queues (rg_queue S) \<Longrightarrow> rg_producer S q = Pushing x \<Longrightarrow> mq_available (rg_queue S) ! q \<noteq> 0 \<Longrightarrow>
    ring_step S (S\<lparr>rg_queue := store_element (rg_queue S) q x, rg_producer := (rg_producer S)(q := Stored x)\<rparr>)"
| push_head: "q < mq_queues (rg_queue S) \<Longrightarrow> rg_producer S q = Stored x \<Longrightarrow>
    ring_step S (S\<lparr>rg_queue := store_head (rg_queue S) q, rg_producer := (rg_producer S)(q := Idle),
      rg_pushed := (rg_pushed S)(q := rg_pushed S q @ [x])\<rparr>)"
| pop_refresh: "q < mq_queues (rg_queue S) \<Longrightarrow> rg_consumer S = Between \<Longrightarrow> getRemaining (rg_queue S) q = Inr r \<Longrightarrow>
    ring_step S (S\<lparr>rg_queue := (rg_queue S)\<lparr>mq_remaining := (mq_remaining (rg_queue S))[q := r]\<rparr>\<rparr>)"
| pop_call: "q < mq_queues (rg_queue S) \<Longrightarrow> rg_consumer S = Between \<Longrightarrow> 0 < n \<Longrightarrow> n \<le> mq_remaining (rg_queue S) ! q \<Longrightarrow>
    ring_step S (S\<lparr>rg_queue := take_remaining (rg_queue S) q n, rg_consumer := Popping q n []\<rparr>)"
| pop_load: "rg_consumer S = Popping q n xs \<Longrightarrow> length xs < n \<Longrightarrow>
    ring_step S (S\<lparr>rg_consumer := Popping q n (xs @ [load_element (rg_queue S) q n (length xs)])\<rparr>)"
| pop_tail: "rg_consumer S = Popping q n xs \<Longrightarrow> length xs = n \<Longrightarrow>
    ring_step S (S\<lparr>rg_queue := store_tail (rg_queue S) q n, rg_consumer := Between,
      rg_popped := (rg_popped S)(q := rg_popped S q @ xs)\<rparr>)"

definition ring_start :: "'a rings \<Rightarrow> bool" where
  "ring_start S \<longleftrightarrow> (\<exists>maxQueues cap n mem ff. MultiLockFreeQueue maxQueues cap n mem ff = Inr (rg_queue S) \<and> 0 < n \<and> 0 < cap \<and> cap < 2 ^ 63 \<and>
       length mem = n \<and> (\<forall>d \<in> set mem. length d = cap)) \<and>
     rg_producer S = (\<lambda>_. Idle) \<and> rg_consumer S = Between \<and> rg_pushed S = (\<lambda>_. []) \<and> rg_popped S = (\<lambda>_. [])"

abbreviation ring_run :: "'a rings \<Rightarrow> bool" where
  "ring_run \<equiv> reachable ring_start ring_step"

section \<open>Rings\<close>

lemma ring_position:
  assumes "h < cap" "t < cap"
  shows "(t + ring_used cap h t) mod cap = h" "i < ring_used cap h t \<Longrightarrow> (t + i) mod cap \<noteq> h"
  using assms by (auto simp: ring_used_alt mod_less_twice split: if_splits)

text \<open>A store in the slot at the head does not touch what is queued.\<close>

lemma ring_list_store:
  assumes "h < cap" "t < cap"
  shows "ring_list cap (d[h := x]) h t = ring_list cap d h t"
proof -
  have "d[h := x] ! ((t + i) mod cap) = d ! ((t + i) mod cap)" if "i < ring_used cap h t" for i
    using ring_position(2) [OF assms that] by (metis nth_list_update_neq)
  then show ?thesis by (simp add: ring_list_def)
qed

lemma ring_list_publish:
  assumes "h < cap" "t < cap" "ring_used cap h t + 1 < cap"
  shows "ring_list cap d ((h + 1) mod cap) t = ring_list cap d h t @ [d ! h]"
  unfolding ring_list_def ring_used_push [OF assms] using ring_position(1) [OF assms(1,2)] by simp

lemma load_element_contents:
  assumes "mq_wf s" "q < mq_queues s" "n \<le> mq_used s q" "i < n"
  shows "load_element s q n i = mq_contents s q ! i"
proof -
  note Q = mq_wf_queueD [OF assms(1,2)]
  have "n \<le> ring_used (mq_capacity s) (mq_head s ! q) (mq_tail s ! q)" using assms(3) by (simp add: mq_used_def)
  note R = ring_read [OF Q(1,2) this, of "mq_data s ! q"]
  have "load_element s q n i = take n (mq_contents s q) ! i"
    unfolding mq_contents_def R [symmetric] using assms(4) by (auto simp: load_element_def Let_def nth_append)
  then show ?thesis using assms(4) by simp
qed

section \<open>Invariant\<close>

text \<open>A producer that has stored its element but not its head has one more slot in use than its head says.\<close>

fun stored :: "'a producer \<Rightarrow> nat" where
  "stored (Stored x) = 1"
| "stored _ = 0"

fun producer_ok :: "'a mlfq \<Rightarrow> nat \<Rightarrow> 'a producer \<Rightarrow> bool" where
  "producer_ok s q (Stored x) = (mq_data s ! q ! (mq_head s ! q) = x)"
| "producer_ok s q _ = True"

text \<open>What the consumer has copied is the front of the queue, which stays there until the tail is moved.\<close>

fun consumer_ok :: "'a mlfq \<Rightarrow> 'a consumer \<Rightarrow> bool" where
  "consumer_ok s Between = True"
| "consumer_ok s (Popping q n xs) = (q < mq_queues s \<and> length xs \<le> n \<and> mq_remaining s ! q + n \<le> mq_used s q \<and>
     xs = take (length xs) (mq_contents s q))"

definition ring_ok :: "'a mlfq \<Rightarrow> (nat \<Rightarrow> 'a producer) \<Rightarrow> 'a consumer \<Rightarrow> bool" where
  "ring_ok s p c \<longleftrightarrow> mq_wf s \<and> consumer_ok s c \<and>
     (\<forall>q < mq_queues s. producer_ok s q (p q) \<and> mq_available s ! q + mq_used s q + stored (p q) < mq_capacity s)"

lemma ring_okD:
  assumes "ring_ok s p c" "q < mq_queues s"
  shows "mq_wf s" "mq_head s ! q < mq_capacity s" "mq_tail s ! q < mq_capacity s" "length (mq_data s ! q) = mq_capacity s"
    "mq_remaining s ! q \<le> mq_used s q" "producer_ok s q (p q)" "mq_available s ! q + mq_used s q + stored (p q) < mq_capacity s"
  using assms mq_wf_queueD [of s q] by (auto simp: ring_ok_def)

text \<open>A step changes one queue; the others, and the threads that are not involved, are as they were.\<close>

lemma ring_ok_upd:
  assumes ok: "ring_ok s p c" and q: "q < mq_queues s"
    and eq: "mq_queues s' = mq_queues s" "mq_capacity s' = mq_capacity s" "mq_current s' = mq_current s"
      "mq_data s' = (mq_data s)[q := d]" "mq_tail s' = (mq_tail s)[q := t]" "mq_head s' = (mq_head s)[q := h]"
      "mq_remaining s' = (mq_remaining s)[q := m]" "mq_available s' = (mq_available s)[q := a]"
    and wf: "h < mq_capacity s" "t < mq_capacity s" "length d = mq_capacity s" "m \<le> ring_used (mq_capacity s) h t"
      "producer_ok s' q x" "a + ring_used (mq_capacity s) h t + stored x < mq_capacity s" "consumer_ok s' c'"
  shows "ring_ok s' (p(q := x)) c'"
proof -
  note W = mq_wfD [OF ring_okD(1) [OF ok q]]
  have at: "mq_data s' ! q = d" "mq_tail s' ! q = t" "mq_head s' ! q = h" "mq_remaining s' ! q = m" "mq_available s' ! q = a"
    using q W by (simp_all add: eq)
  then have used: "mq_used s' q = ring_used (mq_capacity s) h t" by (simp add: mq_used_def eq)
  have other: "mq_used s' i = mq_used s i" "producer_ok s' i y = producer_ok s i y" if "i \<noteq> q" for i y
    using that by (cases y; simp add: mq_used_def eq)+
  have "mq_head s' ! i < mq_capacity s \<and> mq_tail s' ! i < mq_capacity s \<and> length (mq_data s' ! i) = mq_capacity s \<and>
      mq_remaining s' ! i \<le> mq_used s' i \<and> producer_ok s' i ((p(q := x)) i) \<and>
      mq_available s' ! i + mq_used s' i + stored ((p(q := x)) i) < mq_capacity s" if "i < mq_queues s" for i
    using ring_okD [OF ok that] other [of i] wf at used by (cases "i = q") (simp_all add: eq)
  moreover from this have "mq_available s' ! i + mq_used s' i < mq_capacity s" if "i < mq_queues s" for i
    using that by (meson add_lessD1)
  ultimately show ?thesis using W wf(7) by (auto simp: ring_ok_def mq_wf_def eq)
qed

lemma consumer_ok_grows:
  assumes "consumer_ok s c" "mq_queues s' = mq_queues s" "mq_remaining s' = mq_remaining s"
    and "\<And>i. i < mq_queues s \<Longrightarrow> \<exists>zs. mq_contents s' i = mq_contents s i @ zs"
  shows "consumer_ok s' c"
proof (cases c)
  case (Popping q n xs)
  then obtain zs where zs: "mq_contents s' q = mq_contents s q @ zs" "length xs \<le> mq_used s q"
    using assms(1) assms(4) [of q] by auto
  then have "mq_used s q \<le> mq_used s' q" by (metis length_mq_contents length_append le_add1)
  then show ?thesis using assms(1-3) Popping zs by auto
qed simp

section \<open>Steps\<close>

lemma push_refresh_ok:
  assumes "ring_ok s p c" "q < mq_queues s" "p q = Pushing x" "getAvailable s q = Inr a"
  shows "ring_ok (s\<lparr>mq_available := (mq_available s)[q := a]\<rparr>) p c"
    "mq_contents (s\<lparr>mq_available := (mq_available s)[q := a]\<rparr>) i = mq_contents s i"
proof -
  note Q = ring_okD [OF assms(1,2)]
  have a: "a = mq_capacity s - 1 - mq_used s q" using getAvailable_free [OF Q(1) assms(2)] assms(4) by simp
  show cont: "mq_contents (s\<lparr>mq_available := (mq_available s)[q := a]\<rparr>) i = mq_contents s i" for i by (simp add: mq_contents_def)
  have "ring_ok (s\<lparr>mq_available := (mq_available s)[q := a]\<rparr>) (p(q := p q)) c"
    by (rule ring_ok_upd [OF assms(1,2), where d = "mq_data s ! q" and t = "mq_tail s ! q" and h = "mq_head s ! q" and m = "mq_remaining s ! q" and a = a])
      (use Q assms(1,3) a cont in \<open>auto simp: ring_ok_def mq_used_def intro: consumer_ok_grows\<close>)
  then show "ring_ok (s\<lparr>mq_available := (mq_available s)[q := a]\<rparr>) p c" by simp
qed

lemma push_store_ok:
  assumes "ring_ok s p c" "q < mq_queues s" "p q = Pushing x" "mq_available s ! q \<noteq> 0"
  shows "ring_ok (store_element s q x) (p(q := Stored x)) c" "mq_contents (store_element s q x) i = mq_contents s i"
proof -
  note Q = ring_okD [OF assms(1,2)] and W = mq_wfD [OF ring_okD(1) [OF assms(1,2)]]
  have cont: "mq_contents (store_element s q x) i = mq_contents s i" for i
    using ring_list_store [OF Q(2,3), of "mq_data s ! q" x] assms(2) W by (cases "i = q") (simp_all add: mq_contents_def store_element_def)
  then show "mq_contents (store_element s q x) i = mq_contents s i" .
  show "ring_ok (store_element s q x) (p(q := Stored x)) c"
    by (rule ring_ok_upd [OF assms(1,2), where d = "(mq_data s ! q)[mq_head s ! q := x]" and t = "mq_tail s ! q" and h = "mq_head s ! q"
          and m = "mq_remaining s ! q" and a = "mq_available s ! q - 1"])
      (use Q W assms cont consumer_ok_grows [of s c "store_element s q x"] in \<open>auto simp: ring_ok_def mq_used_def store_element_def\<close>)
qed

lemma push_head_ok:
  assumes "ring_ok s p c" "q < mq_queues s" "p q = Stored x"
  shows "ring_ok (store_head s q) (p(q := Idle)) c"
    "i < mq_queues s \<Longrightarrow> mq_contents (store_head s q) i = (if i = q then mq_contents s q @ [x] else mq_contents s i)"
proof -
  note Q = ring_okD [OF assms(1,2)] and W = mq_wfD [OF ring_okD(1) [OF assms(1,2)]]
  have room: "ring_used (mq_capacity s) (mq_head s ! q) (mq_tail s ! q) + 1 < mq_capacity s" and x: "mq_data s ! q ! (mq_head s ! q) = x"
    using Q(6,7) assms(3) by (simp_all add: mq_used_def)
  show cont: "mq_contents (store_head s q) i = (if i = q then mq_contents s q @ [x] else mq_contents s i)" if "i < mq_queues s" for i
    using ring_list_publish [OF Q(2,3) room, of "mq_data s ! q"] x assms(2) W by (simp add: mq_contents_def store_head_def)
  have "consumer_ok (store_head s q) c"
    by (rule consumer_ok_grows [of s]) (use assms(1) cont in \<open>auto simp: ring_ok_def store_head_def\<close>)
  then show "ring_ok (store_head s q) (p(q := Idle)) c"
    by (intro ring_ok_upd [OF assms(1,2), where d = "mq_data s ! q" and t = "mq_tail s ! q" and h = "(mq_head s ! q + 1) mod mq_capacity s"
          and m = "mq_remaining s ! q" and a = "mq_available s ! q"])
      (use Q W assms(3) ring_used_push [OF Q(2,3) room] in \<open>auto simp: store_head_def mq_used_def\<close>)
qed

lemma consumer_refresh_ok:
  assumes "ring_ok s p Between" "q < mq_queues s" "getRemaining s q = Inr r"
  shows "ring_ok (s\<lparr>mq_remaining := (mq_remaining s)[q := r]\<rparr>) p Between"
    "mq_contents (s\<lparr>mq_remaining := (mq_remaining s)[q := r]\<rparr>) i = mq_contents s i"
proof -
  note Q = ring_okD [OF assms(1,2)]
  have r: "r = mq_used s q" using getRemaining_used [OF Q(1) assms(2)] assms(3) by simp
  show "mq_contents (s\<lparr>mq_remaining := (mq_remaining s)[q := r]\<rparr>) i = mq_contents s i" by (simp add: mq_contents_def)
  have "ring_ok (s\<lparr>mq_remaining := (mq_remaining s)[q := r]\<rparr>) (p(q := p q)) Between"
    by (rule ring_ok_upd [OF assms(1,2), where d = "mq_data s ! q" and t = "mq_tail s ! q" and h = "mq_head s ! q" and m = r and a = "mq_available s ! q"])
      (use Q r in \<open>cases "p q"; simp add: mq_used_def\<close>)+
  then show "ring_ok (s\<lparr>mq_remaining := (mq_remaining s)[q := r]\<rparr>) p Between" by simp
qed

lemma pop_call_ok:
  assumes "ring_ok s p Between" "q < mq_queues s" "n \<le> mq_remaining s ! q"
  shows "ring_ok (take_remaining s q n) p (Popping q n [])" "mq_contents (take_remaining s q n) i = mq_contents s i"
proof -
  note Q = ring_okD [OF assms(1,2)] and W = mq_wfD [OF ring_okD(1) [OF assms(1,2)]]
  show "mq_contents (take_remaining s q n) i = mq_contents s i" by (simp add: mq_contents_def take_remaining_def)
  have "ring_ok (take_remaining s q n) (p(q := p q)) (Popping q n [])"
    by (rule ring_ok_upd [OF assms(1,2), where d = "mq_data s ! q" and t = "mq_tail s ! q" and h = "mq_head s ! q"
          and m = "mq_remaining s ! q - n" and a = "mq_available s ! q"])
      (use Q W assms(2,3) in \<open>cases "p q"; simp add: mq_used_def take_remaining_def\<close>)+
  then show "ring_ok (take_remaining s q n) p (Popping q n [])" by simp
qed

lemma pop_load_ok:
  assumes "ring_ok s p (Popping q n xs)" "length xs < n"
  shows "ring_ok s p (Popping q n (xs @ [load_element s q n (length xs)]))"
proof -
  have c: "q < mq_queues s" "mq_remaining s ! q + n \<le> mq_used s q" "xs = take (length xs) (mq_contents s q)" "mq_wf s"
    using assms(1) by (auto simp: ring_ok_def)
  have "load_element s q n (length xs) = mq_contents s q ! length xs"
    by (rule load_element_contents) (use c assms(2) in auto)
  moreover have "length xs < length (mq_contents s q)" using c(2) assms(2) by simp
  ultimately have "xs @ [load_element s q n (length xs)] = take (Suc (length xs)) (mq_contents s q)"
    using c(3) by (simp add: take_Suc_conv_app_nth)
  then show ?thesis using assms c by (auto simp: ring_ok_def)
qed

lemma pop_tail_ok:
  assumes "ring_ok s p (Popping q n xs)" "length xs = n"
  shows "ring_ok (store_tail s q n) p Between" "mq_contents s q = xs @ mq_contents (store_tail s q n) q"
    "i \<noteq> q \<Longrightarrow> mq_contents (store_tail s q n) i = mq_contents s i"
proof -
  have c: "q < mq_queues s" "mq_remaining s ! q + n \<le> mq_used s q" "xs = take n (mq_contents s q)"
    using assms by (auto simp: ring_ok_def)
  note Q = ring_okD [OF assms(1) c(1)] and W = mq_wfD [OF ring_okD(1) [OF assms(1) c(1)]]
  have n: "n \<le> ring_used (mq_capacity s) (mq_head s ! q) (mq_tail s ! q)" using c(2) by (simp add: mq_used_def)
  have "mq_contents (store_tail s q n) q = drop n (mq_contents s q)"
    using ring_list_pop [OF Q(2,3) n] c(1) W by (simp add: mq_contents_def store_tail_def)
  then show "mq_contents s q = xs @ mq_contents (store_tail s q n) q" using c(3) by simp
  show "i \<noteq> q \<Longrightarrow> mq_contents (store_tail s q n) i = mq_contents s i" by (simp add: mq_contents_def store_tail_def)
  have "ring_ok (store_tail s q n) (p(q := p q)) Between"
    by (rule ring_ok_upd [OF assms(1) c(1), where d = "mq_data s ! q" and t = "(mq_tail s ! q + n) mod mq_capacity s" and h = "mq_head s ! q"
          and m = "mq_remaining s ! q" and a = "mq_available s ! q"])
      (use Q W c(2) ring_used_pop [OF Q(2,3) n] in \<open>cases "p q"; simp add: mq_used_def store_tail_def\<close>)+
  then show "ring_ok (store_tail s q n) p Between" by simp
qed

lemma push_call_ok:
  assumes "ring_ok s p c" "p q = Idle"
  shows "ring_ok s (p(q := Pushing x)) c"
  using assms by (auto simp: ring_ok_def)

section \<open>Specification\<close>

text \<open>
  What the queues promise: for each producer a list, to which a push appends at once, and from whose front a pop takes any number
  of elements at once.
\<close>

record 'a fifos =
  ff_lists :: "nat \<Rightarrow> 'a list"
  ff_in :: "nat \<Rightarrow> 'a list"
  ff_out :: "nat \<Rightarrow> 'a list"

inductive fifo_step :: "'a fifos \<Rightarrow> 'a fifos \<Rightarrow> bool" where
  fifo_push: "fifo_step F (F\<lparr>ff_lists := (ff_lists F)(q := ff_lists F q @ [x]), ff_in := (ff_in F)(q := ff_in F q @ [x])\<rparr>)"
| fifo_pop: "ff_lists F q = xs @ ys \<Longrightarrow>
    fifo_step F (F\<lparr>ff_lists := (ff_lists F)(q := ys), ff_out := (ff_out F)(q := ff_out F q @ xs)\<rparr>)"

definition fifo_start :: "'a fifos \<Rightarrow> bool" where
  "fifo_start F \<longleftrightarrow> F = \<lparr>ff_lists = \<lambda>_. [], ff_in = \<lambda>_. [], ff_out = \<lambda>_. []\<rparr>"

definition fifo_inv :: "'a fifos \<Rightarrow> bool" where
  "fifo_inv F \<longleftrightarrow> (\<forall>q. ff_in F q = ff_out F q @ ff_lists F q)"

interpretation fifos: preserved fifo_start fifo_step fifo_inv
proof unfold_locales
  fix F F' :: "'a fifos"
  assume "fifo_inv F" "fifo_step F F'"
  from this(2,1) show "fifo_inv F'" by cases (simp_all add: fifo_inv_def)
qed (simp add: fifo_start_def fifo_inv_def)

definition ring_abs :: "'a rings \<Rightarrow> 'a fifos" where
  "ring_abs S = \<lparr>ff_lists = \<lambda>q. if q < mq_queues (rg_queue S) then mq_contents (rg_queue S) q else [],
     ff_in = rg_pushed S, ff_out = rg_popped S\<rparr>"

abbreviation rings_ok :: "'a rings \<Rightarrow> bool" where
  "rings_ok S \<equiv> ring_ok (rg_queue S) (rg_producer S) (rg_consumer S)"

lemma ring_start_ok:
  assumes "ring_start S"
  shows "rings_ok S" "fifo_start (ring_abs S)"
proof -
  obtain maxQueues cap n mem ff where
    q: "MultiLockFreeQueue maxQueues cap n mem ff = Inr (rg_queue S)" "0 < n" "0 < cap" "cap < 2 ^ 63" "length mem = n"
      "\<forall>d \<in> set mem. length d = cap"
    using assms by (auto simp: ring_start_def)
  note F = MultiLockFreeQueue_fresh [OF q]
  have "mq_contents (rg_queue S) i = []" if "i < n" for i
    using F(5) [OF that] by (metis length_mq_contents length_0_conv)
  then show "fifo_start (ring_abs S)" using assms F(3) by (simp add: fifo_start_def ring_abs_def ring_start_def fun_eq_iff)
  have "mq_available (rg_queue S) ! i = 0" if "i < n" for i
    using q(1) that by (auto simp: MultiLockFreeQueue_def fail_def dest: sym [where t = "rg_queue S"] split: if_splits)
  then show "rings_ok S" using assms F q(3) by (simp add: ring_ok_def ring_start_def mq_ok_def)
qed

lemma ring_step_ok:
  assumes "ring_step S S'" "rings_ok S"
  shows "rings_ok S'"
  using assms by cases (auto dest: push_call_ok push_refresh_ok(1) push_store_ok(1) push_head_ok(1) consumer_refresh_ok(1) pop_call_ok(1)
      pop_load_ok pop_tail_ok(1))

lemma ring_step_abs:
  assumes "rings_ok S" "ring_step S S'"
  shows "ring_abs S' = ring_abs S \<or> fifo_step (ring_abs S) (ring_abs S')"
  using assms(2,1)
proof cases
  case (push_head q x)
  note ok = push_head_ok [OF assms(1) push_head(2,3)]
  have "ring_abs S' = (ring_abs S)\<lparr>ff_lists := (ff_lists (ring_abs S))(q := ff_lists (ring_abs S) q @ [x]),
      ff_in := (ff_in (ring_abs S))(q := ff_in (ring_abs S) q @ [x])\<rparr>"
    using push_head ok(2) by (auto simp: ring_abs_def fun_eq_iff store_head_def)
  then show ?thesis by (metis fifo_push)
next
  case (pop_tail q n xs)
  have q: "q < mq_queues (rg_queue S)" using assms(1) pop_tail(2) by (simp add: ring_ok_def)
  note ok = pop_tail_ok [OF assms(1) [unfolded pop_tail(2)] pop_tail(3)]
  have "ring_abs S' = (ring_abs S)\<lparr>ff_lists := (ff_lists (ring_abs S))(q := mq_contents (store_tail (rg_queue S) q n) q),
      ff_out := (ff_out (ring_abs S))(q := ff_out (ring_abs S) q @ xs)\<rparr>"
    using pop_tail(1) ok(3) q by (auto simp: ring_abs_def fun_eq_iff store_tail_def)
  moreover have "ff_lists (ring_abs S) q = xs @ mq_contents (store_tail (rg_queue S) q n) q"
    using ok(2) q by (simp add: ring_abs_def)
  ultimately show ?thesis by (metis fifo_pop)
qed (use push_refresh_ok(2) [OF assms(1)] push_store_ok(2) [OF assms(1)] consumer_refresh_ok(2) pop_call_ok(2) assms(1) in
    \<open>auto simp: ring_abs_def fun_eq_iff store_element_def take_remaining_def\<close>)

interpretation rings: refinement ring_start ring_step rings_ok fifo_start fifo_step ring_abs
proof unfold_locales
  fix S S' :: "'a rings"
  assume "rings_ok S" "ring_step S S'"
  from ring_step_abs [OF this] show "fifo_step\<^sup>*\<^sup>* (ring_abs S) (ring_abs S')" by auto
qed (auto simp: ring_start_ok ring_step_ok)

section \<open>Properties\<close>

text \<open>
  (C13) Whatever the interleaving of the producers and the consumer, access by access, the queues are lists to which a push appends at
  once and from whose front a pop takes at once: the elements whose push to a queue has returned, in their order, are those
  popped from it followed by those in its ring. None is lost, duplicated, reordered or overwritten while it is copied.
\<close>

theorem ring_refines_fifo:
  assumes "ring_run S"
  shows "reachable fifo_start fifo_step (ring_abs S) \<and> mq_wf (rg_queue S) \<and>
    (\<forall>q. q < mq_queues (rg_queue S) \<longrightarrow> rg_pushed S q = rg_popped S q @ mq_contents (rg_queue S) q)"
proof -
  have spec: "reachable fifo_start fifo_step (ring_abs S)" by (rule rings.reachable_spec [OF assms])
  have "mq_wf (rg_queue S)" using rings.reachable_inv [OF assms] by (simp add: ring_ok_def)
  moreover have "rg_pushed S q = rg_popped S q @ mq_contents (rg_queue S) q" if "q < mq_queues (rg_queue S)" for q
    using fifos.reachable_inv [OF spec] that by (simp add: fifo_inv_def ring_abs_def split: if_splits)
  ultimately show ?thesis using spec by blast
qed

text \<open>
  One queue of three slots: the producer is about to move its head for a second element while the consumer, which has
  copied the first, has not moved its tail yet.
\<close>

definition sample_ring :: "nat rings" where
  "sample_ring =
     \<lparr>rg_queue = \<lparr>mq_capacity = 3, mq_queues = 1, mq_data = [[7, 8, 0]], mq_fullFailure = True, mq_tail = [0], mq_remaining = [0],
        mq_head = [1], mq_available = [0], mq_totalRemaining = 0, mq_current = 0\<rparr>,
      rg_producer = (\<lambda>_. Idle)(0 := Stored 8), rg_consumer = Popping 0 1 [7], rg_pushed = (\<lambda>_. [])(0 := [7]), rg_popped = \<lambda>_. []\<rparr>"

lemma sample_ring_run: "ring_run sample_ring"
proof -
  let ?d = "\<lparr>mq_capacity = 3, mq_queues = 1, mq_data = [[0, 0, 0]], mq_fullFailure = True, mq_tail = [0], mq_remaining = [0],
    mq_head = [0], mq_available = [0], mq_totalRemaining = 0, mq_current = 0\<rparr> :: nat mlfq"
  let ?s0 = "\<lparr>rg_queue = ?d, rg_producer = \<lambda>_. Idle, rg_consumer = Between, rg_pushed = \<lambda>_. [], rg_popped = \<lambda>_. []\<rparr>"
  let ?s1 = "?s0\<lparr>rg_producer := (\<lambda>_. Idle)(0 := Pushing 7)\<rparr>"
  let ?s2 = "?s1\<lparr>rg_queue := ?d\<lparr>mq_available := [2]\<rparr>\<rparr>"
  let ?s3 = "?s2\<lparr>rg_queue := ?d\<lparr>mq_available := [1], mq_data := [[7, 0, 0]]\<rparr>, rg_producer := (\<lambda>_. Idle)(0 := Stored 7)\<rparr>"
  let ?s4 = "?s3\<lparr>rg_queue := ?d\<lparr>mq_available := [1], mq_data := [[7, 0, 0]], mq_head := [1]\<rparr>, rg_producer := (\<lambda>_. Idle)(0 := Idle),
    rg_pushed := (\<lambda>_. [])(0 := [7])\<rparr>"
  let ?s5 = "?s4\<lparr>rg_queue := ?d\<lparr>mq_available := [1], mq_data := [[7, 0, 0]], mq_head := [1], mq_remaining := [1]\<rparr>\<rparr>"
  let ?s6 = "?s5\<lparr>rg_producer := (\<lambda>_. Idle)(0 := Pushing 8)\<rparr>"
  let ?s7 = "?s6\<lparr>rg_queue := ?d\<lparr>mq_available := [1], mq_data := [[7, 0, 0]], mq_head := [1]\<rparr>, rg_consumer := Popping 0 1 []\<rparr>"
  let ?s8 = "?s7\<lparr>rg_queue := ?d\<lparr>mq_data := [[7, 8, 0]], mq_head := [1]\<rparr>, rg_producer := (\<lambda>_. Idle)(0 := Stored 8)\<rparr>"
  have "ring_start ?s0" unfolding ring_start_def
    by (intro conjI exI [of _ "1"] exI [of _ "3"] exI [of _ "[[0, 0, 0]]"] exI [of _ "True"])
      (simp_all add: MultiLockFreeQueue_def)
  then have "ring_run ?s0" by (rule reach_start)
  then have "ring_run ?s1" by (rule reach_step) (use push_call [of 0 ?s0 7] in simp)
  then have "ring_run ?s2"
    by (rule reach_step) (use push_refresh [of 0 ?s1 7 2] in \<open>simp add: getAvailable_def getRemaining_def rassert_def\<close>)
  then have "ring_run ?s3" by (rule reach_step) (use push_store [of 0 ?s2 7] in \<open>simp add: store_element_def\<close>)
  then have "ring_run ?s4" by (rule reach_step) (use push_head [of 0 ?s3 7] in \<open>simp add: store_head_def\<close>)
  then have "ring_run ?s5" by (rule reach_step) (use pop_refresh [of 0 ?s4 1] in \<open>simp add: getRemaining_def rassert_def\<close>)
  then have "ring_run ?s6" by (rule reach_step) (use push_call [of 0 ?s5 8] in simp)
  then have "ring_run ?s7" by (rule reach_step) (use pop_call [of 0 ?s6 1] in \<open>simp add: take_remaining_def\<close>)
  then have "ring_run ?s8" by (rule reach_step) (use push_store [of 0 ?s7 8] in \<open>simp add: store_element_def\<close>)
  then show ?thesis
    by (rule reach_step) (use pop_load [of ?s8 0 1 "[]"] in \<open>simp add: load_element_def sample_ring_def\<close>)
qed

theorem ring_refines_fifo_witness:
  "ring_run sample_ring \<and> rg_consumer sample_ring = Popping 0 1 [7] \<and>
   rg_pushed sample_ring 0 = rg_popped sample_ring 0 @ mq_contents (rg_queue sample_ring) 0"
  using ring_refines_fifo [OF sample_ring_run] sample_ring_run by (simp add: sample_ring_def)

end
