(* ===== verification/Operation_Typing.thy ===== *)
theory Operation_Typing
  imports Operation
begin

text \<open>
  Types of operations. The unions of \<open>CollOperation\<close> carry no tag: which member of a count, a displacement or
  a datatype was written depends on the constructor that the caller chose, and which one is read depends on the code of the
  operation in \<open>CollOperation::issue\<close>. The signature of a code says what it reads; an operation is
  typed when its members were written accordingly.
\<close>

datatype member_use = Unread | Single | Many

record signature =
  sg_sendcount :: member_use
  sg_senddispls :: bool
  sg_sendtype :: member_use
  sg_recvcount :: member_use
  sg_recvdispls :: bool
  sg_recvtype :: member_use

text \<open>The common shapes: a regular exchange, a reduction, and the sides of the exchanges with arrays.\<close>

definition exchange :: signature where
  "exchange = \<lparr>sg_sendcount = Single, sg_senddispls = False, sg_sendtype = Single,
     sg_recvcount = Single, sg_recvdispls = False, sg_recvtype = Single\<rparr>"

definition reduction :: signature where
  "reduction = exchange\<lparr>sg_recvcount := Unread, sg_recvtype := Unread\<rparr>"

definition many_sends :: "signature \<Rightarrow> signature" where
  "many_sends g = g\<lparr>sg_sendcount := Many, sg_senddispls := True\<rparr>"

definition many_receives :: "signature \<Rightarrow> signature" where
  "many_receives g = g\<lparr>sg_recvcount := Many, sg_recvdispls := True\<rparr>"

definition signature_of :: "OpCode \<Rightarrow> signature option" where
  "signature_of code = (case code of
     ALLGATHER \<Rightarrow> Some exchange
   | ALLGATHERV \<Rightarrow> Some (many_receives exchange)
   | ALLREDUCE \<Rightarrow> Some reduction
   | ALLTOALL \<Rightarrow> Some exchange
   | ALLTOALLV \<Rightarrow> Some (many_sends (many_receives exchange))
   | ALLTOALLW \<Rightarrow> Some ((many_sends (many_receives exchange))\<lparr>sg_sendtype := Many, sg_recvtype := Many\<rparr>)
   | BARRIER \<Rightarrow> Some (reduction\<lparr>sg_sendcount := Unread, sg_sendtype := Unread\<rparr>)
   | BCAST \<Rightarrow> Some (exchange\<lparr>sg_sendcount := Unread, sg_sendtype := Unread\<rparr>)
   | EXSCAN \<Rightarrow> Some reduction
   | GATHER \<Rightarrow> Some exchange
   | GATHERV \<Rightarrow> Some (many_receives exchange)
   | REDUCE \<Rightarrow> Some reduction
   | REDUCESCATTER \<Rightarrow> Some (reduction\<lparr>sg_sendcount := Unread, sg_recvcount := Many\<rparr>)
   | REDUCESCATTERBLOCK \<Rightarrow> Some (reduction\<lparr>sg_sendcount := Unread, sg_recvcount := Single\<rparr>)
   | SCAN \<Rightarrow> Some reduction
   | SCATTER \<Rightarrow> Some exchange
   | SCATTERV \<Rightarrow> Some (many_sends exchange)
   | _ \<Rightarrow> None)"

fun count_typed :: "count_union \<Rightarrow> member_use \<Rightarrow> bool" where
  "count_typed c Unread = True"
| "count_typed c Single = (case c of Count _ \<Rightarrow> True | Counts _ \<Rightarrow> False)"
| "count_typed c Many = (case c of Count _ \<Rightarrow> False | Counts _ \<Rightarrow> True)"

fun type_typed :: "type_union \<Rightarrow> member_use \<Rightarrow> bool" where
  "type_typed t Unread = True"
| "type_typed t Single = (case t of Type _ \<Rightarrow> True | Types _ \<Rightarrow> False)"
| "type_typed t Many = (case t of Type _ \<Rightarrow> False | Types _ \<Rightarrow> True)"

definition coll_typed :: "CollOperation \<Rightarrow> bool" where
  "coll_typed opn = (case signature_of (co_code opn) of None \<Rightarrow> False | Some g \<Rightarrow>
     count_typed (co_sendcount opn) (sg_sendcount g) \<and> (sg_senddispls g \<longrightarrow> co_senddispls opn \<noteq> None) \<and>
     type_typed (co_sendtype opn) (sg_sendtype g) \<and>
     count_typed (co_recvcount opn) (sg_recvcount g) \<and> (sg_recvdispls g \<longrightarrow> co_recvdispls opn \<noteq> None) \<and>
     type_typed (co_recvtype opn) (sg_recvtype g))"

text \<open>The codes of point-to-point operations, the only ones that \<open>Operation::issue\<close> accepts.\<close>

definition op_typed :: "Operation \<Rightarrow> bool" where
  "op_typed opn = (op_code opn \<in> {BSEND, RECV, RSEND, SEND, SSEND})"

lemmas signature_defs = exchange_def reduction_def many_sends_def many_receives_def

lemma op_typed_iff: "\<not> isl (op_call opn) \<longleftrightarrow> op_typed opn"
  by (cases "op_code opn") (simp_all add: op_call_def op_typed_def Let_def fail_def)

lemma isl_rbind_reads [simp]:
  "isl (rbind (rd_count c) f) = (case c of Count n \<Rightarrow> isl (f n) | Counts _ \<Rightarrow> True)"
  "isl (rbind (rd_counts c) g) = (case c of Count _ \<Rightarrow> True | Counts p \<Rightarrow> isl (g p))"
  "isl (rbind (rd_type t) h) = (case t of Type d \<Rightarrow> isl (h d) | Types _ \<Rightarrow> True)"
  "isl (rbind (rd_types t) k) = (case t of Type _ \<Rightarrow> True | Types p \<Rightarrow> isl (k p))"
  "isl (rbind (rd_displs d) l) = (case d of Some p \<Rightarrow> isl (l p) | None \<Rightarrow> True)"
  by (simp_all split: count_union.split type_union.split option.split)

text \<open>Progress: the code of an operation reads only members that were written, and no other operation has a call.\<close>

lemma coll_typed_iff: "\<not> isl (coll_call opn) \<longleftrightarrow> coll_typed opn"
  by (cases "co_code opn")
    (auto simp: coll_call_def coll_typed_def signature_of_def signature_defs Let_def fail_def
      split: count_union.split type_union.split option.split)

end
