(* ===== verification/Spin_Lock.thy ===== *)
theory Spin_Lock
  imports Reachability
begin

text \<open>
  \<open>SpinLock\<close> (src/src/common/util/SpinLock.hpp): a ticket lock whose waiting threads spin on the slots
  of a circular array. The counters are 64-bit words. Each atomic access of the source is one
  function here, and the interleaving of the threads is a step relation.
\<close>

section \<open>The atomic actions\<close>

abbreviation Slots :: nat where "Slots \<equiv> 64" \<comment> \<open>\<open>Size\<close>, which is \<open>MaxSystemCPUs\<close>\<close>

record spinlock =
  sl_buffer :: "u64 list"
  sl_head :: u64
  sl_next :: u64

definition SpinLock :: spinlock where
  "SpinLock = \<lparr>sl_buffer = replicate Slots 0, sl_head = 0, sl_next = 0\<rparr>"

definition slot :: "u64 \<Rightarrow> nat" where
  "slot ticket = unat (ticket mod of_nat Slots)"

text \<open>\<open>lock\<close>: the ticket, and the condition the thread spins for.\<close>

definition lock_ticket :: "spinlock \<Rightarrow> u64 \<times> spinlock" where
  "lock_ticket s = (sl_head s, s\<lparr>sl_head := sl_head s + 1\<rparr>)"

definition lock_ready :: "spinlock \<Rightarrow> u64 \<Rightarrow> bool" where
  "lock_ready s head \<longleftrightarrow> sl_buffer s ! slot head = head"

text \<open>\<open>try_lock\<close>: the head it loads, the test of the slot, and the compare-and-exchange.\<close>

definition try_exchange :: "spinlock \<Rightarrow> u64 \<Rightarrow> bool \<times> spinlock" where
  "try_exchange s head =
     (if sl_head s = head then (True, s\<lparr>sl_head := head + 1\<rparr>) else (False, s))"

text \<open>\<open>unlock\<close>: the increment of \<open>_next\<close>, which only the owner accesses, and the store.\<close>

definition unlock_next :: "spinlock \<Rightarrow> spinlock" where
  "unlock_next s = s\<lparr>sl_next := sl_next s + 1\<rparr>"

definition unlock_store :: "spinlock \<Rightarrow> spinlock" where
  "unlock_store s = s\<lparr>sl_buffer := (sl_buffer s)[slot (sl_next s) := sl_next s]\<rparr>"

section \<open>Threads\<close>

datatype lock_pc =
    Idle
  | Spinning u64   \<comment> \<open>in the loop of \<open>lock\<close>, with its ticket\<close>
  | Loaded u64     \<comment> \<open>in \<open>try_lock\<close>, after the load of \<open>_head\<close>\<close>
  | Tested u64     \<comment> \<open>in \<open>try_lock\<close>, after the test of the slot\<close>
  | Owner          \<comment> \<open>in the critical section\<close>
  | Releasing      \<comment> \<open>in \<open>unlock\<close>, between the increment and the store\<close>

text \<open>
  One step of the thread \<open>i\<close>; the last component counts the acquisitions that were started or done,
  which is what the 64-bit head counts.
\<close>

inductive spin_step :: "spinlock \<times> (nat \<Rightarrow> lock_pc) \<times> nat \<Rightarrow> spinlock \<times> (nat \<Rightarrow> lock_pc) \<times> nat \<Rightarrow> bool" where
  take_ticket: "pc i = Idle \<Longrightarrow> lock_ticket s = (t, s') \<Longrightarrow> spin_step (s, pc, n) (s', pc(i := Spinning t), n + 1)"
| spin: "pc i = Spinning t \<Longrightarrow> \<not> lock_ready s t \<Longrightarrow> spin_step (s, pc, n) (s, pc, n)"
| enter: "pc i = Spinning t \<Longrightarrow> lock_ready s t \<Longrightarrow> spin_step (s, pc, n) (s, pc(i := Owner), n)"
| try_load: "pc i = Idle \<Longrightarrow> spin_step (s, pc, n) (s, pc(i := Loaded (sl_head s)), n)"
| try_busy: "pc i = Loaded t \<Longrightarrow> \<not> lock_ready s t \<Longrightarrow> spin_step (s, pc, n) (s, pc(i := Idle), n)"
| try_free: "pc i = Loaded t \<Longrightarrow> lock_ready s t \<Longrightarrow> spin_step (s, pc, n) (s, pc(i := Tested t), n)"
| try_win: "pc i = Tested t \<Longrightarrow> try_exchange s t = (True, s') \<Longrightarrow> spin_step (s, pc, n) (s', pc(i := Owner), n + 1)"
| try_lose: "pc i = Tested t \<Longrightarrow> try_exchange s t = (False, s') \<Longrightarrow> spin_step (s, pc, n) (s', pc(i := Idle), n)"
| release: "pc i = Owner \<Longrightarrow> spin_step (s, pc, n) (unlock_next s, pc(i := Releasing), n)"
| publish: "pc i = Releasing \<Longrightarrow> spin_step (s, pc, n) (unlock_store s, pc(i := Idle), n)"

abbreviation spin_start :: "spinlock \<times> (nat \<Rightarrow> lock_pc) \<times> nat \<Rightarrow> bool" where
  "spin_start x \<equiv> x = (SpinLock, \<lambda>_. Idle, 0)"

abbreviation spin_reach :: "spinlock \<times> (nat \<Rightarrow> lock_pc) \<times> nat \<Rightarrow> bool" where
  "spin_reach \<equiv> reachable spin_start spin_step"

section \<open>Invariant\<close>

text \<open>
  \<open>m\<close> is the number of releases that were published and \<open>n\<close> the number of tickets. The slot of a
  published release holds its number; the tickets that are not served yet are those from \<open>m\<close> on,
  each held by one thread; the owner, or the thread that is releasing, holds ticket \<open>m\<close>.
\<close>

definition last_in_slot :: "nat \<Rightarrow> nat \<Rightarrow> nat" where
  "last_in_slot m k = (if k \<le> m then m - (m - k) mod Slots else 0)"

definition holds :: "(nat \<Rightarrow> lock_pc) \<Rightarrow> nat \<Rightarrow> nat \<Rightarrow> nat \<Rightarrow> bool" where
  "holds pc m i t \<longleftrightarrow>
     (case pc i of Spinning w \<Rightarrow> unat w = t | Owner \<Rightarrow> t = m | Releasing \<Rightarrow> t = m | _ \<Rightarrow> False)"

definition spin_inv :: "spinlock \<Rightarrow> (nat \<Rightarrow> lock_pc) \<Rightarrow> nat \<Rightarrow> nat \<Rightarrow> bool" where
  "spin_inv s pc n m \<longleftrightarrow>
     n < 2 ^ 64 \<and> m \<le> n \<and> unat (sl_head s) = n \<and>
     unat (sl_next s) = (if \<exists>i. pc i = Releasing then m + 1 else m) \<and>
     length (sl_buffer s) = Slots \<and> (\<forall>k < Slots. unat (sl_buffer s ! k) = last_in_slot m k) \<and>
     (\<forall>t. m \<le> t \<and> t < n \<longrightarrow> (\<exists>!i. holds pc m i t)) \<and>
     (\<forall>i t. holds pc m i t \<longrightarrow> m \<le> t \<and> t < n) \<and>
     (\<forall>i t. pc i = Loaded t \<longrightarrow> unat t \<le> n) \<and> (\<forall>i t. pc i = Tested t \<longrightarrow> unat t \<le> m)"

lemma slot_unat: "slot w = unat w mod Slots"
  by (simp add: slot_def unat_mod)

lemma last_in_slot_le: "last_in_slot m k \<le> m"
  by (simp add: last_in_slot_def)

lemma last_in_slot_self: "last_in_slot m (m mod Slots) = m"
proof -
  have "(m - m mod Slots) mod Slots = 0" by (simp add: minus_mod_eq_mult_div)
  then show ?thesis by (simp add: last_in_slot_def)
qed

lemma last_in_slot_Suc:
  assumes "k < Slots"
  shows "last_in_slot (Suc m) k = (if k = Suc m mod Slots then Suc m else last_in_slot m k)"
proof (cases "k = Suc m mod Slots")
  case True
  then show ?thesis using last_in_slot_self [of "Suc m"] by simp
next
  case False
  consider "k \<le> m" | "k = Suc m" | "Suc m < k" by linarith
  then show ?thesis
  proof cases
    case 1
    let ?d = "m - k"
    have "Suc ?d mod Slots \<noteq> 0"
    proof
      assume z: "Suc ?d mod Slots = 0"
      have "Suc m = Suc ?d + k" using 1 by simp
      then have "Suc m mod Slots = k" using z assms by (metis add_0 mod_add_left_eq mod_less)
      with False show False by simp
    qed
    then have "Suc ?d mod Slots = Suc (?d mod Slots)" by (simp add: mod_Suc split: if_splits)
    moreover have "?d mod Slots \<le> m" by (meson diff_le_self le_trans mod_less_eq_dividend)
    ultimately show ?thesis using 1 False by (simp add: last_in_slot_def Suc_diff_le)
  next
    case 2
    then show ?thesis using assms False by simp
  qed (use False in \<open>simp add: last_in_slot_def\<close>)
qed

text \<open>A slot that shows a ticket shows one that was published.\<close>

lemma ready_published:
  assumes "spin_inv s pc n m" "lock_ready s t"
  shows "unat t \<le> m"
proof -
  have "slot t < Slots" by (simp add: slot_unat)
  then have "unat (sl_buffer s ! slot t) = last_in_slot m (slot t)"
    using assms(1) by (simp add: spin_inv_def)
  moreover have "sl_buffer s ! slot t = t" using assms(2) by (simp add: lock_ready_def)
  ultimately show ?thesis using last_in_slot_le [of m "slot t"] by simp
qed

lemma spin_inv_init: "spin_inv SpinLock (\<lambda>_. Idle) 0 0"
  by (simp add: spin_inv_def SpinLock_def last_in_slot_def holds_def)

text \<open>The facts of the invariant that the steps use.\<close>

lemma spin_invD:
  assumes "spin_inv s pc n m"
  shows "n < 2 ^ 64" "m \<le> n" "unat (sl_head s) = n"
    "unat (sl_next s) = (if \<exists>i. pc i = Releasing then m + 1 else m)" "length (sl_buffer s) = Slots"
    "\<And>k. k < Slots \<Longrightarrow> unat (sl_buffer s ! k) = last_in_slot m k"
    "\<And>t. m \<le> t \<Longrightarrow> t < n \<Longrightarrow> \<exists>!i. holds pc m i t" "\<And>i t. holds pc m i t \<Longrightarrow> m \<le> t \<and> t < n"
    "\<And>i t. pc i = Loaded t \<Longrightarrow> unat t \<le> n" "\<And>i t. pc i = Tested t \<Longrightarrow> unat t \<le> m"
  using assms by (auto simp: spin_inv_def)

lemma holds_unique: "spin_inv s pc n m \<Longrightarrow> holds pc m i t \<Longrightarrow> holds pc m j t \<Longrightarrow> i = j"
  using spin_invD(7,8) by blast

lemma holds_upd:
  "holds (pc(i := c)) m j t \<longleftrightarrow> (if j = i
     then (case c of Spinning w \<Rightarrow> unat w = t | Owner \<Rightarrow> t = m | Releasing \<Rightarrow> t = m | _ \<Rightarrow> False) else holds pc m j t)"
  by (simp add: holds_def)

lemma unat_Suc64: "unat (w :: u64) + 1 < 2 ^ 64 \<Longrightarrow> unat (w + 1) = unat w + 1"
  by (simp add: unat_word_ariths)

text \<open>A new holder of ticket \<open>n\<close>: both ways to take the lock end here.\<close>

lemma spin_inv_take:
  assumes inv: "spin_inv s pc n m" and n: "n + 1 < 2 ^ 64"
    and i: "\<And>t. \<not> holds pc m i t" "pc i \<noteq> Releasing"
    and c: "c = Spinning (sl_head s) \<or> c = Owner \<and> m = n"
  shows "spin_inv (s\<lparr>sl_head := sl_head s + 1\<rparr>) (pc(i := c)) (n + 1) m"
proof -
  note D = spin_invD [OF inv]
  have h: "holds (pc(i := c)) m j t \<longleftrightarrow> (if j = i then t = n else holds pc m j t)" for j t
    using c D(3) by (auto simp: holds_upd)
  have "\<exists>!j. holds (pc(i := c)) m j t" if "m \<le> t" "t < n + 1" for t
  proof (cases "t = n")
    case True
    then show ?thesis using h D(8) by auto
  next
    case False
    then have "\<exists>!j. holds pc m j t" using D(7) [of t] that by simp
    then obtain j where j: "holds pc m j t" "\<And>k. holds pc m k t \<Longrightarrow> k = j" by auto
    have "k = j" if "holds (pc(i := c)) m k t" for k
      using that j(2) False by (cases "k = i") (auto simp: h)
    moreover have "j \<noteq> i" using j(1) i(1) by blast
    ultimately show ?thesis using j(1) by (intro ex1I [of _ j]) (auto simp: h)
  qed
  moreover have "m \<le> t \<and> t < n + 1" if "holds (pc(i := c)) m j t" for j t
    using that D(2) D(8) [of j t] by (auto simp: h split: if_splits)
  moreover have "(\<exists>j. (pc(i := c)) j = Releasing) \<longleftrightarrow> (\<exists>j. pc j = Releasing)"
    using i(2) c by auto
  moreover have "unat t \<le> n + 1" if "(pc(i := c)) j = Loaded t" for j t
    using that c D(9) [of j t] by (auto split: if_splits)
  moreover have "unat t \<le> m" if "(pc(i := c)) j = Tested t" for j t
    using that c D(10) [of j t] by (auto split: if_splits)
  ultimately show ?thesis
    using D(2-6) n unat_Suc64 [of "sl_head s"] unfolding spin_inv_def by simp
qed

text \<open>A step that leaves the counters and the holders as they are.\<close>

lemma spin_inv_pc:
  assumes "spin_inv s pc n m" "\<And>t. holds (pc(i := c)) m i t = holds pc m i t"
    and "pc i \<noteq> Releasing" "c \<noteq> Releasing"
    and "\<And>t. c = Loaded t \<Longrightarrow> unat t \<le> n" "\<And>t. c = Tested t \<Longrightarrow> unat t \<le> m"
  shows "spin_inv s (pc(i := c)) n m"
proof -
  note D = spin_invD [OF assms(1)]
  have "holds (pc(i := c)) m = holds pc m" using assms(2) by (auto simp: fun_eq_iff holds_upd)
  moreover have "(\<exists>j. (pc(i := c)) j = Releasing) \<longleftrightarrow> (\<exists>j. pc j = Releasing)" using assms(3,4) by auto
  ultimately show ?thesis using D assms(5,6) unfolding spin_inv_def by auto
qed

lemma spin_inv_publish:
  assumes inv: "spin_inv s pc n m" and i: "pc i = Releasing"
  shows "spin_inv (unlock_store s) (pc(i := Idle)) n (m + 1)"
proof -
  note D = spin_invD [OF inv]
  have hi: "holds pc m i m" using i by (simp add: holds_def)
  have other: "pc j \<noteq> Owner \<and> pc j \<noteq> Releasing" if "j \<noteq> i" for j
    using holds_unique [OF inv hi, of j] that by (auto simp: holds_def)
  have h: "holds (pc(i := Idle)) (m + 1) j t \<longleftrightarrow> j \<noteq> i \<and> holds pc m j t" for j t
    using other [of j] by (auto simp: holds_def split: lock_pc.splits)
  have nx: "unat (sl_next s) = m + 1" using D(4) i by (auto split: if_splits)
  have "\<exists>!j. holds (pc(i := Idle)) (m + 1) j t" if "m + 1 \<le> t" "t < n" for t
  proof -
    have "\<exists>!j. holds pc m j t" using D(7) [of t] that by simp
    moreover have "\<not> holds pc m i t" using i that by (simp add: holds_def)
    ultimately show ?thesis unfolding h by metis
  qed
  moreover have "m + 1 \<le> t \<and> t < n" if "holds (pc(i := Idle)) (m + 1) j t" for j t
    using that h D(8) [of j t] holds_unique [OF inv hi, of j] by (cases "t = m") auto
  moreover have "unat (sl_buffer (unlock_store s) ! k) = last_in_slot (m + 1) k" if "k < Slots" for k
    using D(5) D(6) [OF that] nx last_in_slot_Suc [OF that, of m] that
    by (auto simp: unlock_store_def slot_unat nth_list_update)
  moreover have "(\<nexists>j. (pc(i := Idle)) j = Releasing)" using other by auto
  moreover have "m + 1 \<le> n" using D(8) [OF hi] by simp
  ultimately show ?thesis
    using D(1,3,5,9,10) nx unfolding spin_inv_def
    by (auto simp: unlock_store_def le_SucI)
qed

lemma spin_inv_release:
  assumes inv: "spin_inv s pc n m" and i: "pc i = Owner"
  shows "spin_inv (unlock_next s) (pc(i := Releasing)) n m"
proof -
  note D = spin_invD [OF inv]
  have hi: "holds pc m i m" using i by (simp add: holds_def)
  have no: "pc j \<noteq> Releasing" for j
    using holds_unique [OF inv hi, of j] i by (auto simp: holds_def)
  have "holds (pc(i := Releasing)) m = holds pc m" using i by (auto simp: fun_eq_iff holds_def)
  moreover have "unat (sl_next s + 1) = m + 1"
    using D(1,4) D(8) [OF hi] no unat_Suc64 [of "sl_next s"] by simp
  ultimately show ?thesis using D unfolding spin_inv_def by (auto simp: unlock_next_def)
qed

lemma spin_step_inv:
  assumes "spin_step (s, pc, n) (s', pc', n')" "spin_inv s pc n m" "n' < 2 ^ 64"
  shows "\<exists>m'. spin_inv s' pc' n' m'"
  using assms(1)
proof (cases rule: spin_step.cases)
  case (take_ticket i t)
  then show ?thesis
    using spin_inv_take [OF assms(2), of i "Spinning (sl_head s)"] assms(3)
    by (auto simp: lock_ticket_def holds_def)
next
  case (enter i t)
  have "holds pc m i (unat t)" using enter by (simp add: holds_def)
  then have "unat t = m" using ready_published [OF assms(2)] enter spin_invD(8) [OF assms(2)] by force
  then have "spin_inv s (pc(i := Owner)) n m"
    using enter by (intro spin_inv_pc [OF assms(2)]) (auto simp: holds_def)
  with enter show ?thesis by auto
next
  case (try_load i)
  then have "spin_inv s (pc(i := Loaded (sl_head s))) n m"
    using spin_invD(3) [OF assms(2)] by (intro spin_inv_pc [OF assms(2)]) (auto simp: holds_def)
  with try_load show ?thesis by auto
next
  case (try_busy i t)
  then have "spin_inv s (pc(i := Idle)) n m" by (intro spin_inv_pc [OF assms(2)]) (auto simp: holds_def)
  with try_busy show ?thesis by auto
next
  case (try_free i t)
  then have "spin_inv s (pc(i := Tested t)) n m"
    using ready_published [OF assms(2)] by (intro spin_inv_pc [OF assms(2)]) (auto simp: holds_def)
  with try_free show ?thesis by auto
next
  case (try_win i t)
  then have t: "t = sl_head s" "s' = s\<lparr>sl_head := sl_head s + 1\<rparr>"
    by (auto simp: try_exchange_def split: if_splits)
  have "m = n" using spin_invD(2,3,10) [OF assms(2)] try_win t(1) by force
  with try_win t(2) show ?thesis
    using spin_inv_take [OF assms(2), of i Owner] assms(3) by (auto simp: holds_def)
next
  case (try_lose i t)
  then have "spin_inv s (pc(i := Idle)) n m" by (intro spin_inv_pc [OF assms(2)]) (auto simp: holds_def)
  with try_lose show ?thesis by (auto simp: try_exchange_def split: if_splits)
qed (use assms(2) spin_inv_release spin_inv_publish in blast)+

lemma spin_step_count: "spin_step (s, pc, n) (s', pc', n') \<Longrightarrow> n \<le> n'"
  by (cases rule: spin_step.cases) auto

interpretation locking: preserved spin_start spin_step "\<lambda>(s, pc, n). n < 2 ^ 64 \<longrightarrow> (\<exists>m. spin_inv s pc n m)"
proof
  fix x y
  assume inv: "case x of (s, pc, n) \<Rightarrow> n < 2 ^ 64 \<longrightarrow> (\<exists>m. spin_inv s pc n m)" and step: "spin_step x y"
  obtain s pc n s' pc' n' where x: "x = (s, pc, n)" "y = (s', pc', n')" by (cases x, cases y) auto
  show "case y of (s, pc, n) \<Rightarrow> n < 2 ^ 64 \<longrightarrow> (\<exists>m. spin_inv s pc n m)"
    using inv step spin_step_count spin_step_inv unfolding x by fastforce
qed (use spin_inv_init in auto)

lemma spin_reach_inv: "spin_reach (s, pc, n) \<Longrightarrow> n < 2 ^ 64 \<Longrightarrow> \<exists>m. spin_inv s pc n m"
  using locking.reachable_inv by fastforce

section \<open>Properties\<close>

text \<open>
  (C24) Mutual exclusion: in every interleaving of any number of threads with fewer than $2^{64}$
  acquisitions, at most one thread is between the end of \<open>lock\<close>, or of a successful \<open>try_lock\<close>, and the
  store of \<open>unlock\<close>.
\<close>

theorem spin_exclusion:
  assumes "spin_reach (s, pc, n)" "n < 2 ^ 64"
    and "pc i \<in> {Owner, Releasing}" "pc j \<in> {Owner, Releasing}"
  shows "i = j"
proof -
  obtain m where inv: "spin_inv s pc n m" using spin_reach_inv [OF assms(1)] assms(2) by blast
  show ?thesis by (rule holds_unique [OF inv, of i m]) (use assms(3,4) in \<open>auto simp: holds_def\<close>)
qed

text \<open>
  (C25) The lock is never lost: when no thread owns or releases it and threads spin for it, exactly one
  of them can enter, the one with the smallest ticket, so that the threads enter in the order of
  their tickets.
\<close>

theorem spin_progress:
  assumes "spin_reach (s, pc, n)" "n < 2 ^ 64"
    and "\<forall>k. pc k \<noteq> Owner \<and> pc k \<noteq> Releasing" "pc j = Spinning u"
  shows "\<exists>!i. \<exists>t. pc i = Spinning t \<and> lock_ready s t \<and> t \<le> u"
proof -
  obtain m where inv: "spin_inv s pc n m" using spin_reach_inv [OF assms(1)] assms(2) by blast
  note D = spin_invD [OF inv]
  have u: "m \<le> unat u" "unat u < n" using D(8) [of j "unat u"] assms(4) by (auto simp: holds_def)
  then have "\<exists>!i. holds pc m i m" by (intro D(7)) simp_all
  then obtain i where i: "holds pc m i m" "\<And>k. holds pc m k m \<Longrightarrow> k = i" by auto
  have "pc i \<noteq> Owner" "pc i \<noteq> Releasing" using assms(3) by simp_all
  with i(1) obtain t where t: "pc i = Spinning t" "unat t = m" by (cases "pc i") (simp_all add: holds_def)
  have ready: "lock_ready s t' \<longleftrightarrow> unat t' = m" if "pc k = Spinning t'" for k t'
  proof
    assume "lock_ready s t'"
    then show "unat t' = m"
      using ready_published [OF inv, of t'] D(8) [of k "unat t'"] that by (simp add: holds_def)
  next
    assume "unat t' = m"
    then have "unat (sl_buffer s ! slot t') = unat t'"
      using D(6) [of "slot t'"] last_in_slot_self [of m] by (simp add: slot_unat)
    then show "lock_ready s t'" by (simp add: lock_ready_def word_unat_eq_iff)
  qed
  have uniq: "k = i" if "pc k = Spinning t'" "lock_ready s t'" for k t'
    by (rule i(2)) (use ready [OF that(1)] that in \<open>simp add: holds_def\<close>)
  have le: "t \<le> u" using t(2) u(1) by (simp add: word_le_nat_alt)
  have "lock_ready s t" using ready [OF t(1)] t(2) by simp
  with t(1) le have "\<exists>t. pc i = Spinning t \<and> lock_ready s t \<and> t \<le> u" by blast
  then show ?thesis by (rule ex1I) (use uniq in blast)
qed

text \<open>A run in which thread 5 takes the lock and thread 6 waits for it, and the same after a release.\<close>

definition sample_owned :: "spinlock \<times> (nat \<Rightarrow> lock_pc) \<times> nat" where
  "sample_owned = (SpinLock\<lparr>sl_head := 2\<rparr>, (\<lambda>_. Idle)(5 := Owner, 6 := Spinning 1), 2)"

lemma sample_owned_reach: "spin_reach sample_owned"
proof -
  note step = reach_step
  have 1: "spin_reach (SpinLock\<lparr>sl_head := 1\<rparr>, (\<lambda>_. Idle)(5 := Spinning 0), 0 + 1)"
    by (rule step [OF reach_start [of spin_start, OF refl]], rule spin_step.take_ticket) (simp_all add: lock_ticket_def SpinLock_def)
  have 2: "spin_reach (SpinLock\<lparr>sl_head := 1\<rparr>, ((\<lambda>_. Idle)(5 := Spinning 0))(5 := Owner), 0 + 1)"
    by (rule step [OF 1], rule spin_step.enter) (simp_all add: lock_ready_def slot_unat SpinLock_def)
  have "spin_reach (SpinLock\<lparr>sl_head := 2\<rparr>, (((\<lambda>_. Idle)(5 := Spinning 0))(5 := Owner))(6 := Spinning 1), 0 + 1 + 1)"
    by (rule step [OF 2], rule spin_step.take_ticket) (simp_all add: lock_ticket_def SpinLock_def)
  then show ?thesis by (simp add: sample_owned_def numeral_2_eq_2)
qed

lemma sample_free_reach:
  "spin_reach (unlock_store (unlock_next (SpinLock\<lparr>sl_head := 2\<rparr>)), (\<lambda>_. Idle)(6 := Spinning 1), 2)"
proof -
  have 1: "spin_reach (unlock_next (SpinLock\<lparr>sl_head := 2\<rparr>), ((\<lambda>_. Idle)(5 := Owner, 6 := Spinning 1))(5 := Releasing), 2)"
    by (rule reach_step [OF sample_owned_reach [unfolded sample_owned_def]], rule spin_step.release) simp
  have "spin_reach (unlock_store (unlock_next (SpinLock\<lparr>sl_head := 2\<rparr>)),
      (((\<lambda>_. Idle)(5 := Owner, 6 := Spinning 1))(5 := Releasing))(5 := Idle), 2)"
    by (rule reach_step [OF 1], rule spin_step.publish) simp
  moreover have "((((\<lambda>_. Idle)(5 := Owner, 6 := Spinning 1))(5 := Releasing))(5 := Idle)) =
      (\<lambda>_. Idle)((6 :: nat) := Spinning 1)" by auto
  ultimately show ?thesis by simp
qed

theorem spin_exclusion_witness:
  "{j. (fst (snd sample_owned)) j \<in> {Owner, Releasing}} = {5}"
proof -
  let ?pc = "(\<lambda>_. Idle)((5 :: nat) := Owner, 6 := Spinning 1)"
  have "j = 5" if "?pc j \<in> {Owner, Releasing}" for j
    by (rule spin_exclusion [OF sample_owned_reach [unfolded sample_owned_def] _ that]) simp_all
  moreover have "?pc 5 \<in> {Owner, Releasing}" by simp
  ultimately have "{j. ?pc j \<in> {Owner, Releasing}} = {5}" by blast
  then show ?thesis by (simp only: sample_owned_def fst_conv snd_conv)
qed

theorem spin_progress_witness:
  "\<exists>!i. \<exists>t. ((\<lambda>_. Idle)((6 :: nat) := Spinning 1)) i = Spinning t \<and>
     lock_ready (unlock_store (unlock_next (SpinLock\<lparr>sl_head := 2\<rparr>))) t \<and> t \<le> 1"
proof (rule spin_progress [OF sample_free_reach])
  show "((\<lambda>_. Idle)((6 :: nat) := Spinning 1)) 6 = Spinning 1" by simp
qed auto

end
