(* ===== verification/Cache_Padding.thy ===== *)
theory Cache_Padding
  imports Allocator
begin

text \<open>
  The layout classes of src/src/common/util/Utils.hpp: \<open>Padded\<close>, which fills an object up to a multiple of two cache
  lines, \<open>PaddedArray\<close>, on which the counters of the queues, the slots of the spinlock and the caches of the
  allocator are laid out, \<open>Uninitialized\<close> and \<open>Memory::alignedFree\<close>. Sizes and addresses are 64-bit words.
\<close>

section \<open>Padded objects\<close>

definition roundup :: "u64 \<Rightarrow> u64 \<Rightarrow> u64" where
  "roundup x y = (x + (y - 1)) div y * y"

text \<open>The object and the extra space; \<open>sz\<close> is \<open>sizeof(T)\<close>.\<close>

definition padding_size :: "u64 \<Rightarrow> u64 \<Rightarrow> u64" where
  "padding_size sz Size = roundup sz Size - sz"

definition Padded_size :: "u64 \<Rightarrow> u64 \<Rightarrow> u64" where
  "Padded_size sz Size = sz + padding_size sz Size"

text \<open>The constructor of the array asserts its alignment; the accesses assert their index. The result is an address.\<close>

definition PaddedArray :: "u64 \<Rightarrow> unit result" where
  "PaddedArray dat = rassert (unat dat mod CacheAlignment = 0) ''(uintptr_t) _data % CacheAlignment == 0''"

definition PaddedArray_at :: "u64 \<Rightarrow> nat \<Rightarrow> u64 \<Rightarrow> u64 \<Rightarrow> nat \<Rightarrow> u64 result" where
  "PaddedArray_at sz Capacity Padding dat i =
     rbind (rassert (i < Capacity) ''i < Capacity'') (\<lambda>_. Inr (dat + of_nat i * Padded_size sz Padding))"

text \<open>\<open>Uninitialized\<close>: the array of objects, and its accesses, which check nothing.\<close>

definition Uninitialized_get :: "u64 \<Rightarrow> u64" where
  "Uninitialized_get dat = dat"

definition Uninitialized_at :: "u64 \<Rightarrow> u64 \<Rightarrow> u64 \<Rightarrow> u64" where
  "Uninitialized_at sz dat idx = Uninitialized_get dat + idx * sz"

section \<open>Rounding\<close>

lemma roundup_unat:
  assumes "0 < y" "unat x + (unat y - 1) < 2 ^ 64"
  shows "unat (roundup x y) = (unat x + (unat y - 1)) div unat y * unat y"
proof -
  have y: "unat (y - 1) = unat y - 1" using assms(1) by (simp add: unat_minus_one)
  have "unat (x + (y - 1)) = unat x + (unat y - 1)"
    using assms(2) y by (simp add: unat_word_ariths)
  then have d: "unat ((x + (y - 1)) div y) = (unat x + (unat y - 1)) div unat y" by (simp only: unat_div)
  have "(unat x + (unat y - 1)) div unat y * unat y < 2 ^ LENGTH(64)"
    using assms(2) by (simp add: order_le_less_trans [OF div_times_less_eq_dividend])
  then show ?thesis unfolding roundup_def unat_word_ariths(2) d by simp
qed

lemma ceiling_multiple:
  fixes a b :: nat
  assumes "0 < b"
  shows "a \<le> (a + (b - 1)) div b * b" "(a + (b - 1)) div b * b < a + b"
proof -
  have "(a + (b - 1)) div b * b + (a + (b - 1)) mod b = a + (b - 1)" by (rule div_mult_mod_eq)
  moreover have "(a + (b - 1)) mod b < b" using assms by simp
  ultimately show "a \<le> (a + (b - 1)) div b * b" "(a + (b - 1)) div b * b < a + b" using assms by linarith+
qed

lemma Padded_size_eq: "Padded_size sz Size = roundup sz Size"
  by (simp add: Padded_size_def padding_size_def)

lemma Padded_size_unat:
  assumes "unat sz \<le> 2 ^ 64 - 128"
  obtains k where "unat (Padded_size sz 128) = k * 128" "unat sz \<le> k * 128" "k * 128 < unat sz + 128"
proof -
  have "unat (Padded_size sz 128) = (unat sz + (128 - 1)) div 128 * 128"
    using roundup_unat [of 128 sz] assms by (simp add: Padded_size_eq)
  then show thesis using ceiling_multiple [of 128 "unat sz"] by (intro that) auto
qed

section \<open>Lines\<close>

text \<open>A line is a block of \<open>CacheAlignment\<close> bytes.\<close>

abbreviation line :: "nat \<Rightarrow> nat" where
  "line a \<equiv> a div CacheAlignment"

lemma line_apart:
  assumes "p mod CacheAlignment = 0" "q mod CacheAlignment = 0" "p + k \<le> q" "a < k"
  shows "line (p + a) < line (q + b)"
proof -
  have q: "q = line q * CacheAlignment" using div_mult_mod_eq [of q CacheAlignment] assms(2) by simp
  have "p + a < line q * CacheAlignment" using assms(3,4) q by linarith
  then have "line (p + a) < line q" by (simp add: less_mult_imp_div_less)
  then show ?thesis using div_le_mono [of q "q + b" CacheAlignment] by linarith
qed

lemma PaddedArray_at_unat:
  assumes "unat sz \<le> 2 ^ 64 - 128" "unat dat + Capacity * unat (Padded_size sz 128) < 2 ^ 64"
    and "PaddedArray_at sz Capacity 128 dat i = Inr p"
  shows "i < Capacity" "unat p = unat dat + i * unat (Padded_size sz 128)"
proof -
  show i: "i < Capacity" using assms(3) by (auto simp: PaddedArray_at_def rbind_eq_Inr rassert_eq_Inr)
  have p: "p = dat + of_nat i * Padded_size sz 128" using assms(3) i by (simp add: PaddedArray_at_def)
  have le: "i * unat (Padded_size sz 128) \<le> Capacity * unat (Padded_size sz 128)" using i by simp
  have w: "p = of_nat (unat dat + i * unat (Padded_size sz 128))" by (simp add: p)
  show "unat p = unat dat + i * unat (Padded_size sz 128)"
    unfolding w by (rule unat_of_nat_64) (use assms(2) le in linarith)
qed

lemma PaddedArray_aligned:
  assumes "PaddedArray dat = Inr ()" "unat sz \<le> 2 ^ 64 - 128"
    and "unat dat + Capacity * unat (Padded_size sz 128) < 2 ^ 64" "PaddedArray_at sz Capacity 128 dat i = Inr p"
  shows "unat p mod CacheAlignment = 0"
proof -
  obtain k where k: "unat (Padded_size sz 128) = k * 128" by (rule Padded_size_unat [OF assms(2)])
  have "unat dat mod CacheAlignment = 0" using assms(1) by (simp add: PaddedArray_def rassert_eq_Inr)
  then show ?thesis
    unfolding PaddedArray_at_unat(2) [OF assms(2-4)] k by (simp add: mod_add_eq [symmetric] flip: mult.assoc)
qed

section \<open>Properties\<close>

text \<open>
  (C37) The elements of a padded array never share a line: a byte of one element and a byte of another are in different
  blocks of two cache lines, each element starts a block, and the padding of an element is less than one block. So the counters of
  different CPUs cannot falsely share. An index outside of the array is stopped by the assertion.
\<close>

theorem padded_array_lines:
  assumes "PaddedArray dat = Inr ()" "unat sz \<le> 2 ^ 64 - 128" "unat dat + Capacity * unat (Padded_size sz 128) < 2 ^ 64"
    and "PaddedArray_at sz Capacity 128 dat i = Inr p" "PaddedArray_at sz Capacity 128 dat j = Inr q"
    and "a < unat sz" "b < unat sz"
  shows "unat p mod CacheAlignment = 0 \<and> unat (padding_size sz 128) < CacheAlignment \<and>
    (i \<noteq> j \<longrightarrow> line (unat p + a) \<noteq> line (unat q + b)) \<and>
    PaddedArray_at sz Capacity 128 dat Capacity = Inl (AssertFail ''i < Capacity'')"
proof -
  obtain k where k: "unat (Padded_size sz 128) = k * 128" "unat sz \<le> k * 128" "k * 128 < unat sz + 128"
    by (rule Padded_size_unat [OF assms(2)])
  note al = PaddedArray_aligned [OF assms(1-3)]
  note at = PaddedArray_at_unat [OF assms(2,3)]
  have apart: "line (unat p' + a') < line (unat q' + b')"
    if "PaddedArray_at sz Capacity 128 dat i' = Inr p'" "PaddedArray_at sz Capacity 128 dat j' = Inr q'" "i' < j'" "a' < unat sz"
    for i' j' p' q' a' b'
  proof (rule line_apart [OF al [OF that(1)] al [OF that(2)] _ that(4)])
    have "i' * (k * 128) + k * 128 \<le> j' * (k * 128)" using mult_le_mono1 [of "Suc i'" j' "k * 128"] that(3) by simp
    then show "unat p' + unat sz \<le> unat q'" using at(2) [OF that(1)] at(2) [OF that(2)] k by simp
  qed
  have "unat (padding_size sz 128) < CacheAlignment"
    using k by (simp add: padding_size_def Padded_size_eq [symmetric] unat_sub word_le_nat_alt)
  moreover have "line (unat p + a) \<noteq> line (unat q + b)" if "i \<noteq> j"
    using that apart [OF assms(4,5) _ assms(6)] apart [OF assms(5,4) _ assms(7)] by (metis linorder_neqE_nat less_irrefl)
  ultimately show ?thesis using al [OF assms(4)] by (simp add: PaddedArray_at_def rassert_def)
qed

text \<open>The spinlock: 64 slots of eight bytes.\<close>

theorem padded_array_lines_witness:
  "PaddedArray_at 8 64 128 4096 2 = Inr 4352 \<and> PaddedArray_at 8 64 128 4096 3 = Inr 4480 \<and>
     line (unat (4352 :: u64) + 7) \<noteq> line (unat (4480 :: u64) + 0)"
proof -
  have s: "Padded_size 8 128 = 128" by (simp add: Padded_size_eq roundup_def)
  have a: "PaddedArray_at 8 64 128 4096 2 = Inr 4352" "PaddedArray_at 8 64 128 4096 3 = Inr 4480"
    by (simp_all add: PaddedArray_at_def s)
  show ?thesis
    using padded_array_lines [of 4096 8 64 2 4352 3 4480 7 0] a by (simp add: PaddedArray_def s)
qed

end
