(* ===== verification/Array_View.thy ===== *)
theory Array_View
  imports Tampi_Prelude
begin

text \<open>
  \<open>ArrayView\<close> and \<open>reverse_adaptor\<close> (src/src/common/util/ArrayView.hpp): a range of an array that was allocated before, and the
  traversal of such a range from its end. A pointer is an index of the array; a read outside of the array is
  an error.
\<close>

section \<open>Views\<close>

record view =
  av_begin :: nat
  av_end :: nat

definition ArrayView_int :: "nat \<Rightarrow> int \<Rightarrow> view result" where
  "ArrayView_int b len = rbind (rassert (len \<ge> 0) ''length >= 0'') (\<lambda>_. Inr \<lparr>av_begin = b, av_end = b + nat len\<rparr>)"

definition ArrayView_size_t :: "nat \<Rightarrow> nat \<Rightarrow> view" where
  "ArrayView_size_t b len = \<lparr>av_begin = b, av_end = b + len\<rparr>"

text \<open>The distance of the pointers, converted to the type \<open>int\<close> of 32 bits.\<close>

definition av_size :: "view \<Rightarrow> int" where
  "av_size v = signed_take_bit 31 (int (av_end v) - int (av_begin v))"

definition av_empty :: "view \<Rightarrow> bool" where
  "av_empty v = (av_begin v = av_end v)"

definition av_at :: "'a list \<Rightarrow> view \<Rightarrow> nat \<Rightarrow> 'a result" where
  "av_at mem v position = aread mem (av_begin v + position) ''_begin[position]''"

definition av_assign :: "'a list \<Rightarrow> view \<Rightarrow> nat \<Rightarrow> 'a \<Rightarrow> 'a list result" where
  "av_assign mem v position x = awrite mem (av_begin v + position) x ''_begin[position]''"

definition av_data :: "view \<Rightarrow> nat" where
  "av_data v = av_begin v"

section \<open>Iterators\<close>

text \<open>A pointer, and a reverse iterator, which refers to the element before its base.\<close>

datatype cursor = Fwd nat | Rev nat

fun deref :: "'a list \<Rightarrow> cursor \<Rightarrow> 'a result" where
  "deref mem (Fwd p) = aread mem p ''*it''"
| "deref mem (Rev 0) = Inl (OutOfBounds ''*it'')"
| "deref mem (Rev (Suc p)) = aread mem p ''*it''"

fun advance :: "cursor \<Rightarrow> cursor" where
  "advance (Fwd p) = Fwd (p + 1)"
| "advance (Rev p) = Rev (p - 1)"

text \<open>A view, or \<open>reverse\<close> of something that can be traversed in both directions.\<close>

datatype iterable = View view | Reversed iterable

text \<open>The members \<open>begin\<close>, \<open>end\<close>, \<open>rbegin\<close> and \<open>rend\<close>; the adaptor exchanges the first two with the last two.\<close>

record iterators =
  its_begin :: cursor
  its_end :: cursor
  its_rbegin :: cursor
  its_rend :: cursor

definition view_iterators :: "view \<Rightarrow> iterators" where
  "view_iterators v = \<lparr>its_begin = Fwd (av_begin v), its_end = Fwd (av_end v),
     its_rbegin = Rev (av_end v), its_rend = Rev (av_begin v)\<rparr>"

definition reverse_adaptor :: "iterators \<Rightarrow> iterators" where
  "reverse_adaptor it = \<lparr>its_begin = its_rbegin it, its_end = its_rend it, its_rbegin = its_begin it, its_rend = its_end it\<rparr>"

fun iterators_of :: "iterable \<Rightarrow> iterators" where
  "iterators_of (View v) = view_iterators v"
| "iterators_of (Reversed i) = reverse_adaptor (iterators_of i)"

text \<open>The loop \<open>for (x : range)\<close>.\<close>

partial_function (option) traverse :: "'a list \<Rightarrow> cursor \<Rightarrow> cursor \<Rightarrow> 'a list run" where
  "traverse mem c e =
     (if c = e then ret []
      else run_bind (Some (deref mem c)) (\<lambda>x.
        run_bind (traverse mem (advance c) e) (\<lambda>xs. ret (x # xs))))"

definition for_each :: "'a list \<Rightarrow> iterable \<Rightarrow> 'a list run" where
  "for_each mem i = traverse mem (its_begin (iterators_of i)) (its_end (iterators_of i))"

section \<open>Elements\<close>

fun view_of :: "iterable \<Rightarrow> view" where
  "view_of (View v) = v"
| "view_of (Reversed i) = view_of i"

definition slice :: "'a list \<Rightarrow> nat \<Rightarrow> nat \<Rightarrow> 'a list" where
  "slice mem b e = take (e - b) (drop b mem)"

fun elements :: "'a list \<Rightarrow> iterable \<Rightarrow> 'a list" where
  "elements mem (View v) = slice mem (av_begin v) (av_end v)"
| "elements mem (Reversed i) = rev (elements mem i)"

lemma slice_Cons: "b < e \<Longrightarrow> e \<le> length mem \<Longrightarrow> slice mem b e = mem ! b # slice mem (b + 1) e"
  by (simp add: slice_def Cons_nth_drop_Suc [symmetric] take_Cons' del: Cons_nth_drop_Suc)

lemma slice_snoc: "b \<le> e \<Longrightarrow> Suc e \<le> length mem \<Longrightarrow> slice mem b (Suc e) = slice mem b e @ [mem ! e]"
  by (simp add: slice_def Suc_diff_le take_Suc_conv_app_nth)

lemma slice_empty [simp]: "slice mem b b = []"
  by (simp add: slice_def)

lemma traverse_Fwd:
  assumes "e \<le> length mem" "b \<le> e"
  shows "traverse mem (Fwd b) (Fwd e) = ret (slice mem b e)"
  using assms(2)
proof (induction rule: inc_induct)
  case base
  show ?case by (simp add: traverse.simps)
next
  case (step n)
  then show ?case using assms(1) by (subst traverse.simps) (simp add: slice_Cons)
qed

lemma traverse_Rev:
  assumes "b \<le> e"
  shows "e \<le> length mem \<Longrightarrow> traverse mem (Rev e) (Rev b) = ret (rev (slice mem b e))"
  using assms
proof (induction rule: dec_induct)
  case base
  show ?case by (simp add: traverse.simps)
next
  case (step n)
  then show ?case by (subst traverse.simps) (simp add: slice_snoc)
qed

lemma for_each_elements:
  assumes "av_begin (view_of i) \<le> av_end (view_of i)" "av_end (view_of i) \<le> length mem"
  shows "for_each mem i = ret (elements mem i) \<and> 
    traverse mem (its_rbegin (iterators_of i)) (its_rend (iterators_of i)) = ret (rev (elements mem i))"
  using assms by (induction i) (simp_all add: for_each_def view_iterators_def reverse_adaptor_def traverse_Fwd traverse_Rev)

section \<open>Properties\<close>

text \<open>
  Traversals of a view that lies in its array return the elements of the array in order and read nothing else; each
  \<open>reverse\<close> reverses the order, so two give the same traversal again. What is assigned to a position is read
  back there. The size is the number of elements as long as it fits in
  an \<open>int\<close>; a view over \<open>2 ^ 31\<close> elements, which the second constructor accepts, has a negative size.
\<close>

lemma view_traversal:
  assumes "view_of i = v" "av_begin v \<le> av_end v" "av_end v \<le> length mem"
  shows "for_each mem i = ret (elements mem i) \<and> for_each mem (Reversed i) = ret (rev (elements mem i)) \<and>
    for_each mem (Reversed (Reversed i)) = for_each mem i \<and>
    (\<forall>k < av_end v - av_begin v. \<exists>mem'. av_assign mem v k x = Inr mem' \<and> av_at mem' v k = Inr x) \<and>
    (av_end v - av_begin v < 2 ^ 31 \<longrightarrow> av_size v = int (length (elements mem i)) \<and> av_empty v = (av_size v = 0)) \<and>
    av_size (ArrayView_size_t b (2 ^ 31)) = - (2 ^ 31)"
proof -
  have n: "length (elements mem i) = av_end v - av_begin v"
    using assms by (induction i) (simp_all add: slice_def)
  have d: "int (av_end v) - int (av_begin v) = int (length (elements mem i))"
    using assms(2) by (simp add: n of_nat_diff)
  have s: "av_size v = int (length (elements mem i))" if "av_end v - av_begin v < 2 ^ 31"
    unfolding av_size_def d using that by (simp add: n signed_take_bit_int_eq_self)
  moreover have "av_size (ArrayView_size_t b (2 ^ 31)) = - (2 ^ 31)"
    by (simp add: av_size_def ArrayView_size_t_def signed_take_bit_eq_if_negative)
  moreover have "\<exists>mem'. av_assign mem v k x = Inr mem' \<and> av_at mem' v k = Inr x" if "k < av_end v - av_begin v" for k
    using that assms(3) by (simp add: av_assign_def av_at_def)
  moreover have "av_empty v = (length (elements mem i) = 0)" using assms(2) by (auto simp: n av_empty_def)
  moreover have "for_each mem i = ret (elements mem i)" "for_each mem (Reversed i) = ret (rev (elements mem i))"
    "for_each mem (Reversed (Reversed i)) = ret (elements mem i)"
    using assms for_each_elements [of i mem] for_each_elements [of "Reversed i" mem]
      for_each_elements [of "Reversed (Reversed i)" mem] by simp_all
  ultimately show ?thesis by (intro conjI allI impI) simp_all
qed

end
