(* ===== verification/Error_Handler.thy ===== *)
theory Error_Handler
  imports String_Support Double Reachability
begin

text \<open>
  \<open>ErrorHandler\<close> (src/src/common/util/ErrorHandler.hpp): the text of the messages, the writing of messages by
  several threads, and the functions for signal handlers, which format their parts in a buffer. The effect of
  \<open>fail\<close> and \<open>warn\<close> on the operations that call them is in \<open>Tampi_Prelude\<close>.
\<close>

section \<open>Texts\<close>

definition int_text :: "int \<Rightarrow> string" where
  "int_text n = (if n < 0 then CHR ''-'' # to_string (nat (- n)) else to_string (nat n))"

fun reason_text :: "reason \<Rightarrow> string" where
  "reason_text (Str s) = s"
| "reason_text (Num n) = int_text n"

fun emitReasonParts :: "string \<Rightarrow> reason list \<Rightarrow> string" where
  "emitReasonParts oss (firstReasonPart # reasonParts) = emitReasonParts (oss @ reason_text firstReasonPart) reasonParts"
| "emitReasonParts oss [] = oss"

datatype severity = Failure | Warning

text \<open>What \<open>fail\<close> or \<open>warn\<close> hands to the standard error stream.\<close>

definition header :: "severity \<Rightarrow> string" where
  "header sev = (case sev of Failure \<Rightarrow> ''Error: '' | Warning \<Rightarrow> ''Warning: '')"

definition message :: "severity \<times> reason list \<Rightarrow> string" where
  "message r = emitReasonParts (header (fst r)) (snd r) @ nl"

section \<open>Threads that report\<close>

text \<open>
  A thread builds its message in its own stream and writes it while it holds the lock, in one step. After a
  failure the thread ends the process, which stops all threads.
\<close>

datatype report_pc = Starting | Building string "reason list" | Ready string | Written

record console =
  cn_cerr :: string
  cn_pc :: "nat \<Rightarrow> report_pc"
  cn_stopped :: bool

inductive report_step :: "(nat \<Rightarrow> severity \<times> reason list) \<Rightarrow> console \<Rightarrow> console \<Rightarrow> bool" for rs where
  start: "\<not> cn_stopped c \<Longrightarrow> cn_pc c i = Starting \<Longrightarrow>
    report_step rs c (c\<lparr>cn_pc := (cn_pc c)(i := Building (header (fst (rs i))) (snd (rs i)))\<rparr>)"
| part: "\<not> cn_stopped c \<Longrightarrow> cn_pc c i = Building oss (p # ps) \<Longrightarrow>
    report_step rs c (c\<lparr>cn_pc := (cn_pc c)(i := Building (oss @ reason_text p) ps)\<rparr>)"
| endl: "\<not> cn_stopped c \<Longrightarrow> cn_pc c i = Building oss [] \<Longrightarrow>
    report_step rs c (c\<lparr>cn_pc := (cn_pc c)(i := Ready (oss @ nl))\<rparr>)"
| emit: "\<not> cn_stopped c \<Longrightarrow> cn_pc c i = Ready m \<Longrightarrow>
    report_step rs c (c\<lparr>cn_cerr := cn_cerr c @ m, cn_pc := (cn_pc c)(i := Written)\<rparr>)"
| abort: "\<not> cn_stopped c \<Longrightarrow> cn_pc c i = Written \<Longrightarrow> fst (rs i) = Failure \<Longrightarrow>
    report_step rs c (c\<lparr>cn_stopped := True\<rparr>)"

abbreviation report_start :: "console \<Rightarrow> bool" where
  "report_start c \<equiv> c = \<lparr>cn_cerr = [], cn_pc = (\<lambda>_. Starting), cn_stopped = False\<rparr>"

abbreviation report_run :: "(nat \<Rightarrow> severity \<times> reason list) \<Rightarrow> console \<Rightarrow> bool" where
  "report_run rs \<equiv> reachable report_start (report_step rs)"

text \<open>The stream is made of the whole messages of the threads that wrote, and every thread builds its own message.\<close>

definition pc_ok :: "severity \<times> reason list \<Rightarrow> report_pc \<Rightarrow> bool" where
  "pc_ok r pc = (case pc of Building oss ps \<Rightarrow> emitReasonParts oss ps @ nl = message r | Ready m \<Rightarrow> m = message r | _ \<Rightarrow> True)"

definition whole :: "(nat \<Rightarrow> severity \<times> reason list) \<Rightarrow> console \<Rightarrow> nat list \<Rightarrow> bool" where
  "whole rs c order \<longleftrightarrow> distinct order \<and> set order = {i. cn_pc c i = Written} \<and>
     cn_cerr c = concat (map (\<lambda>i. message (rs i)) order)"

definition report_inv :: "(nat \<Rightarrow> severity \<times> reason list) \<Rightarrow> console \<Rightarrow> bool" where
  "report_inv rs c \<longleftrightarrow> (\<forall>i. pc_ok (rs i) (cn_pc c i)) \<and> (\<exists>order. whole rs c order)"

lemma report_inv_move:
  assumes "report_inv rs c" "cn_pc c i \<noteq> Written" "pc \<noteq> Written" "pc_ok (rs i) pc"
  shows "report_inv rs (c\<lparr>cn_pc := (cn_pc c)(i := pc)\<rparr>)"
proof -
  obtain order where w: "whole rs c order" using assms(1) by (auto simp: report_inv_def)
  have "whole rs (c\<lparr>cn_pc := (cn_pc c)(i := pc)\<rparr>) order"
    using w assms(2,3) by (auto simp: whole_def split: if_splits)
  then show ?thesis using assms(1,4) by (auto simp: report_inv_def)
qed

lemma report_step_inv:
  assumes "report_step rs c c'" "report_inv rs c"
  shows "report_inv rs c'"
  using assms(1)
proof cases
  case (start i)
  then show ?thesis using assms(2) by (auto intro!: report_inv_move simp: pc_ok_def message_def)
next
  case (part i oss p ps)
  then show ?thesis using assms(2) report_inv_move [OF assms(2), of i "Building (oss @ reason_text p) ps"]
    by (auto simp: report_inv_def pc_ok_def dest: spec [of _ i])
next
  case (endl i oss)
  then show ?thesis using assms(2) report_inv_move [OF assms(2), of i "Ready (oss @ nl)"]
    by (auto simp: report_inv_def pc_ok_def dest: spec [of _ i])
next
  case (emit i m)
  obtain order where w: "whole rs c order" using assms(2) by (auto simp: report_inv_def)
  have "m = message (rs i)" using assms(2) emit by (auto simp: report_inv_def pc_ok_def dest: spec [of _ i])
  then have "whole rs c' (order @ [i])" using w emit by (auto simp: whole_def)
  moreover have "\<forall>j. pc_ok (rs j) (cn_pc c' j)" using assms(2) emit by (auto simp: report_inv_def pc_ok_def)
  ultimately show ?thesis by (auto simp: report_inv_def)
next
  case (abort i)
  then show ?thesis using assms(2) by (auto simp: report_inv_def whole_def)
qed

interpretation reports: preserved report_start "report_step rs" "report_inv rs" for rs
proof
  show "report_inv rs c" if "report_start c" for c
    using that by (auto simp: report_inv_def whole_def pc_ok_def)
qed (use report_step_inv in blast)

lemma getlines_messages:
  "(\<And>i. i \<in> set order \<Longrightarrow> CHR 0x0A \<notin> set (emitReasonParts (header (fst (rs i))) (snd (rs i)))) \<Longrightarrow>
   getlines (CHR 0x0A) (concat (map (\<lambda>i. message (rs i)) order)) =
     map (\<lambda>i. emitReasonParts (header (fst (rs i))) (snd (rs i))) order"
  by (induction order) (simp_all add: message_def getlines_cons)

section \<open>Parts for signal handlers\<close>

text \<open>
  The parts are formatted with \<open>snprintf\<close> in a buffer of the caller and written to the file descriptor 2; characters
  and C strings are written directly. A finite \<open>float\<close> or \<open>double\<close> is a rational number, printed with six
  decimals, rounded to the nearest and to the even one in a tie.
\<close>

datatype safe_part = P_char char | P_int int | P_long int | P_string string | P_float rat | P_double rat

definition fixed_text :: "rat \<Rightarrow> string" where
  "fixed_text x =
     (let n = nat (round_even (abs x * 1000000)); ds = to_string (n mod 1000000) in
      (if x < 0 then ''-'' else []) @ to_string (n div 1000000) @ ''.'' @ replicate (6 - length ds) (CHR ''0'') @ ds)"

text \<open>\<open>snprintf\<close>: the length of the whole text, and the buffer with as much of the text as fits before the final zero.\<close>

definition snprintf :: "string \<Rightarrow> nat \<Rightarrow> string \<Rightarrow> nat \<times> string" where
  "snprintf buffer sz txt =
     (length txt, if sz = 0 then buffer else let w = take (sz - 1) txt @ [CHR 0x00] in w @ drop (length w) buffer)"

definition write_fd :: "string \<Rightarrow> string \<Rightarrow> nat \<Rightarrow> string result" where
  "write_fd out buffer n = (if n \<le> length buffer then Inr (out @ take n buffer) else Inl (OutOfBounds ''write''))"

definition emit_formatted :: "string \<Rightarrow> nat \<Rightarrow> string \<Rightarrow> string \<Rightarrow> (string \<times> string) result" where
  "emit_formatted buffer sz txt out =
     (let (n, buffer) = snprintf buffer sz txt in rbind (write_fd out buffer n) (\<lambda>out. Inr (buffer, out)))"

fun safeEmitPart :: "string \<Rightarrow> nat \<Rightarrow> safe_part \<Rightarrow> string \<Rightarrow> (string \<times> string) result" where
  "safeEmitPart buffer sz (P_char c) out = Inr (buffer, out @ [c])"
| "safeEmitPart buffer sz (P_int n) out = emit_formatted buffer sz (int_text n) out"
| "safeEmitPart buffer sz (P_long n) out = emit_formatted buffer sz (int_text n) out"
| "safeEmitPart buffer sz (P_string s) out = Inr (buffer, out @ s)"
| "safeEmitPart buffer sz (P_float x) out = emit_formatted buffer sz (fixed_text x) out"
| "safeEmitPart buffer sz (P_double x) out = emit_formatted buffer sz (fixed_text x) out"

fun safeEmitReasonParts :: "string \<Rightarrow> nat \<Rightarrow> safe_part list \<Rightarrow> string \<Rightarrow> (string \<times> string) result" where
  "safeEmitReasonParts buffer sz (p # ps) out =
     rbind (safeEmitPart buffer sz p out) (\<lambda>(buffer, out). safeEmitReasonParts buffer sz ps out)"
| "safeEmitReasonParts buffer sz [] out = Inr (buffer, out)"

fun part_text :: "safe_part \<Rightarrow> string" where
  "part_text (P_char c) = [c]"
| "part_text (P_int n) = int_text n"
| "part_text (P_long n) = int_text n"
| "part_text (P_string s) = s"
| "part_text (P_float x) = fixed_text x"
| "part_text (P_double x) = fixed_text x"

fun formatted :: "safe_part \<Rightarrow> bool" where
  "formatted (P_char _) = False"
| "formatted (P_string _) = False"
| "formatted _ = True"

lemma emit_formatted_fits:
  assumes "length buffer = sz" "length txt < sz"
  shows "\<exists>buffer'. length buffer' = sz \<and> emit_formatted buffer sz txt out = Inr (buffer', out @ txt)"
  using assms by (auto simp: emit_formatted_def snprintf_def write_fd_def Let_def)

lemma emit_formatted_overruns:
  assumes "length buffer = sz" "sz < length txt" "0 < sz"
  shows "emit_formatted buffer sz txt out = Inl (OutOfBounds ''write'')"
  using assms by (auto simp: emit_formatted_def snprintf_def write_fd_def Let_def min_def)

lemma safeEmitPart_fits:
  assumes "length buffer = sz" "formatted p \<longrightarrow> length (part_text p) < sz"
  shows "\<exists>buffer'. length buffer' = sz \<and> safeEmitPart buffer sz p out = Inr (buffer', out @ part_text p)"
  using assms emit_formatted_fits [OF assms(1)] by (cases p) auto

lemma safeEmitReasonParts_fits:
  assumes "length buffer = sz" "\<forall>p \<in> set ps. formatted p \<longrightarrow> length (part_text p) < sz"
  shows "\<exists>buffer'. safeEmitReasonParts buffer sz ps out = Inr (buffer', out @ concat (map part_text ps))"
  using assms
proof (induction ps arbitrary: buffer out)
  case (Cons p ps)
  obtain buffer' where "length buffer' = sz" "safeEmitPart buffer sz p out = Inr (buffer', out @ part_text p)"
    using safeEmitPart_fits [of buffer sz p out] Cons.prems by auto
  then show ?case using Cons.IH [of buffer' "out @ part_text p"] Cons.prems by simp
qed simp

section \<open>Properties\<close>


text \<open>
  The functions for signal handlers write exactly the texts of their parts when each formatted text is shorter than the
  buffer. Otherwise they do not: the length that \<open>snprintf\<close> returns is that of the whole text, not of what it stored, so for a
  text longer than the buffer they read behind the buffer.
\<close>

lemma safe_emit_bounds:
  assumes "length buffer = sz" "0 < sz"
  shows "((\<forall>p \<in> set ps. formatted p \<longrightarrow> length (part_text p) < sz) \<longrightarrow>
      (\<exists>buffer'. safeEmitReasonParts buffer sz ps out = Inr (buffer', out @ concat (map part_text ps)))) \<and>
    (formatted p \<and> sz < length (part_text p) \<longrightarrow>
      safeEmitReasonParts buffer sz (p # ps) out = Inl (OutOfBounds ''write''))"
  using safeEmitReasonParts_fits [OF assms(1)] emit_formatted_overruns [OF assms(1) _ assms(2)]
  by (cases p) auto

text \<open>Two threads: the second has written its warning while the first builds its message.\<close>

definition sample_reports :: "nat \<Rightarrow> severity \<times> reason list" where
  "sample_reports i = (if i = 0 then (Failure, [Str ''Invalid operation'']) else (Warning, [Str ''Increasing capacity to '', Num 256]))"

definition sample_console :: console where
  "sample_console = \<lparr>cn_cerr = ''Warning: Increasing capacity to 256'' @ nl,
     cn_pc = ((\<lambda>_. Starting)(0 := Building ''Error: '' [Str ''Invalid operation''], 1 := Written)), cn_stopped = False\<rparr>"

lemma sample_written: "{i. cn_pc sample_console i = Written} = {1}"
  by (auto simp: sample_console_def)

lemma sample_report_run: "report_run sample_reports sample_console"
proof -
  let ?s = "report_step sample_reports"
  have n: "int_text 256 = ''256''" by code_simp
  let ?c0 = "\<lparr>cn_cerr = [], cn_pc = (\<lambda>_. Starting), cn_stopped = False\<rparr>"
  let ?c1 = "?c0\<lparr>cn_pc := (cn_pc ?c0)(0 := Building ''Error: '' [Str ''Invalid operation''])\<rparr>"
  let ?c2 = "?c1\<lparr>cn_pc := (cn_pc ?c1)(1 := Building ''Warning: '' [Str ''Increasing capacity to '', Num 256])\<rparr>"
  let ?c3 = "?c2\<lparr>cn_pc := (cn_pc ?c2)(1 := Building ''Warning: Increasing capacity to '' [Num 256])\<rparr>"
  let ?c4 = "?c3\<lparr>cn_pc := (cn_pc ?c3)(1 := Building ''Warning: Increasing capacity to 256'' [])\<rparr>"
  let ?c5 = "?c4\<lparr>cn_pc := (cn_pc ?c4)(1 := Ready (''Warning: Increasing capacity to 256'' @ nl))\<rparr>"
  let ?c6 = "?c5\<lparr>cn_cerr := cn_cerr ?c5 @ (''Warning: Increasing capacity to 256'' @ nl), cn_pc := (cn_pc ?c5)(1 := Written)\<rparr>"
  have "report_run sample_reports ?c0" by (rule reach_start) simp
  moreover have "?s ?c0 ?c1" using report_step.start [of ?c0 0 sample_reports] by (simp add: sample_reports_def header_def)
  moreover have "?s ?c1 ?c2" using report_step.start [of ?c1 1 sample_reports] by (simp add: sample_reports_def header_def)
  moreover have "?s ?c2 ?c3" using report_step.part [of ?c2 1 "''Warning: ''" "Str ''Increasing capacity to ''" "[Num 256]" sample_reports] by simp
  moreover have "?s ?c3 ?c4" using report_step.part [of ?c3 1 "''Warning: Increasing capacity to ''" "Num 256" "[]" sample_reports] by (simp add: n)
  moreover have "?s ?c4 ?c5" using report_step.endl [of ?c4 1 "''Warning: Increasing capacity to 256''" sample_reports] by simp
  moreover have "?s ?c5 ?c6" by (rule report_step.emit) simp_all
  ultimately have "report_run sample_reports ?c6" by (metis (no_types, lifting) reach_step)
  then show ?thesis by (simp add: sample_console_def)
qed


end
