(* ===== verification/Fortran_Statuses.thy ===== *)
theory Fortran_Statuses
  imports Fortran_Interface
begin

text \<open>
  Where the tests of requests leave the statuses. \<open>TicketManager::internalTestRequests\<close> (src/src/common/TicketManager.hpp)
  passes \<open>statuses + completed\<close> to each call of \<open>MPI_Testany\<close> and \<open>MPI_Test\<close>, and the status of the \<open>c\<close>-th completion is read from the \<open>c\<close>-th
  element of the array. The array is an array of \<open>status_t\<close> but \<open>statuses\<close> has the type \<open>status_ptr_t\<close> (\<open>Types\<close> of
  src/src/common/Interface.hpp). In C both are \<open>MPI_Status\<close>. In Fortran a status is an array of \<open>size\<close> integers, and the pointer is one to
  integers, so the addition moves it by one integer.
\<close>

section \<open>Pointers to statuses\<close>

datatype language = Lang_C | Lang_Fortran

text \<open>How many integers \<open>statuses + 1\<close> is behind \<open>statuses\<close>.\<close>

fun status_stride :: "language \<Rightarrow> nat \<Rightarrow> nat" where
  "status_stride Lang_C n = n"
| "status_stride Lang_Fortran n = 1"

text \<open>MPI stores a status at a pointer; the memory of the array is a list of integers.\<close>

definition put_status :: "int list \<Rightarrow> nat \<Rightarrow> int list \<Rightarrow> int list result" where
  "put_status mem p st =
     (if p + length st \<le> length mem then Inr (take p mem @ st @ drop (p + length st) mem) else Inl (OutOfBounds ''statuses''))"

fun put_statuses :: "language \<Rightarrow> nat \<Rightarrow> nat \<Rightarrow> int list list \<Rightarrow> int list \<Rightarrow> int list result" where
  "put_statuses lang sz completed [] mem = Inr mem"
| "put_statuses lang sz completed (st # sts) mem =
     rbind (put_status mem (completed * status_stride lang sz) st) (\<lambda>mem.
     put_statuses lang sz (completed + 1) sts mem)"

definition status_at :: "nat \<Rightarrow> int list \<Rightarrow> nat \<Rightarrow> int list" where
  "status_at sz mem position = take sz (drop (position * sz) mem)"

section \<open>C\<close>

lemma length_put_status: "put_status mem p st = Inr mem' \<Longrightarrow> length mem' = length mem"
  by (auto simp: put_status_def split: if_splits)

lemma put_status_below: "put_status mem p st = Inr mem' \<Longrightarrow> n \<le> p \<Longrightarrow> take n mem' = take n mem"
  by (auto simp: put_status_def min_def split: if_splits)

lemma put_statuses_below:
  "put_statuses Lang_C sz k sts mem = Inr mem' \<Longrightarrow> n \<le> k * sz \<Longrightarrow> take n mem' = take n mem"
proof (induction sts arbitrary: k mem)
  case (Cons st sts)
  obtain m where m: "put_status mem (k * sz) st = Inr m" "put_statuses Lang_C sz (k + 1) sts m = Inr mem'"
    using Cons.prems(1) by (auto simp: rbind_eq_Inr)
  have "n \<le> (k + 1) * sz" using Cons.prems(2) by simp
  from Cons.IH [OF m(2) this] show ?case using put_status_below [OF m(1) Cons.prems(2)] by simp
qed simp

lemma status_at_take: "(c + 1) * sz \<le> n \<Longrightarrow> status_at sz (take n mem) c = status_at sz mem c"
  by (simp add: status_at_def drop_take min_def)

text \<open>In C every status is read back.\<close>

lemma statuses_C:
  assumes "\<forall>st \<in> set sts. length st = sz" "(k + length sts) * sz \<le> length mem"
  shows "\<exists>mem'. put_statuses Lang_C sz k sts mem = Inr mem' \<and> (\<forall>c < length sts. status_at sz mem' (k + c) = sts ! c)"
  using assms
proof (induction sts arbitrary: k mem)
  case (Cons st sts)
  define m where "m = take (k * sz) mem @ st @ drop (k * sz + sz) mem"
  have st: "length st = sz" "k * sz + sz \<le> length mem" using Cons.prems by (simp_all add: algebra_simps)
  then have p: "put_status mem (k * sz) st = Inr m" by (simp add: put_status_def m_def)
  have "((k + 1) + length sts) * sz \<le> length m" using Cons.prems(2) length_put_status [OF p] by (simp add: algebra_simps)
  then obtain mem' where mem': "put_statuses Lang_C sz (k + 1) sts m = Inr mem'"
    "\<forall>c < length sts. status_at sz mem' (k + 1 + c) = sts ! c"
    using Cons.IH [of "k + 1" m] Cons.prems(1) by auto
  have "status_at sz mem' k = status_at sz (take ((k + 1) * sz) mem') k" by (simp add: status_at_take)
  also have "\<dots> = status_at sz m k" unfolding put_statuses_below [OF mem'(1) order_refl] by (simp add: status_at_take)
  also have "\<dots> = st" using st by (simp add: status_at_def m_def)
  finally have "status_at sz mem' (k + c) = (st # sts) ! c" if "c < length (st # sts)" for c
    using that mem'(2) by (cases c) auto
  then show ?case using p mem'(1) by auto
qed simp

section \<open>Fortran\<close>

text \<open>
  In Fortran the second status is stored over the first one, and what is read as the second one begins with the last integer of its
  status and continues with what was in the array before.
\<close>

lemma statuses_Fortran:
  assumes "length a = sz" "length b = sz" "1 < sz" "2 * sz \<le> length mem"
  shows "\<exists>mem'. put_statuses Lang_Fortran sz 0 [a, b] mem = Inr mem' \<and>
    status_at sz mem' 0 = hd a # butlast b \<and> status_at sz mem' 1 = last b # take (sz - 1) (drop (sz + 1) mem)"
proof -
  obtain x xs where a: "a = x # xs" "length xs = sz - 1" using assms(1,3) by (cases a) auto
  obtain ys y where b: "b = ys @ [y]" "length ys = sz - 1" using assms(2,3) by (cases b rule: rev_cases) auto
  let ?m = "a @ drop sz mem"
  have "put_status mem 0 a = Inr ?m" using assms(1,4) by (simp add: put_status_def)
  moreover have "put_status ?m 1 b = Inr (x # ys @ y # drop (sz + 1) mem)"
    using assms a b by (simp add: put_status_def)
  ultimately have "put_statuses Lang_Fortran sz 0 [a, b] mem = Inr (x # ys @ y # drop (sz + 1) mem)" by simp
  moreover have "status_at sz (x # ys @ y # drop (sz + 1) mem) 0 = x # ys"
    "status_at sz (x # ys @ y # drop (sz + 1) mem) 1 = y # take (sz - 1) (drop (sz + 1) mem)"
    using b(2) assms(3) by (cases sz; simp add: status_at_def)+
  ultimately show ?thesis using a b by auto
qed

end
